(* ===== verification/Prelude.thy ===== *)
theory Prelude
  imports Complex_Main "HOL-Library.Word"
begin

text \<open>
  The shared vocabulary of the development: the Go values every component handles (errors, nil
  pointers to protobuf messages, maps indexed with a default, 32-bit configuration integers,
  \<open>time.Duration\<close>), the \<open>for \<dots> range\<close> loop with early return, and the
  generic lemmas and rule collections the component theories use.

  A Go function that returns \<open>(T, error)\<close> is modelled by a pair of a value and a
  \<open>gerror option\<close>, so that a nil error with a zero value stays visible. A pointer to a
  protobuf message is an option; the generated getters return the field's zero value on nil.
\<close>

named_theorems go_run \<open>evaluation of the model's operations on concrete input\<close>
named_theorems go_frame \<open>components of the state an operation leaves unchanged\<close>

section \<open>Integers and durations\<close>

type_synonym i32 = "32 word"
type_synonym duration = "64 word"

text \<open>\<open>time.Duration\<close> is a signed 64-bit number of nanoseconds.\<close>

definition Millisecond :: duration where
  "Millisecond = 1000000"

definition Second :: duration where
  "Second = 1000 * Millisecond"

text \<open>The conversion \<open>time.Duration(x)\<close> of an \<open>int32\<close> sign-extends.\<close>

definition duration_of_i32 :: "i32 \<Rightarrow> duration" where
  "duration_of_i32 x = word_of_int (sint x)"

section \<open>Texts and errors\<close>

text \<open>The upper case of an ASCII letter; other bytes are unchanged.\<close>

definition upper_ascii :: "char \<Rightarrow> char" where
  "upper_ascii c = (let n = of_char c :: nat in if 97 \<le> n \<and> n \<le> 122 then char_of (n - 32) else c)"

text \<open>
  A formatted text is kept unrendered: literal text (with \<open>%s\<close> operands in place) and the
  operands of \<open>%q\<close>, whose quoting depends on Unicode tables.
\<close>

datatype frag = Lit string | Quoted string

type_synonym fmt_text = "frag list"

text \<open>
  Error values: \<open>errors.New\<close>, \<open>fmt.Errorf\<close> with \<open>%w\<close> (which keeps the wrapped error),
  gRPC status errors, the two errors of a finished context, and a run-time panic, which ends the
  request it occurs in.
\<close>

datatype grpc_code = NotFound | OtherCode nat

datatype gerror =
    ErrorString fmt_text
  | WrapError fmt_text gerror
  | StatusError grpc_code fmt_text
  | ContextCanceled
  | ContextDeadlineExceeded
  | GoPanic fmt_text

text \<open>\<open>errors.Unwrap\<close> repeated: the error at the bottom of a chain of \<open>%w\<close>.\<close>

fun root_cause :: "gerror \<Rightarrow> gerror" where
  "root_cause (WrapError msg e) = root_cause e"
| "root_cause e = e"

section \<open>Nil-safe reads\<close>

definition get_str :: "('r \<Rightarrow> string) \<Rightarrow> 'r option \<Rightarrow> string" where
  "get_str f p = (case p of None \<Rightarrow> '''' | Some r \<Rightarrow> f r)"

definition get_bool :: "('r \<Rightarrow> bool) \<Rightarrow> 'r option \<Rightarrow> bool" where
  "get_bool f p = (case p of None \<Rightarrow> False | Some r \<Rightarrow> f r)"

lemma get_str_simps [simp, go_run]:
  "get_str f None = ''''" "get_str f (Some r) = f r"
  by (simp_all add: get_str_def)

lemma get_bool_simps [simp, go_run]:
  "get_bool f None = False" "get_bool f (Some r) = f r"
  by (simp_all add: get_bool_def)

text \<open>Indexing a \<open>map[string]string\<close> yields the empty string on a missing key.\<close>

definition go_index :: "('k \<rightharpoonup> string) \<Rightarrow> 'k \<Rightarrow> string" where
  "go_index m k = (case m k of None \<Rightarrow> '''' | Some v \<Rightarrow> v)"

lemma go_index_simps [simp, go_run]:
  "m k = None \<Longrightarrow> go_index m k = ''''"
  "m k = Some v \<Longrightarrow> go_index m k = v"
  by (simp_all add: go_index_def)

section \<open>Range loops with early return\<close>

text \<open>
  \<open>for _, x := range xs { body }\<close> inside a function that returns an error: the body threads
  the local variables \<open>'s\<close> and the world \<open>'w\<close>; \<open>Inl e\<close> is \<open>return nil, e\<close>,
  \<open>Inr s\<close> is falling through to the next iteration or \<open>continue\<close>.
\<close>

type_synonym ('s, 'w) body_result = "(gerror + 's) \<times> 'w"

fun range_loop ::
  "('a \<Rightarrow> 's \<Rightarrow> 'w \<Rightarrow> ('s, 'w) body_result) \<Rightarrow> 'a list \<Rightarrow> 's \<Rightarrow> 'w \<Rightarrow> ('s, 'w) body_result"
where
  "range_loop body [] s w = (Inr s, w)"
| "range_loop body (x # xs) s w =
     (case body x s w of
        (Inl e, w') \<Rightarrow> (Inl e, w')
      | (Inr s', w') \<Rightarrow> range_loop body xs s' w')"

lemma range_loop_append:
  "range_loop body (xs @ ys) s w =
     (case range_loop body xs s w of
        (Inl e, w') \<Rightarrow> (Inl e, w')
      | (Inr s', w') \<Rightarrow> range_loop body ys s' w')"
  by (induction xs arbitrary: s w) (auto split: prod.splits sum.splits)

text \<open>Elements whose body does nothing can be dropped from the list.\<close>

lemma range_loop_filter:
  assumes "\<And>x s w. x \<in> set xs \<Longrightarrow> \<not> P x \<Longrightarrow> body x s w = (Inr s, w)"
  shows "range_loop body xs s w = range_loop body (filter P xs) s w"
  using assms
  by (induction xs arbitrary: s w) (auto split: prod.splits sum.splits)

lemma range_loop_cong:
  assumes "\<And>x s w. x \<in> set xs \<Longrightarrow> body x s w = body' x s w"
  shows "range_loop body xs s w = range_loop body' xs s w"
  using assms
  by (induction xs arbitrary: s w) (auto split: prod.splits sum.splits)

text \<open>The error a loop returns is the error of one of its iterations.\<close>

lemma range_loop_Inl:
  assumes "range_loop body xs s w = (Inl e, w')"
  shows "\<exists>ys x zs s1 w1. xs = ys @ x # zs \<and> range_loop body ys s w = (Inr s1, w1) \<and>
           body x s1 w1 = (Inl e, w')"
  using assms
proof (induction xs arbitrary: s w)
  case Nil
  then show ?case by simp
next
  case (Cons x xs)
  obtain r w1 where b: "body x s w = (r, w1)" by fastforce
  show ?case
  proof (cases r)
    case (Inl e1)
    with b Cons.prems have "body x s w = (Inl e, w')" by simp
    then show ?thesis by (intro exI [of _ "[]"]) auto
  next
    case (Inr s1)
    with b Cons.prems have "range_loop body xs s1 w1 = (Inl e, w')" by simp
    then obtain ys y zs s2 w2 where
      "xs = ys @ y # zs" "range_loop body ys s1 w1 = (Inr s2, w2)" "body y s2 w2 = (Inl e, w')"
      using Cons.IH by blast
    with b Inr show ?thesis by (intro exI [of _ "x # ys"]) auto
  qed
qed

end
