(* ===== verification/Float64.thy ===== *)
theory Float64
  imports Prelude
begin

text \<open>
  Go's \<open>float64\<close> (IEEE 754 binary64) as far as the program computes with it. A finite value is
  the rational number it denotes; every arithmetic result is the exact result rounded to nearest,
  ties to even, at 53 bits of precision (with the subnormal range at exponent -1074 and overflow
  to infinity). The two zeros are one value here: no operation of the program looks at the sign of
  a zero. Everything is executable on rationals, so results are evaluated by the kernel.
\<close>

section \<open>Rounding\<close>

text \<open>The number of binary digits of a natural number.\<close>

fun blen :: "nat \<Rightarrow> nat" where
  "blen n = (if n = 0 then 0 else Suc (blen (n div 2)))"

declare blen.simps [simp del]

text \<open>The binary order of magnitude of a positive rational: \<open>\<lfloor>log2 x\<rfloor>\<close>.\<close>

definition flog2 :: "rat \<Rightarrow> int" where
  "flog2 x = (if 1 \<le> x then int (blen (nat \<lfloor>x\<rfloor>)) - 1
              else - int (blen (nat (\<lceil>1 / x\<rceil> - 1))))"

definition pow2 :: "int \<Rightarrow> rat" where
  "pow2 e = (if 0 \<le> e then 2 ^ nat e else 1 / 2 ^ nat (- e))"

text \<open>Round to an integer, ties to even.\<close>

definition rne :: "rat \<Rightarrow> int" where
  "rne x = (let f = \<lfloor>x\<rfloor>; d = x - of_int f in
     if d < 1 / 2 then f else if 1 / 2 < d then f + 1 else if even f then f else f + 1)"

text \<open>The exponent of the unit in the last place of the binary64 numbers next to \<open>x\<close>.\<close>

definition ulp_exp :: "rat \<Rightarrow> int" where
  "ulp_exp x = (if x = 0 then -1074 else max (-1074) (flog2 \<bar>x\<bar> - 52))"

definition round64 :: "rat \<Rightarrow> rat" where
  "round64 x = of_int (rne (x / pow2 (ulp_exp x))) * pow2 (ulp_exp x)"

section \<open>Values and operations\<close>

datatype float64 = Fin rat | PosInf | NegInf | NaN

definition f64_of_rat :: "rat \<Rightarrow> float64" where
  "f64_of_rat x = (let r = round64 x in
     if r = 0 \<or> flog2 \<bar>r\<bar> < 1024 then Fin r else if 0 < r then PosInf else NegInf)"

fun is_finite :: "float64 \<Rightarrow> bool" where
  "is_finite (Fin r) = True"
| "is_finite PosInf = False"
| "is_finite NegInf = False"
| "is_finite NaN = False"

fun f64_add :: "float64 \<Rightarrow> float64 \<Rightarrow> float64" where
  "f64_add (Fin a) (Fin b) = f64_of_rat (a + b)"
| "f64_add NaN y = NaN"
| "f64_add x NaN = NaN"
| "f64_add PosInf NegInf = NaN"
| "f64_add NegInf PosInf = NaN"
| "f64_add PosInf y = PosInf"
| "f64_add NegInf y = NegInf"
| "f64_add x PosInf = PosInf"
| "f64_add x NegInf = NegInf"

text \<open>Multiplication and division by a finite constant, the only factors in the program.\<close>

definition scale_inf :: "float64 \<Rightarrow> rat \<Rightarrow> float64" where
  "scale_inf x c =
     (if x = NaN \<or> c = 0 then NaN
      else if (x = PosInf) = (0 < c) then PosInf else NegInf)"

fun f64_mul_const :: "float64 \<Rightarrow> rat \<Rightarrow> float64" where
  "f64_mul_const (Fin a) c = f64_of_rat (a * c)"
| "f64_mul_const x c = scale_inf x c"

fun f64_div_const :: "float64 \<Rightarrow> rat \<Rightarrow> float64" where
  "f64_div_const (Fin a) c =
     (if c = 0 then (if a = 0 then NaN else if 0 < a then PosInf else NegInf)
      else f64_of_rat (a / c))"
| "f64_div_const x c = (if c = 0 then x else scale_inf x c)"

text \<open>\<open>math.Round\<close>: to the nearest integer, halves away from zero.\<close>

definition round_half_away :: "rat \<Rightarrow> int" where
  "round_half_away x = (if 0 \<le> x then \<lfloor>x + 1 / 2\<rfloor> else - \<lfloor>- x + 1 / 2\<rfloor>)"

fun math_Round :: "float64 \<Rightarrow> float64" where
  "math_Round (Fin a) = Fin (of_int (round_half_away a))"
| "math_Round x = x"

text \<open>\<open>math.Min\<close>: negative infinity first, then NaN, then the smaller value.\<close>

fun math_Min :: "float64 \<Rightarrow> float64 \<Rightarrow> float64" where
  "math_Min (Fin a) (Fin b) = Fin (min a b)"
| "math_Min NegInf y = NegInf"
| "math_Min x NegInf = NegInf"
| "math_Min NaN y = NaN"
| "math_Min x NaN = NaN"
| "math_Min PosInf y = y"
| "math_Min x PosInf = x"

text \<open>The order on the values a score can take; a NaN is not below anything.\<close>

fun f64_le :: "float64 \<Rightarrow> float64 \<Rightarrow> bool" where
  "f64_le (Fin a) (Fin b) = (a \<le> b)"
| "f64_le NaN y = False"
| "f64_le x NaN = False"
| "f64_le NegInf y = True"
| "f64_le x PosInf = True"
| "f64_le x y = False"

section \<open>The rounding is to nearest\<close>

lemma pow2_pos: "0 < pow2 e"
  by (simp add: pow2_def)

lemma rne_error: "\<bar>of_int (rne x) - x\<bar> \<le> 1 / 2"
  by (simp add: rne_def Let_def abs_if) linarith

lemma rne_of_int [simp]: "rne (of_int k) = k"
  by (simp add: rne_def Let_def)

lemma rne_nearest: "\<bar>of_int (rne x) - x\<bar> \<le> \<bar>of_int k - x\<bar>"
proof (cases "k = rne x")
  case False
  then have "1 \<le> \<bar>of_int k - (of_int (rne x) :: rat)\<bar>"
    by (simp add: of_int_diff [symmetric] del: of_int_diff)
  with rne_error [of x] show ?thesis by linarith
qed simp

text \<open>
  No multiple of the unit in the last place is closer to the exact result than the rounded value:
  among the binary64 numbers with the same exponent the result is a nearest one.
\<close>

lemma round64_nearest: "\<bar>round64 x - x\<bar> \<le> \<bar>of_int k * pow2 (ulp_exp x) - x\<bar>"
proof -
  let ?u = "pow2 (ulp_exp x)"
  have u: "0 < ?u" by (rule pow2_pos)
  have eq: "of_int m * ?u - x = (of_int m - x / ?u) * ?u" for m
    using u by (simp add: field_simps)
  have "\<bar>round64 x - x\<bar> = \<bar>of_int (rne (x / ?u)) - x / ?u\<bar> * ?u"
    using u by (simp add: round64_def eq abs_mult)
  also have "\<dots> \<le> \<bar>of_int k - x / ?u\<bar> * ?u"
    using u by (intro mult_right_mono rne_nearest) simp
  also have "\<dots> = \<bar>of_int k * ?u - x\<bar>"
    using u by (simp add: eq abs_mult)
  finally show ?thesis .
qed

text \<open>The absolute error of a rounding below one is at most \<open>2 ^ -54\<close>.\<close>

lemma pow2_mono: "d \<le> e \<Longrightarrow> pow2 d \<le> pow2 e"
proof -
  assume "d \<le> e"
  have "pow2 i = power_int 2 i" for i
    by (simp add: pow2_def power_int_def power_one_over inverse_eq_divide)
  with \<open>d \<le> e\<close> show ?thesis by (simp add: power_int_increasing)
qed

lemma round64_error: "\<bar>round64 x - x\<bar> \<le> pow2 (ulp_exp x) / 2"
proof -
  let ?u = "pow2 (ulp_exp x)"
  have u: "0 < ?u" by (rule pow2_pos)
  have eq: "of_int m * ?u - x = (of_int m - x / ?u) * ?u" for m
    using u by (simp add: field_simps)
  have "\<bar>round64 x - x\<bar> = \<bar>of_int (rne (x / ?u)) - x / ?u\<bar> * ?u"
    using u by (simp add: round64_def eq abs_mult)
  also have "\<dots> \<le> 1 / 2 * ?u"
    using u by (intro mult_right_mono rne_error) simp
  finally show ?thesis by simp
qed

lemma blen_le: "n < 2 ^ k \<Longrightarrow> blen n \<le> k"
proof (induction k arbitrary: n)
  case 0
  then show ?case by (simp add: blen.simps)
next
  case (Suc k)
  then have "blen (n div 2) \<le> k" by (intro Suc.IH) simp
  then show ?case by (subst blen.simps) simp
qed

lemma flog2_lt:
  assumes "0 < x" "x < 2 ^ k" "0 < k"
  shows "flog2 x < int k"
proof (cases "1 \<le> x")
  case True
  have "of_int \<lfloor>x\<rfloor> < (2 ^ k :: rat)" using assms(2) of_int_floor_le [of x] by linarith
  then have "\<lfloor>x\<rfloor> < 2 ^ k" by (metis of_int_less_iff of_int_numeral of_int_power)
  then have "nat \<lfloor>x\<rfloor> < 2 ^ k" by (simp add: nat_less_iff)
  with True show ?thesis using blen_le by (fastforce simp: flog2_def)
next
  case False
  with assms(3) show ?thesis by (simp add: flog2_def)
qed

text \<open>Below 64 the absolute error of a rounding is at most \<open>2 ^ -48\<close>, and nothing overflows.\<close>

lemma round64_error_64:
  assumes "0 < x" "x < 64"
  shows "\<bar>round64 x - x\<bar> \<le> 1 / 2 ^ 48"
proof -
  have "flog2 x < int 6" using assms by (intro flog2_lt) simp_all
  then have "pow2 (ulp_exp x) \<le> pow2 (- 47)"
    using assms by (intro pow2_mono) (simp add: ulp_exp_def)
  moreover have "pow2 (- 47) = 1 / 2 ^ 47" by (simp add: pow2_def)
  ultimately show ?thesis using round64_error [of x] by simp
qed

lemma f64_of_rat_64:
  assumes "0 < x" "x < 64"
  shows "f64_of_rat x = Fin (round64 x)"
proof -
  have "(1 / 2 ^ 48 :: rat) < 1" by simp
  then have "\<bar>round64 x\<bar> < 128"
    using round64_error_64 [OF assms] assms by linarith
  then have "\<bar>round64 x\<bar> < 2 ^ 7" by simp
  then have "round64 x = 0 \<or> flog2 \<bar>round64 x\<bar> < int 7"
    using flog2_lt [of "\<bar>round64 x\<bar>" 7] by auto
  then show ?thesis by (auto simp: f64_of_rat_def)
qed

section \<open>Error bounds\<close>

text \<open>\<open>near f v d\<close>: the float \<open>f\<close> is finite and within \<open>d\<close> of the exact value \<open>v\<close>.\<close>

definition near :: "float64 \<Rightarrow> rat \<Rightarrow> rat \<Rightarrow> bool" where
  "near f v d \<longleftrightarrow> (\<exists>r. f = Fin r \<and> \<bar>r - v\<bar> \<le> d)"

lemma near_round:
  assumes "0 < x" "x < 64" "\<bar>x - v\<bar> \<le> d"
  shows "near (f64_of_rat x) v (d + 1 / 2 ^ 48)"
proof -
  from round64_error_64 [OF assms(1,2)] assms(3) have "\<bar>round64 x - v\<bar> \<le> d + 1 / 2 ^ 48"
    by linarith
  then show ?thesis using f64_of_rat_64 [OF assms(1,2)] by (auto simp: near_def)
qed

lemma near_const: "0 < v \<Longrightarrow> v < 64 \<Longrightarrow> near (f64_of_rat v) v (1 / 2 ^ 48)"
  using near_round [of v v 0] by simp

lemma near_add:
  assumes "near f u d" "near g v e" "d + e < u + v" "u + v + d + e < 64"
  shows "near (f64_add f g) (u + v) (d + e + 1 / 2 ^ 48)"
proof -
  from assms obtain r s where [simp]: "f = Fin r" "g = Fin s"
    and "\<bar>r - u\<bar> \<le> d" "\<bar>s - v\<bar> \<le> e" by (auto simp: near_def)
  then have "\<bar>(r + s) - (u + v)\<bar> \<le> d + e" by linarith
  moreover from this assms have "0 < r + s" "r + s < 64" by linarith+
  ultimately show ?thesis using near_round by simp
qed

lemma near_mul_const:
  assumes "near f v d" "0 < c" "c * d < c * v" "c * v + c * d < 64"
  shows "near (f64_mul_const f c) (c * v) (c * d + 1 / 2 ^ 48)"
proof -
  from assms obtain r where [simp]: "f = Fin r" and r: "\<bar>r - v\<bar> \<le> d" by (auto simp: near_def)
  have "r * c - c * v = c * (r - v)" by (simp add: algebra_simps)
  then have "\<bar>r * c - c * v\<bar> = c * \<bar>r - v\<bar>"
    using assms(2) by (simp add: abs_mult)
  also have "\<dots> \<le> c * d" using r assms(2) by simp
  finally have "\<bar>r * c - c * v\<bar> \<le> c * d" .
  moreover from this assms have "0 < r * c" "r * c < 64" by linarith+
  ultimately show ?thesis using near_round by simp
qed

lemma near_Round:
  assumes "near f (of_nat n) d" "d < 1 / 2"
  shows "math_Round f = Fin (of_nat n)"
proof -
  from assms obtain r where [simp]: "f = Fin r" and r: "\<bar>r - of_nat n\<bar> < 1 / 2"
    by (auto simp: near_def)
  then have "0 \<le> r \<Longrightarrow> \<lfloor>r + 1 / 2\<rfloor> = int n" by (intro floor_unique) linarith+
  moreover from r have "\<not> 0 \<le> r \<Longrightarrow> n = 0 \<and> \<lfloor>- r + 1 / 2\<rfloor> = 0"
    by (auto intro!: floor_unique)
  ultimately show ?thesis by (auto simp: round_half_away_def)
qed

end
