(* ===== verification/Telemetry.thy ===== *)
theory Telemetry
  imports Float64
begin

text \<open>
  Package \<open>pkg/telemetry\<close> and the part of the Go runtime it and the services share: request
  contexts (values, gRPC metadata, deadline and cancellation), the world an operation runs in
  (clock, log output, the state of everything outside the process), the structured logger, the
  two gRPC interceptors and the connection warm-up loop.

  The world is passed explicitly. Its field \<open>env\<close> is the state of the systems the process
  talks to; its type is a parameter, so nothing is assumed about them here. The gRPC runtime
  (the \<open>handler\<close> and \<open>invoker\<close> an interceptor is given, and the connection a warm-up
  waits for) is an argument of the definitions that use it.
\<close>

section \<open>Contexts\<close>

datatype contextKey = correlationIDKey | tenantIDKey

type_synonym metadata = "(string \<times> string) list"

text \<open>
  A context keeps the values attached with \<open>context.WithValue\<close> (newest first), the metadata of
  the incoming call if there is one, the metadata appended for outgoing calls, its deadline, and
  the time at which its parent cancels it, if that ever happens. Times are nanoseconds.
\<close>

record gcontext =
  ctx_values :: "(contextKey \<times> string) list"
  incoming_md :: "metadata option"
  outgoing_md :: metadata
  deadline :: "int option"
  cancelled_at :: "int option"

definition Background :: gcontext where
  "Background = \<lparr>ctx_values = [], incoming_md = None, outgoing_md = [],
                 deadline = None, cancelled_at = None\<rparr>"

definition WithValue :: "gcontext \<Rightarrow> contextKey \<Rightarrow> string \<Rightarrow> gcontext" where
  "WithValue ctx k v = ctx\<lparr>ctx_values := (k, v) # ctx_values ctx\<rparr>"

definition ctx_Value :: "gcontext \<Rightarrow> contextKey \<Rightarrow> string option" where
  "ctx_Value ctx k = map_of (ctx_values ctx) k"

definition WithCorrelationID :: "gcontext \<Rightarrow> string \<Rightarrow> gcontext" where
  "WithCorrelationID ctx correlationID = WithValue ctx correlationIDKey correlationID"

text \<open>\<open>v, _ := ctx.Value(key).(string)\<close>: the zero string when the assertion fails.\<close>

definition CorrelationIDFrom :: "gcontext \<Rightarrow> string" where
  "CorrelationIDFrom ctx = (case ctx_Value ctx correlationIDKey of None \<Rightarrow> '''' | Some v \<Rightarrow> v)"

definition WithTenantID :: "gcontext \<Rightarrow> string \<Rightarrow> gcontext" where
  "WithTenantID ctx tenantID = WithValue ctx tenantIDKey tenantID"

definition TenantIDFrom :: "gcontext \<Rightarrow> string" where
  "TenantIDFrom ctx = (case ctx_Value ctx tenantIDKey of None \<Rightarrow> '''' | Some v \<Rightarrow> v)"

text \<open>\<open>context.WithTimeout\<close>: never later than the parent's own deadline.\<close>

definition WithTimeout :: "gcontext \<Rightarrow> int \<Rightarrow> duration \<Rightarrow> gcontext" where
  "WithTimeout ctx t d =
     (let dl = t + sint d in
      ctx\<lparr>deadline := Some (case deadline ctx of None \<Rightarrow> dl | Some p \<Rightarrow> min p dl)\<rparr>)"

text \<open>When a context is done, and what \<open>ctx.Err()\<close> reports then.\<close>

definition done_at :: "gcontext \<Rightarrow> int option" where
  "done_at ctx =
     (case (deadline ctx, cancelled_at ctx) of
        (None, None) \<Rightarrow> None
      | (Some d, None) \<Rightarrow> Some d
      | (None, Some c) \<Rightarrow> Some c
      | (Some d, Some c) \<Rightarrow> Some (min d c))"

definition ctx_Err :: "gcontext \<Rightarrow> gerror" where
  "ctx_Err ctx =
     (case (deadline ctx, cancelled_at ctx) of
        (Some d, None) \<Rightarrow> ContextDeadlineExceeded
      | (Some d, Some c) \<Rightarrow> (if d \<le> c then ContextDeadlineExceeded else ContextCanceled)
      | _ \<Rightarrow> ContextCanceled)"

section \<open>The world and the log\<close>

datatype log_level = Info | Warn | Error

datatype log_value =
    LStr string
  | LInt int
  | LErr gerror
  | LFloat float64
  | LTexts "fmt_text list"

type_synonym log_attrs = "(string \<times> log_value) list"

record log_entry =
  log_level :: log_level
  log_msg :: string
  log_attrs :: log_attrs

text \<open>
  \<open>sched t\<close> is the Go scheduler's choice when, at time \<open>t\<close>, a \<open>select\<close> has both a
  finished timer and a finished context to choose from.
\<close>

record 'e world =
  clock :: int
  logs :: "log_entry list"
  sched :: "int \<Rightarrow> bool"
  env :: 'e

text \<open>A \<open>*slog.Logger\<close> is the list of attributes attached with \<open>With\<close>.\<close>

type_synonym logger = log_attrs

definition NewLogger :: "string \<Rightarrow> logger" where
  "NewLogger serviceName = [(''service'', LStr serviceName)]"

definition log_With :: "logger \<Rightarrow> log_attrs \<Rightarrow> logger" where
  "log_With l as = l @ as"

definition log_at :: "log_level \<Rightarrow> logger \<Rightarrow> string \<Rightarrow> log_attrs \<Rightarrow> 'e world \<Rightarrow> 'e world" where
  "log_at lvl l msg as w =
     w\<lparr>logs := logs w @ [\<lparr>log_level = lvl, log_msg = msg, log_attrs = l @ as\<rparr>]\<rparr>"

definition FromContext :: "gcontext \<Rightarrow> logger option \<Rightarrow> logger" where
  "FromContext ctx l =
     (let l0 = (case l of None \<Rightarrow> [] | Some x \<Rightarrow> x);
          l1 = (if CorrelationIDFrom ctx \<noteq> ''''
                then log_With l0 [(''correlation_id'', LStr (CorrelationIDFrom ctx))] else l0);
          l2 = (if TenantIDFrom ctx \<noteq> ''''
                then log_With l1 [(''tenant_id'', LStr (TenantIDFrom ctx))] else l1)
      in l2)"

section \<open>Interceptors\<close>

text \<open>An operation with a \<open>(T, error)\<close> result.\<close>

type_synonym ('a, 'e) go_call = "'e world \<Rightarrow> ('a \<times> gerror option) \<times> 'e world"

definition metadataTenantID :: string where
  "metadataTenantID = ''x-tenant-id''"

definition metadataCorrelationID :: string where
  "metadataCorrelationID = ''x-correlation-id''"

text \<open>\<open>md.Get\<close>: all values of a key, in order.\<close>

definition md_Get :: "metadata \<Rightarrow> string \<Rightarrow> string list" where
  "md_Get md key = map snd (filter (\<lambda>kv. fst kv = key) md)"

definition firstValue :: "metadata \<Rightarrow> string \<Rightarrow> string" where
  "firstValue md key = (case md_Get md key of [] \<Rightarrow> '''' | v # _ \<Rightarrow> v)"

text \<open>\<open>Duration.Milliseconds\<close> truncates towards zero.\<close>

definition duration_ms :: "int \<Rightarrow> int" where
  "duration_ms d = (if 0 \<le> d then d div 1000000 else - ((- d) div 1000000))"

text \<open>The context a handler runs in: the identifiers of the incoming metadata, if any.\<close>

definition server_context :: "gcontext \<Rightarrow> gcontext" where
  "server_context ctx =
     (case incoming_md ctx of
        None \<Rightarrow> ctx
      | Some md \<Rightarrow>
          (let c1 = (let v = firstValue md metadataTenantID
                     in if v \<noteq> '''' then WithTenantID ctx v else ctx)
           in let v = firstValue md metadataCorrelationID
              in if v \<noteq> '''' then WithCorrelationID c1 v else c1))"

definition UnaryServerInterceptor ::
  "logger option \<Rightarrow> string \<Rightarrow> (gcontext \<Rightarrow> 'req \<Rightarrow> ('resp, 'e) go_call) \<Rightarrow> gcontext \<Rightarrow> 'req \<Rightarrow> ('resp, 'e) go_call"
where
  "UnaryServerInterceptor l fullMethod handler ctx0 req w =
     (let ctx = server_context ctx0;
          ((resp, err), w1) = handler ctx req w;
          lg = log_With (FromContext ctx l)
                 [(''method'', LStr fullMethod), (''duration_ms'', LInt (duration_ms (clock w1 - clock w)))];
          w2 = (case err of
                  Some e \<Rightarrow> log_at Error lg ''grpc request failed'' [(''error'', LErr e)] w1
                | None \<Rightarrow> log_at Info lg ''grpc request'' [] w1)
      in ((resp, err), w2))"

text \<open>The outgoing context of a client call: the identifiers the context carries are appended.\<close>

definition client_pairs :: "gcontext \<Rightarrow> metadata" where
  "client_pairs ctx =
     (if TenantIDFrom ctx \<noteq> '''' then [(metadataTenantID, TenantIDFrom ctx)] else []) @
     (if CorrelationIDFrom ctx \<noteq> '''' then [(metadataCorrelationID, CorrelationIDFrom ctx)] else [])"

definition client_context :: "gcontext \<Rightarrow> gcontext" where
  "client_context ctx =
     (if 0 < length (client_pairs ctx)
      then ctx\<lparr>outgoing_md := outgoing_md ctx @ client_pairs ctx\<rparr> else ctx)"

definition UnaryClientInterceptor ::
  "logger option \<Rightarrow> (gcontext \<Rightarrow> string \<Rightarrow> 'req \<Rightarrow> ('resp, 'e) go_call) \<Rightarrow>
     gcontext \<Rightarrow> string \<Rightarrow> 'req \<Rightarrow> ('resp, 'e) go_call"
where
  "UnaryClientInterceptor l invoker ctx0 method req w =
     (let ctx = client_context ctx0;
          ((reply, err), w1) = invoker ctx method req w;
          lg = log_With (FromContext ctx l)
                 [(''method'', LStr method), (''duration_ms'', LInt (duration_ms (clock w1 - clock w)))];
          w2 = (case err of
                  Some e \<Rightarrow> log_at Error lg ''grpc call failed'' [(''error'', LErr e)] w1
                | None \<Rightarrow> log_at Info lg ''grpc call'' [] w1)
      in ((reply, err), w2))"

section \<open>Warm-up\<close>

datatype conn_state = Idle | Connecting | Ready | TransientFailure | Shutdown

fun conn_state_String :: "conn_state \<Rightarrow> string" where
  "conn_state_String Idle = ''IDLE''"
| "conn_state_String Connecting = ''CONNECTING''"
| "conn_state_String Ready = ''READY''"
| "conn_state_String TransientFailure = ''TRANSIENT_FAILURE''"
| "conn_state_String Shutdown = ''SHUTDOWN''"

text \<open>
  The connection is a parameter: starting it, reading its state, waiting for it to leave a
  state until the context expires, and closing it. The loop may not end, so its result is an option.
\<close>

record 'e client_conn =
  conn_Connect :: "'e world \<Rightarrow> 'e world"
  conn_GetState :: "'e world \<Rightarrow> conn_state"
  conn_WaitForStateChange :: "gcontext \<Rightarrow> conn_state \<Rightarrow> 'e world \<Rightarrow> bool \<times> 'e world"
  conn_Close :: "'e world \<Rightarrow> gerror option \<times> 'e world"

partial_function (option) warm_up_loop ::
  "'e client_conn \<Rightarrow> logger \<Rightarrow> string \<Rightarrow> gcontext \<Rightarrow> 'e world \<Rightarrow> 'e world option"
where
  "warm_up_loop conn l target ctx w =
     (let state = conn_GetState conn w in
      if state = Ready then Some w
      else (case conn_WaitForStateChange conn ctx state w of
              (changed, w') \<Rightarrow>
                if changed then warm_up_loop conn l target ctx w'
                else Some (log_at Warn l ''connection not ready within warm-up timeout''
                       [(''target'', LStr target),
                        (''state'', LStr (conn_state_String (conn_GetState conn w')))] w')))"

definition WarmUp ::
  "'e client_conn \<Rightarrow> logger \<Rightarrow> string \<Rightarrow> duration \<Rightarrow> 'e world \<Rightarrow> 'e world option"
where
  "WarmUp conn l target timeout w0 =
     (let w = conn_Connect conn w0
      in warm_up_loop conn l target (WithTimeout Background (clock w) timeout) w)"

section \<open>Frame lemmas\<close>

lemma log_at_frame [simp, go_frame]:
  "clock (log_at lvl l msg as w) = clock w"
  "sched (log_at lvl l msg as w) = sched w"
  "env (log_at lvl l msg as w) = env w"
  by (simp_all add: log_at_def)

lemma log_at_logs [simp]:
  "logs (log_at lvl l msg as w) = logs w @ [\<lparr>log_level = lvl, log_msg = msg, log_attrs = l @ as\<rparr>]"
  by (simp add: log_at_def)

lemma WithTimeout_frame [simp, go_frame]:
  "ctx_values (WithTimeout ctx t d) = ctx_values ctx"
  "incoming_md (WithTimeout ctx t d) = incoming_md ctx"
  "outgoing_md (WithTimeout ctx t d) = outgoing_md ctx"
  "cancelled_at (WithTimeout ctx t d) = cancelled_at ctx"
  by (simp_all add: WithTimeout_def Let_def)

lemma WithTimeout_ids [simp]:
  "TenantIDFrom (WithTimeout ctx t d) = TenantIDFrom ctx"
  "CorrelationIDFrom (WithTimeout ctx t d) = CorrelationIDFrom ctx"
  by (simp_all add: TenantIDFrom_def CorrelationIDFrom_def ctx_Value_def)

lemma WithTimeout_deadline:
  "deadline (WithTimeout ctx t d) =
     Some (case deadline ctx of None \<Rightarrow> t + sint d | Some p \<Rightarrow> min p (t + sint d))"
  by (simp add: WithTimeout_def Let_def)

lemma WithTimeout_deadline_le:
  obtains dl where "deadline (WithTimeout ctx t d) = Some dl" "dl \<le> t + sint d"
  by (cases "deadline ctx") (auto simp: WithTimeout_deadline)

lemma ids_With [simp]:
  "CorrelationIDFrom (WithCorrelationID ctx v) = v"
  "TenantIDFrom (WithTenantID ctx v) = v"
  "CorrelationIDFrom (WithTenantID ctx v) = CorrelationIDFrom ctx"
  "TenantIDFrom (WithCorrelationID ctx v) = TenantIDFrom ctx"
  by (simp_all add: CorrelationIDFrom_def TenantIDFrom_def WithCorrelationID_def
      WithTenantID_def WithValue_def ctx_Value_def)

lemma With_frame [simp, go_frame]:
  "deadline (WithCorrelationID ctx v) = deadline ctx"
  "deadline (WithTenantID ctx v) = deadline ctx"
  "cancelled_at (WithCorrelationID ctx v) = cancelled_at ctx"
  "cancelled_at (WithTenantID ctx v) = cancelled_at ctx"
  "incoming_md (WithCorrelationID ctx v) = incoming_md ctx"
  "incoming_md (WithTenantID ctx v) = incoming_md ctx"
  "outgoing_md (WithCorrelationID ctx v) = outgoing_md ctx"
  "outgoing_md (WithTenantID ctx v) = outgoing_md ctx"
  by (simp_all add: WithCorrelationID_def WithTenantID_def WithValue_def)

section \<open>Properties\<close>

lemma md_Get_simps [simp]:
  "md_Get [] k = []"
  "md_Get ((k', v) # md) k = (if k' = k then v # md_Get md k else md_Get md k)"
  "md_Get (md1 @ md2) k = md_Get md1 k @ md_Get md2 k"
  by (simp_all add: md_Get_def)

lemma metadata_keys_distinct [simp]:
  "metadataTenantID \<noteq> metadataCorrelationID" "metadataCorrelationID \<noteq> metadataTenantID"
  by (simp_all add: metadataTenantID_def metadataCorrelationID_def)

lemma client_context_firstValue:
  assumes "md_Get (outgoing_md ctx) metadataTenantID = []" "md_Get (outgoing_md ctx) metadataCorrelationID = []"
  shows "firstValue (outgoing_md (client_context ctx)) metadataTenantID = TenantIDFrom ctx"
    and "firstValue (outgoing_md (client_context ctx)) metadataCorrelationID = CorrelationIDFrom ctx"
  using assms by (auto simp: client_context_def client_pairs_def firstValue_def)

text \<open>
  (C29) The identity of a request survives a hop: a server that receives the metadata the client
  interceptor sends recovers exactly the tenant and correlation ids of the caller's context, empty
  ones included, provided the caller had not already put values under the two keys.
\<close>

theorem interceptors_carry_identity:
  assumes "md_Get (outgoing_md ctx) metadataTenantID = []" "md_Get (outgoing_md ctx) metadataCorrelationID = []"
    and "incoming_md received = Some (outgoing_md (client_context ctx))" and "ctx_values received = []"
  shows "TenantIDFrom (server_context received) = TenantIDFrom ctx \<and>
         CorrelationIDFrom (server_context received) = CorrelationIDFrom ctx"
proof -
  have "TenantIDFrom received = ''''" "CorrelationIDFrom received = ''''"
    using assms(4) by (simp_all add: TenantIDFrom_def CorrelationIDFrom_def ctx_Value_def)
  then show ?thesis
    using client_context_firstValue [OF assms(1,2)] assms(3)
    by (auto simp: server_context_def Let_def)
qed

theorem interceptors_carry_identity_witness:
  "let ctx = WithTenantID (WithCorrelationID Background ''corr-1'') ''acme_insurance'';
       received = Background\<lparr>incoming_md := Some (outgoing_md (client_context ctx))\<rparr>
   in TenantIDFrom (server_context received) = ''acme_insurance'' \<and>
      CorrelationIDFrom (server_context received) = ''corr-1''"
proof -
  let ?ctx = "WithTenantID (WithCorrelationID Background ''corr-1'') ''acme_insurance''"
  have "outgoing_md ?ctx = []" by (simp add: Background_def)
  with interceptors_carry_identity [of ?ctx "Background\<lparr>incoming_md := Some (outgoing_md (client_context ?ctx))\<rparr>"]
  show ?thesis by (simp add: Let_def Background_def)
qed

lemma FromContext_attrs:
  "TenantIDFrom ctx \<noteq> '''' \<Longrightarrow> (''tenant_id'', LStr (TenantIDFrom ctx)) \<in> set (FromContext ctx l)"
  "CorrelationIDFrom ctx \<noteq> '''' \<Longrightarrow> (''correlation_id'', LStr (CorrelationIDFrom ctx)) \<in> set (FromContext ctx l)"
  by (simp_all add: FromContext_def Let_def log_With_def)

text \<open>
  The server interceptor is transparent: the caller gets exactly the handler's response and
  error, time and the outside world are as the handler left them, and exactly one log entry is
  added, at level \<open>Error\<close> precisely when the handler failed, tagged with the method and with the
  tenant and correlation ids that came in as metadata.
\<close>

theorem UnaryServerInterceptor_transparent:
  assumes "handler (server_context ctx) req w = ((resp, err), w1)"
  shows "\<exists>en w2. UnaryServerInterceptor l method handler ctx req w = ((resp, err), w2) \<and>
    clock w2 = clock w1 \<and> env w2 = env w1 \<and> logs w2 = logs w1 @ [en] \<and>
    (log_level en = Error \<longleftrightarrow> err \<noteq> None) \<and> (''method'', LStr method) \<in> set (log_attrs en) \<and>
    (\<forall>md. incoming_md ctx = Some md \<longrightarrow>
       (firstValue md metadataTenantID \<noteq> '''' \<longrightarrow>
          (''tenant_id'', LStr (firstValue md metadataTenantID)) \<in> set (log_attrs en)) \<and>
       (firstValue md metadataCorrelationID \<noteq> '''' \<longrightarrow>
          (''correlation_id'', LStr (firstValue md metadataCorrelationID)) \<in> set (log_attrs en)))"
proof -
  have ids: "(firstValue md metadataTenantID \<noteq> '''' \<longrightarrow> TenantIDFrom (server_context ctx) = firstValue md metadataTenantID) \<and>
      (firstValue md metadataCorrelationID \<noteq> '''' \<longrightarrow>
         CorrelationIDFrom (server_context ctx) = firstValue md metadataCorrelationID)"
    if "incoming_md ctx = Some md" for md
    using that by (auto simp: server_context_def Let_def)
  have attrs: "\<forall>md. incoming_md ctx = Some md \<longrightarrow>
       (firstValue md metadataTenantID \<noteq> '''' \<longrightarrow>
          (''tenant_id'', LStr (firstValue md metadataTenantID)) \<in> set (FromContext (server_context ctx) l)) \<and>
       (firstValue md metadataCorrelationID \<noteq> '''' \<longrightarrow>
          (''correlation_id'', LStr (firstValue md metadataCorrelationID)) \<in> set (FromContext (server_context ctx) l))"
    using ids FromContext_attrs [of "server_context ctx" l] by metis
  show ?thesis
    by (cases err) (use assms attrs in \<open>auto simp: UnaryServerInterceptor_def Let_def log_With_def\<close>)
qed

theorem UnaryServerInterceptor_transparent_witness:
  "let w = \<lparr>clock = 0, logs = [], sched = (\<lambda>t. False), env = ()\<rparr>;
       h = (\<lambda>ctx req w. ((Suc req, None), w\<lparr>clock := 3000000\<rparr>))
   in \<exists>en w2. UnaryServerInterceptor None ''/m'' h Background 6 w = ((7, None), w2) \<and>
        logs w2 = [en] \<and> log_level en \<noteq> Error"
proof -
  let ?w = "\<lparr>clock = 0, logs = [], sched = (\<lambda>t. False), env = ()\<rparr>"
  let ?h = "\<lambda>(ctx :: gcontext) req w. ((Suc req, None :: gerror option), w\<lparr>clock := 3000000\<rparr>)"
  have "?h (server_context Background) 6 ?w = ((7, None), ?w\<lparr>clock := 3000000\<rparr>)" by simp
  from UnaryServerInterceptor_transparent [where handler = ?h and ctx = Background, OF this, of None "''/m''"]
  show ?thesis by (auto simp: Let_def)
qed

text \<open>
  The contract of \<open>ClientConn.WaitForStateChange\<close>: it returns true when the state changes, at a
  later instant no later than the context's deadline, and false when the context has expired.
\<close>

definition waits_until_deadline :: "'e client_conn \<Rightarrow> bool" where
  "waits_until_deadline conn \<longleftrightarrow>
     (\<forall>ctx st w changed w' d. conn_WaitForStateChange conn ctx st w = (changed, w') \<longrightarrow> deadline ctx = Some d \<longrightarrow>
        (if changed then clock w < clock w' \<and> clock w' \<le> d else clock w' \<le> max (clock w) d))"

text \<open>How a warm-up ends: connected, or with the warning.\<close>

definition warmed_up :: "'e client_conn \<Rightarrow> logger \<Rightarrow> string \<Rightarrow> 'e world \<Rightarrow> bool" where
  "warmed_up conn l target w' \<longleftrightarrow>
     conn_GetState conn w' = Ready \<or>
     (\<exists>w1. w' = log_at Warn l ''connection not ready within warm-up timeout''
        [(''target'', LStr target), (''state'', LStr (conn_state_String (conn_GetState conn w1)))] w1)"

lemma warm_up_loop_returns:
  assumes wait: "waits_until_deadline conn" and d: "deadline ctx = Some d"
  shows "\<exists>w'. warm_up_loop conn l target ctx w = Some w' \<and> clock w' \<le> max (clock w) d \<and>
    warmed_up conn l target w'"
proof (induction "nat (d - clock w)" arbitrary: w rule: less_induct)
  case less
  obtain ch w1 where wt: "conn_WaitForStateChange conn ctx (conn_GetState conn w) w = (ch, w1)" by fastforce
  with wait d have cl: "if ch then clock w < clock w1 \<and> clock w1 \<le> d else clock w1 \<le> max (clock w) d"
    unfolding waits_until_deadline_def by blast
  consider "conn_GetState conn w = Ready" | "conn_GetState conn w \<noteq> Ready" ch | "conn_GetState conn w \<noteq> Ready" "\<not> ch"
    by blast
  then show ?case
  proof cases
    case 1
    then show ?thesis by (simp add: warm_up_loop.simps [of _ _ _ _ w] warmed_up_def)
  next
    case 2
    with cl have "nat (d - clock w1) < nat (d - clock w)" "clock w \<le> clock w1" by simp_all
    from less [OF this(1)] this(2) 2 wt cl show ?thesis
      by (fastforce simp: warm_up_loop.simps [of _ _ _ _ w])
  next
    case 3
    with wt cl show ?thesis
      by (auto simp: warm_up_loop.simps [of _ _ _ _ w] warmed_up_def)
  qed
qed

text \<open>
  (C40) \<open>WarmUp\<close> returns, no later than its timeout after the connection attempt was started, and
  it returns either connected or having logged the warning with the connection's state. The
  connection is assumed to wait as documented: until its state changes or the context expires.
\<close>

theorem WarmUp_returns:
  assumes "waits_until_deadline conn" and "0 \<le> sint timeout"
  shows "\<exists>w'. WarmUp conn l target timeout w = Some w' \<and>
    clock w' \<le> clock (conn_Connect conn w) + sint timeout \<and> warmed_up conn l target w'"
proof -
  have "deadline (WithTimeout Background (clock (conn_Connect conn w)) timeout) =
      Some (clock (conn_Connect conn w) + sint timeout)"
    by (simp add: WithTimeout_deadline Background_def)
  from warm_up_loop_returns [OF assms(1) this, of l target "conn_Connect conn w"] assms(2)
  show ?thesis by (simp add: WarmUp_def Let_def)
qed

text \<open>A connection that needs three state changes, 1 ms apart; \<open>env\<close> counts them.\<close>

definition slow_conn :: "nat client_conn" where
  "slow_conn = \<lparr>conn_Connect = (\<lambda>w. w),
     conn_GetState = (\<lambda>w. if env w < 3 then Connecting else Ready),
     conn_WaitForStateChange = (\<lambda>ctx st w.
       case deadline ctx of
         Some d \<Rightarrow> if clock w + 1000000 \<le> d then (True, w\<lparr>clock := clock w + 1000000, env := Suc (env w)\<rparr>)
                   else (False, w\<lparr>clock := max (clock w) d\<rparr>)
       | None \<Rightarrow> (False, w)),
     conn_Close = (\<lambda>w. (None, w))\<rparr>"

theorem WarmUp_returns_witness:
  "\<exists>w'. WarmUp slow_conn [] ''model-service:50055'' (2 * Second)
      \<lparr>clock = 0, logs = [], sched = (\<lambda>t. False), env = 0\<rparr> = Some w' \<and> clock w' \<le> 2000000000"
proof -
  let ?w = "\<lparr>clock = 0, logs = [], sched = (\<lambda>t. False), env = 0\<rparr>"
  have "waits_until_deadline slow_conn"
    by (auto simp: waits_until_deadline_def slow_conn_def split: option.splits if_splits)
  moreover have s: "sint (2 * Second) = 2000000000" by (simp add: Second_def Millisecond_def)
  ultimately show ?thesis
    using WarmUp_returns [of slow_conn "2 * Second" "[]" "''model-service:50055''" ?w]
    by (auto simp: slow_conn_def)
qed

end
