(* ===== verification/GoPath.thy ===== *)
theory GoPath
  imports Prelude
begin

text \<open>
  \<open>path/filepath\<close> on a Unix system, as far as the DAG loader uses it: \<open>filepath.Join\<close> with the
  lexical cleaning it performs. Paths are byte strings.
\<close>

definition slash :: char where
  "slash = CHR ''/''"

fun split_slash :: "string \<Rightarrow> string list" where
  "split_slash [] = [[]]"
| "split_slash (c # cs) =
     (if c = slash then [] # split_slash cs
      else (case split_slash cs of [] \<Rightarrow> [[c]] | s # ss \<Rightarrow> (c # s) # ss))"

fun join_slash :: "string list \<Rightarrow> string" where
  "join_slash [] = ''''"
| "join_slash [s] = s"
| "join_slash (s # t # ss) = s @ slash # join_slash (t # ss)"

text \<open>One path element against the elements kept so far (last one first).\<close>

definition clean_step :: "bool \<Rightarrow> string list \<Rightarrow> string \<Rightarrow> string list" where
  "clean_step rooted kept c =
     (if c = '''' \<or> c = ''.'' then kept
      else if c = ''..'' then
        (case kept of
           [] \<Rightarrow> (if rooted then [] else [''..''])
         | x # xs \<Rightarrow> (if x = ''..'' then ''..'' # kept else xs))
      else c # kept)"

definition clean_elems :: "bool \<Rightarrow> string \<Rightarrow> string list" where
  "clean_elems rooted path = foldl (clean_step rooted) [] (split_slash path)"

definition path_Clean :: "string \<Rightarrow> string" where
  "path_Clean path =
     (if path = '''' then ''.''
      else let rooted = (hd path = slash);
               body = join_slash (rev (clean_elems rooted path))
           in if rooted then slash # body else if body = '''' then ''.'' else body)"

definition path_Join :: "string list \<Rightarrow> string" where
  "path_Join elem =
     (case dropWhile (\<lambda>e. e = '''') elem of
        [] \<Rightarrow> ''''
      | es \<Rightarrow> path_Clean (join_slash es))"

section \<open>Splitting and joining\<close>

lemma split_slash_nonempty [simp]: "split_slash s \<noteq> []"
  by (induction s) (auto split: list.splits)

lemma split_slash_append:
  "split_slash (s @ slash # t) = split_slash s @ split_slash t"
  by (induction s) (auto simp: Cons_eq_append_conv split: list.splits)

lemma split_slash_seg: "slash \<notin> set s \<Longrightarrow> split_slash s = [s]"
  by (induction s) auto

lemma split_slash_no_slash: "x \<in> set (split_slash s) \<Longrightarrow> slash \<notin> set x"
  by (induction s arbitrary: x) (auto split: list.splits if_splits)

lemma join_slash_append:
  "xs \<noteq> [] \<Longrightarrow> ys \<noteq> [] \<Longrightarrow> join_slash (xs @ ys) = join_slash xs @ slash # join_slash ys"
  by (induction xs rule: join_slash.induct) (auto simp: neq_Nil_conv)

lemma split_join:
  "xs \<noteq> [] \<Longrightarrow> \<forall>x \<in> set xs. slash \<notin> set x \<Longrightarrow> split_slash (join_slash xs) = xs"
  by (induction xs rule: join_slash.induct) (auto simp: split_slash_seg split_slash_append)

lemma join_split: "join_slash (split_slash s) = s"
proof (induction s)
  case (Cons c s)
  then show ?case by (cases "split_slash s"; cases "tl (split_slash s)") auto
qed simp

lemma join_slash_inject:
  assumes "xs \<noteq> []" "ys \<noteq> []" "\<forall>x \<in> set xs. slash \<notin> set x" "\<forall>y \<in> set ys. slash \<notin> set y"
    and "join_slash xs = join_slash ys"
  shows "xs = ys"
  using assms split_join by metis

section \<open>Cleaning\<close>

text \<open>An element that names exactly one directory entry.\<close>

definition safe_elem :: "string \<Rightarrow> bool" where
  "safe_elem s \<longleftrightarrow> s \<noteq> '''' \<and> s \<noteq> ''.'' \<and> s \<noteq> ''..'' \<and> slash \<notin> set s"

lemma clean_step_safe [simp]: "safe_elem c \<Longrightarrow> clean_step r kept c = c # kept"
  by (simp add: clean_step_def safe_elem_def)

lemma clean_step_dotdot_safe [simp]: "safe_elem c \<Longrightarrow> clean_step r (c # kept) ''..'' = kept"
  by (simp add: clean_step_def safe_elem_def)

lemma clean_elems_append:
  "clean_elems r (p @ slash # q) = foldl (clean_step r) (clean_elems r p) (split_slash q)"
  by (simp add: clean_elems_def split_slash_append)

lemma clean_step_elems:
  "\<forall>x \<in> set kept. slash \<notin> set x \<Longrightarrow> slash \<notin> set c \<Longrightarrow> x \<in> set (clean_step r kept c) \<Longrightarrow> slash \<notin> set x"
  by (auto simp: clean_step_def slash_def split: list.splits if_splits)

lemma foldl_clean_elems:
  assumes "\<forall>x \<in> set kept. slash \<notin> set x" and "\<forall>c \<in> set cs. slash \<notin> set c"
  shows "\<forall>x \<in> set (foldl (clean_step r) kept cs). slash \<notin> set x"
  using assms by (induction cs arbitrary: kept) (simp, metis clean_step_elems foldl_Cons list.set_intros)

lemma clean_elems_no_slash: "x \<in> set (clean_elems r p) \<Longrightarrow> slash \<notin> set x"
  using foldl_clean_elems [of "[]" "split_slash p" r] split_slash_no_slash
  by (auto simp: clean_elems_def)

end
