(* ===== verification/DagConfig.thy ===== *)
theory DagConfig
  imports Telemetry GoPath
begin

text \<open>
  The DAG configuration of the Orchestration Service: \<open>internal/dag/config.go\<close> (the structures
  parsed from YAML and the two policies on a node) and \<open>internal/dag/loader.go\<close> (which file a
  claim's DAG comes from). The tenant-config client, the file system and the YAML library are
  parameters of \<open>Loader_Load\<close>; the file system is read in the state the world is in after the
  version lookup, since the loader reads the file again on every call.
\<close>

section \<open>Configuration\<close>

record node =
  n_ID :: string
  n_Service :: string
  n_Group :: string
  n_TimeoutMs :: i32
  n_MaxRetries :: i32
  n_OnFailure :: string
  n_DependsOn :: "string list"
  n_EnabledFor :: "string list"

record config =
  c_TenantID :: string
  c_Product :: string
  c_EventType :: string
  c_Version :: i32
  c_TimeoutMs :: i32
  c_Nodes :: "node list"

definition OnFailureFailFast :: string where
  "OnFailureFailFast = ''fail_fast''"

definition OnFailureSkip :: string where
  "OnFailureSkip = ''skip''"

definition OnFailureDegrade :: string where
  "OnFailureDegrade = ''degrade''"

definition EffectiveOnFailure :: "node \<Rightarrow> string" where
  "EffectiveOnFailure n = (if n_OnFailure n = '''' then OnFailureFailFast else n_OnFailure n)"

fun tenant_listed :: "string list \<Rightarrow> string \<Rightarrow> bool" where
  "tenant_listed [] tenantID = False"
| "tenant_listed (t # ts) tenantID = (if t = tenantID then True else tenant_listed ts tenantID)"

definition EnabledForTenant :: "node \<Rightarrow> string \<Rightarrow> bool" where
  "EnabledForTenant n tenantID =
     (if length (n_EnabledFor n) = 0 then True else tenant_listed (n_EnabledFor n) tenantID)"

lemma tenant_listed_iff [simp]: "tenant_listed ts t \<longleftrightarrow> t \<in> set ts"
  by (induction ts) auto

lemma EnabledForTenant_iff:
  "EnabledForTenant n t \<longleftrightarrow> n_EnabledFor n = [] \<or> t \<in> set (n_EnabledFor n)"
  by (simp add: EnabledForTenant_def)

section \<open>Loader\<close>

definition dag_path :: "string \<Rightarrow> string \<Rightarrow> string \<Rightarrow> string \<Rightarrow> string" where
  "dag_path configDir tenantID product eventType =
     path_Join [configDir, tenantID, product, eventType @ ''.yaml'']"

type_synonym 'e DagVersionResolver = "gcontext \<Rightarrow> string \<Rightarrow> string \<Rightarrow> (i32, 'e) go_call"

record 'e loader =
  l_TenantConfig :: "'e DagVersionResolver"
  l_ConfigDir :: string
  l_Logger :: "logger option"

definition Loader_Load ::
  "('e \<Rightarrow> string \<Rightarrow> gerror + string) \<Rightarrow> (string \<Rightarrow> gerror + config) \<Rightarrow> 'e loader \<Rightarrow>
     gcontext \<Rightarrow> string \<Rightarrow> string \<Rightarrow> string \<Rightarrow> (config option, 'e) go_call"
where
  "Loader_Load ReadFile Unmarshal l ctx tenantID product eventType w =
     (case l_TenantConfig l ctx tenantID product w of
        ((wantVersion, Some err), w1) \<Rightarrow>
          ((None, Some (WrapError [Lit ''resolve dag version''] err)), w1)
      | ((wantVersion, None), w1) \<Rightarrow>
          (let path = dag_path (l_ConfigDir l) tenantID product eventType in
           case ReadFile (env w1) path of
             Inl err \<Rightarrow> ((None, Some (WrapError [Lit (''read dag config '' @ path)] err)), w1)
           | Inr data \<Rightarrow>
               (case Unmarshal data of
                  Inl err \<Rightarrow> ((None, Some (WrapError [Lit (''parse dag config '' @ path)] err)), w1)
                | Inr cfg \<Rightarrow>
                    (let w2 = (if c_Version cfg \<noteq> wantVersion
                               then log_at Warn (FromContext ctx (l_Logger l))
                                      ''dag config file version mismatch''
                                      [(''path'', LStr path),
                                       (''file_version'', LInt (sint (c_Version cfg))),
                                       (''tenant_config_version'', LInt (sint wantVersion))] w1
                               else w1)
                     in ((Some cfg, None), w2)))))"

section \<open>Which file a key names\<close>

lemma dag_path_Clean:
  "configDir \<noteq> '''' \<Longrightarrow>
   dag_path configDir t p e =
     path_Clean (configDir @ slash # t @ slash # p @ slash # e @ ''.yaml'')"
  by (simp add: dag_path_def path_Join_def)

lemma dag_path_elems:
  assumes "configDir \<noteq> ''''"
  shows "dag_path configDir t p e =
    (let r = (hd configDir = slash);
         body = join_slash (rev (foldl (clean_step r) (clean_elems r configDir)
                  (split_slash t @ split_slash p @ split_slash (e @ ''.yaml''))))
     in if r then slash # body else if body = '''' then ''.'' else body)"
  using assms
  by (simp add: dag_path_Clean path_Clean_def clean_elems_append split_slash_append Let_def)

lemma yaml_elem: "slash \<notin> set e \<Longrightarrow> safe_elem (e @ ''.yaml'')"
  by (cases e) (auto simp: safe_elem_def slash_def append_eq_Cons_conv)

lemma join_slash_snoc_nonempty: "x \<noteq> '''' \<Longrightarrow> join_slash (xs @ [x]) \<noteq> ''''"
  by (cases "xs = []") (simp_all add: join_slash_append)

text \<open>The directory part of the configuration path and the elements below it.\<close>

lemma dag_path_safe:
  assumes "configDir \<noteq> ''''" "safe_elem t" "safe_elem p" "slash \<notin> set e"
  shows "dag_path configDir t p e =
    (if hd configDir = slash then [slash] else []) @
      join_slash (rev (clean_elems (hd configDir = slash) configDir) @ [t, p, e @ ''.yaml''])"
proof -
  have [simp]: "split_slash t = [t]" "split_slash p = [p]"
    "split_slash (e @ ''.yaml'') = [e @ ''.yaml'']"
    using assms yaml_elem [of e] by (simp_all add: split_slash_seg safe_elem_def)
  have "join_slash (rev (clean_elems r configDir) @ [t, p, e @ ''.yaml'']) \<noteq> ''''" for r
    using join_slash_snoc_nonempty [of "e @ ''.yaml''" "rev (clean_elems r configDir) @ [t, p]"]
    by simp
  with assms yaml_elem [of e] show ?thesis
    by (simp add: dag_path_elems Let_def)
qed

lemma dag_path_inject:
  assumes dir: "configDir \<noteq> ''''"
    and safe: "safe_elem t" "safe_elem p" "slash \<notin> set e"
      "safe_elem t'" "safe_elem p'" "slash \<notin> set e'"
    and eq: "dag_path configDir t p e = dag_path configDir t' p' e'"
  shows "t = t' \<and> p = p' \<and> e = e'"
proof -
  let ?base = "rev (clean_elems (hd configDir = slash) configDir)"
  have "join_slash (?base @ [t, p, e @ ''.yaml'']) = join_slash (?base @ [t', p', e' @ ''.yaml''])"
    using eq dag_path_safe [OF dir] safe by simp
  then have "?base @ [t, p, e @ ''.yaml''] = ?base @ [t', p', e' @ ''.yaml'']"
    using safe yaml_elem
    by (intro join_slash_inject) (auto simp: safe_elem_def clean_elems_no_slash)
  then show ?thesis by simp
qed

text \<open>An event type that climbs out of its product directory reaches any other tenant's file.\<close>

lemma dag_path_climb:
  assumes dir: "configDir \<noteq> ''''"
    and safe: "safe_elem t" "safe_elem p" "safe_elem t'" "safe_elem p'" "slash \<notin> set e'"
  shows "dag_path configDir t p (''../../'' @ t' @ slash # p' @ slash # e') =
         dag_path configDir t' p' e'"
proof -
  have seg: "split_slash x = [x]" if "x \<in> {t, p, t', p', e' @ ''.yaml''}" for x
    using safe yaml_elem that by (auto simp: split_slash_seg safe_elem_def)
  have up: "(''../../'' @ u) @ v = ''..'' @ slash # ''..'' @ slash # u @ v" for u v
    by (simp add: slash_def)
  have "split_slash ((''../../'' @ t' @ slash # p' @ slash # e') @ ''.yaml'') =
      [''..'', ''..'', t', p', e' @ ''.yaml'']"
    unfolding up by (simp add: split_slash_append seg split_slash_seg slash_def [symmetric])
      (simp add: split_slash_seg slash_def)
  then show ?thesis
    using safe by (simp add: dag_path_elems [OF dir] seg Let_def)
qed

section \<open>Properties\<close>

text \<open>
  A load succeeds exactly when the tenant has a DAG version for the product, the file at
  the path of the key can be read, and it parses; the parsed configuration is returned even if
  its version differs from the tenant's, in which case one warning with both versions is logged.
\<close>

theorem Loader_Load_success_iff:
  "Loader_Load ReadFile Unmarshal l ctx t p e w = ((Some cfg, None), w') \<longleftrightarrow>
   (\<exists>v w1 data. l_TenantConfig l ctx t p w = ((v, None), w1) \<and>
      ReadFile (env w1) (dag_path (l_ConfigDir l) t p e) = Inr data \<and> Unmarshal data = Inr cfg \<and>
      w' = (if c_Version cfg = v then w1
            else log_at Warn (FromContext ctx (l_Logger l)) ''dag config file version mismatch''
                   [(''path'', LStr (dag_path (l_ConfigDir l) t p e)),
                    (''file_version'', LInt (sint (c_Version cfg))),
                    (''tenant_config_version'', LInt (sint v))] w1))"
  by (cases "l_TenantConfig l ctx t p w")
    (auto simp: Loader_Load_def Let_def split: option.splits sum.splits)

text \<open>
  A failed load returns no configuration, and its error wraps the error of the step that
  failed: the version lookup, the file or the parser, in this order; nothing is logged by the loader.
\<close>

theorem Loader_Load_failure:
  assumes "Loader_Load ReadFile Unmarshal l ctx t p e w = ((c, Some err), w')"
  shows "c = None \<and> (\<exists>v er w1. l_TenantConfig l ctx t p w = ((v, er), w1) \<and> w' = w1 \<and>
    (case er of
       Some e0 \<Rightarrow> err = WrapError [Lit ''resolve dag version''] e0
     | None \<Rightarrow>
         (case ReadFile (env w1) (dag_path (l_ConfigDir l) t p e) of
            Inl e0 \<Rightarrow> err = WrapError [Lit (''read dag config '' @ dag_path (l_ConfigDir l) t p e)] e0
          | Inr data \<Rightarrow> (\<exists>e0. Unmarshal data = Inl e0 \<and>
              err = WrapError [Lit (''parse dag config '' @ dag_path (l_ConfigDir l) t p e)] e0))))"
proof -
  obtain v er w1 where tc: "l_TenantConfig l ctx t p w = ((v, er), w1)" by (metis prod.exhaust)
  with assms show ?thesis
    by (intro conjI exI [of _ v] exI [of _ er] exI [of _ w1])
      (auto simp: Loader_Load_def Let_def split: option.splits sum.splits)
qed

definition demo_loader :: "unit loader" where
  "demo_loader = \<lparr>l_TenantConfig = (\<lambda>c t p w. ((4, None), w)), l_ConfigDir = ''/config/dag'', l_Logger = None\<rparr>"

definition demo_world :: "unit world" where
  "demo_world = \<lparr>clock = 0, logs = [], sched = (\<lambda>t. False), env = ()\<rparr>"

text \<open>A file system with one file.\<close>

definition one_file :: "string \<Rightarrow> string \<Rightarrow> unit \<Rightarrow> string \<Rightarrow> gerror + string" where
  "one_file path data u p = (if p = path then Inr data else Inl (ErrorString [Lit ''no such file or directory'']))"

theorem Loader_Load_failure_witness:
  "\<exists>e0 w'. Loader_Load (one_file ''/elsewhere'' ''x'') (\<lambda>d. Inl (ErrorString [Lit ''bad yaml''])) demo_loader Background
     ''acme_insurance'' ''auto'' ''claim.fnol'' demo_world =
       ((None, Some (WrapError [Lit ''read dag config /config/dag/acme_insurance/auto/claim.fnol.yaml''] e0)), w')"
proof -
  let ?um = "\<lambda>d. Inl (ErrorString [Lit ''bad yaml''])"
  have path: "dag_path ''/config/dag'' ''acme_insurance'' ''auto'' ''claim.fnol'' =
      ''/config/dag/acme_insurance/auto/claim.fnol.yaml''"
    by code_simp
  obtain c err w' where r: "Loader_Load (one_file ''/elsewhere'' ''x'') ?um demo_loader Background
      ''acme_insurance'' ''auto'' ''claim.fnol'' demo_world = ((c, Some err), w')"
    by (simp add: Loader_Load_def demo_loader_def one_file_def path)
  from Loader_Load_failure [OF r] r show ?thesis
    by (auto simp: demo_loader_def one_file_def path)
qed

text \<open>
  (C34) For keys whose tenant and product are proper path elements and whose event type has no
  slash, no two keys share a configuration file.
\<close>

theorem dag_path_isolated:
  assumes "configDir \<noteq> ''''" and "safe_elem t" "safe_elem p" "slash \<notin> set e"
    and "safe_elem t'" "safe_elem p'" "slash \<notin> set e'"
  shows "dag_path configDir t p e = dag_path configDir t' p' e' \<longleftrightarrow> t = t' \<and> p = p' \<and> e = e'"
  using dag_path_inject [OF assms] by blast

theorem dag_path_isolated_witness:
  "dag_path ''/config/dag'' ''acme_insurance'' ''auto'' ''claim.fnol'' \<noteq>
   dag_path ''/config/dag'' ''beta_mutual'' ''auto'' ''claim.fnol''"
  by (subst dag_path_isolated) (simp_all add: safe_elem_def slash_def)

text \<open>
  (C35) The event type is not confined to its tenant: since \<open>filepath.Join\<close> resolves \<open>..\<close>, a
  claim of tenant \<open>t\<close> with the event type \<open>../../t'/p'/e'\<close> is loaded with the DAG of tenant
  \<open>t'\<close>, and nothing compares the tenant the file names with the one asked for.
\<close>

theorem Loader_Load_other_tenant:
  assumes "l_ConfigDir l \<noteq> ''''" and "safe_elem t" "safe_elem p" "safe_elem t'" "safe_elem p'" "slash \<notin> set e'"
    and "l_TenantConfig l ctx t p w = ((v, None), w1)"
    and "ReadFile (env w1) (dag_path (l_ConfigDir l) t' p' e') = Inr data" and "Unmarshal data = Inr cfg"
  shows "fst (Loader_Load ReadFile Unmarshal l ctx t p (''../../'' @ t' @ slash # p' @ slash # e') w) = (Some cfg, None)"
proof -
  have "dag_path (l_ConfigDir l) t p (''../../'' @ t' @ slash # p' @ slash # e') = dag_path (l_ConfigDir l) t' p' e'"
    using assms(1-6) by (rule dag_path_climb)
  with assms(7-9) show ?thesis by (simp add: Loader_Load_def Let_def del: append.simps)
qed

definition beta_config :: config where
  "beta_config = \<lparr>c_TenantID = ''beta_mutual'', c_Product = ''home'', c_EventType = ''claim.fnol'',
     c_Version = 1, c_TimeoutMs = 0, c_Nodes = []\<rparr>"

theorem Loader_Load_other_tenant_witness:
  "c_TenantID beta_config \<noteq> ''acme_insurance'' \<and>
   fst (Loader_Load (one_file ''/config/dag/beta_mutual/home/claim.fnol.yaml'' ''beta'') (\<lambda>d. Inr beta_config) demo_loader
     Background ''acme_insurance'' ''auto'' ''../../beta_mutual/home/claim.fnol'' demo_world) = (Some beta_config, None)"
proof -
  have path: "dag_path ''/config/dag'' ''beta_mutual'' ''home'' ''claim.fnol'' = ''/config/dag/beta_mutual/home/claim.fnol.yaml''"
    by code_simp
  have "fst (Loader_Load (one_file ''/config/dag/beta_mutual/home/claim.fnol.yaml'' ''beta'') (\<lambda>d. Inr beta_config) demo_loader
     Background ''acme_insurance'' ''auto'' (''../../'' @ ''beta_mutual'' @ slash # ''home'' @ slash # ''claim.fnol'') demo_world) =
     (Some beta_config, None)"
    by (rule Loader_Load_other_tenant [where data = "''beta''" and v = 4 and ?w1.0 = demo_world])
      (simp_all add: demo_loader_def one_file_def path safe_elem_def slash_def)
  then show ?thesis by (simp add: beta_config_def slash_def)
qed

end
