(* ===== verification/Resilience.thy ===== *)
theory Resilience
  imports DagConfig
begin

text \<open>
  The helpers of \<open>internal/dag/executor.go\<close> below \<open>Run\<close>: the resolution of a node's timeout,
  the retry loop \<open>callWithResilience\<close> with its per-attempt deadline and its back-off, the
  dependency test and the failure policy. A downstream call is a parameter \<open>fn\<close>; it receives
  the attempt's context and transforms the world.
\<close>

section \<open>Timeouts, dependencies, failure policy\<close>

definition defaultNodeTimeout :: duration where
  "defaultNodeTimeout = 500 * Millisecond"

definition retryBackoff :: duration where
  "retryBackoff = 20 * Millisecond"

definition nodeTimeout :: "config \<Rightarrow> node \<Rightarrow> duration" where
  "nodeTimeout cfg node =
     (if 0 < sint (n_TimeoutMs node) then duration_of_i32 (n_TimeoutMs node) * Millisecond
      else if 0 < sint (c_TimeoutMs cfg) then duration_of_i32 (c_TimeoutMs cfg) * Millisecond
      else defaultNodeTimeout)"

fun depends_scan :: "string list \<Rightarrow> string \<Rightarrow> bool" where
  "depends_scan [] name = False"
| "depends_scan (d # ds) name = (if d = name then True else depends_scan ds name)"

definition dependsOn :: "node \<Rightarrow> string \<Rightarrow> bool" where
  "dependsOn node name = depends_scan (n_DependsOn node) name"

definition nodeFailureHandled :: "logger \<Rightarrow> node \<Rightarrow> gerror \<Rightarrow> 'e world \<Rightarrow> bool \<times> 'e world" where
  "nodeFailureHandled l node err w =
     (let policy = EffectiveOnFailure node;
          as = [(''node'', LStr (n_ID node)), (''on_failure'', LStr policy), (''error'', LErr err)]
      in if policy = OnFailureSkip \<or> policy = OnFailureDegrade
         then (True, log_at Warn l ''dag node failed, continuing'' as w)
         else (False, log_at Error l ''dag node failed'' as w))"

section \<open>The retry loop\<close>

text \<open>
  \<open>select { case <-time.After(retryBackoff): case <-ctx.Done(): return zero, ctx.Err() }\<close>:
  the result is the context's error when the second case is taken. A context that is done before
  the timer fires wins, one that is done later loses, and at the same instant the scheduler picks.
\<close>

definition select_backoff :: "gcontext \<Rightarrow> 'e world \<Rightarrow> gerror option \<times> 'e world" where
  "select_backoff ctx w =
     (let t = clock w + sint retryBackoff in
      case done_at ctx of
        None \<Rightarrow> (None, w\<lparr>clock := t\<rparr>)
      | Some d \<Rightarrow>
          if d < t \<or> d = t \<and> sched w t
          then (Some (ctx_Err ctx), w\<lparr>clock := max (clock w) d\<rparr>)
          else (None, w\<lparr>clock := t\<rparr>))"

function retry_from ::
  "'a \<Rightarrow> gcontext \<Rightarrow> duration \<Rightarrow> (gcontext \<Rightarrow> ('a, 'e) go_call) \<Rightarrow> int \<Rightarrow> int \<Rightarrow> gerror option \<Rightarrow>
     ('a, 'e) go_call"
where
  "retry_from zero ctx timeout fn maxRetries attempt lastErr w =
     (if attempt \<le> maxRetries then
        (case fn (WithTimeout ctx (clock w) timeout) w of
           ((resp, None), w1) \<Rightarrow> ((resp, None), w1)
         | ((resp, Some err), w1) \<Rightarrow>
             if attempt < maxRetries then
               (case select_backoff ctx w1 of
                  (None, w2) \<Rightarrow>
                    retry_from zero ctx timeout fn maxRetries (attempt + 1) (Some err) w2
                | (Some cerr, w2) \<Rightarrow> ((zero, Some cerr), w2))
             else retry_from zero ctx timeout fn maxRetries (attempt + 1) (Some err) w1)
      else ((zero, lastErr), w))"
  by pat_completeness auto
termination
  by (relation "measure (\<lambda>(zero, ctx, timeout, fn, maxRetries, attempt, lastErr, w).
        nat (maxRetries + 1 - attempt))") auto

declare retry_from.simps [simp del]

definition callWithResilience ::
  "'a \<Rightarrow> gcontext \<Rightarrow> config \<Rightarrow> node \<Rightarrow> (gcontext \<Rightarrow> ('a, 'e) go_call) \<Rightarrow> ('a, 'e) go_call"
where
  "callWithResilience zero ctx cfg node fn w =
     retry_from zero ctx (nodeTimeout cfg node) fn (sint (n_MaxRetries node)) 0 None w"

section \<open>Small facts\<close>

lemma depends_scan_iff [simp]: "depends_scan ds name \<longleftrightarrow> name \<in> set ds"
  by (induction ds) auto

lemma dependsOn_iff: "dependsOn node name \<longleftrightarrow> name \<in> set (n_DependsOn node)"
  by (simp add: dependsOn_def)

definition handled :: "node \<Rightarrow> bool" where
  "handled node \<longleftrightarrow> EffectiveOnFailure node \<in> {OnFailureSkip, OnFailureDegrade}"

lemma nodeFailureHandled_fst [simp]: "fst (nodeFailureHandled l node err w) = handled node"
  by (simp add: nodeFailureHandled_def handled_def Let_def)

lemma nodeFailureHandled_frame [simp, go_frame]:
  "clock (snd (nodeFailureHandled l node err w)) = clock w"
  "sched (snd (nodeFailureHandled l node err w)) = sched w"
  "env (snd (nodeFailureHandled l node err w)) = env w"
  by (simp_all add: nodeFailureHandled_def Let_def)

lemma nodeFailureHandled_logs:
  "\<exists>ls. logs (snd (nodeFailureHandled l node err w)) = logs w @ ls"
  by (simp add: nodeFailureHandled_def Let_def)

lemma sint_i32: "- (2 ^ 31) \<le> sint (x :: i32)" "sint (x :: i32) < 2 ^ 31"
  using sint_ge [of x] sint_lt [of x] by simp_all

lemma sint_of_int64: "- (2 ^ 63) \<le> k \<Longrightarrow> k < 2 ^ 63 \<Longrightarrow> sint (word_of_int k :: duration) = k"
  by (simp add: signed_of_int signed_take_bit_int_eq_self)

lemma sint_millis: "sint (duration_of_i32 x * Millisecond) = sint x * 1000000"
proof -
  have "duration_of_i32 x * Millisecond = word_of_int (sint x * 1000000)"
    by (simp add: duration_of_i32_def Millisecond_def)
  then have "sint (duration_of_i32 x * Millisecond) = sint (word_of_int (sint x * 1000000) :: duration)"
    by (simp only:)
  also have "\<dots> = sint x * 1000000"
    using sint_i32 [of x] by (intro sint_of_int64) simp_all
  finally show ?thesis .
qed

lemma sint_retryBackoff: "sint retryBackoff = 20000000"
  by (simp add: retryBackoff_def Millisecond_def)

lemma sint_defaultNodeTimeout: "sint defaultNodeTimeout = 500000000"
  by (simp add: defaultNodeTimeout_def Millisecond_def)

lemma sint_nodeTimeout:
  "sint (nodeTimeout cfg node) =
     (if 0 < sint (n_TimeoutMs node) then sint (n_TimeoutMs node) * 1000000
      else if 0 < sint (c_TimeoutMs cfg) then sint (c_TimeoutMs cfg) * 1000000
      else 500000000)"
  by (simp add: nodeTimeout_def sint_millis sint_defaultNodeTimeout)

lemma nodeTimeout_pos: "0 < sint (nodeTimeout cfg node)"
  by (simp add: sint_nodeTimeout)

lemma select_backoff_frame:
  assumes "select_backoff ctx w = (r, w')"
  shows "logs w' = logs w" "sched w' = sched w" "env w' = env w"
    "clock w \<le> clock w'" "clock w' \<le> clock w + 20000000"
  using assms
  by (auto simp: select_backoff_def Let_def sint_retryBackoff split: option.splits if_splits)

section \<open>Analysis of the loop\<close>

lemma retry_from_cases:
  assumes "retry_from zero ctx timeout fn m a le w = (r, w')"
  obtains
    (exhausted) "m < a" "r = (zero, le)" "w' = w"
  | (success) resp where "a \<le> m"
      "fn (WithTimeout ctx (clock w) timeout) w = ((resp, None), w')" "r = (resp, None)"
  | (stopped) resp err w1 cerr where "a < m"
      "fn (WithTimeout ctx (clock w) timeout) w = ((resp, Some err), w1)"
      "select_backoff ctx w1 = (Some cerr, w')" "r = (zero, Some cerr)"
  | (again) resp err w1 w2 where "a < m"
      "fn (WithTimeout ctx (clock w) timeout) w = ((resp, Some err), w1)"
      "select_backoff ctx w1 = (None, w2)"
      "retry_from zero ctx timeout fn m (a + 1) (Some err) w2 = (r, w')"
  | (final) resp err where "a = m"
      "fn (WithTimeout ctx (clock w) timeout) w = ((resp, Some err), w')" "r = (zero, Some err)"
proof (cases "a \<le> m")
  case False
  with assms exhausted show ?thesis by (simp add: retry_from.simps)
next
  case True
  obtain resp e w1 where f: "fn (WithTimeout ctx (clock w) timeout) w = ((resp, e), w1)"
    by (metis prod.exhaust)
  obtain c w2 where s: "select_backoff ctx w1 = (c, w2)" by fastforce
  consider "e = None" | err where "e = Some err" "a = m" | err where "e = Some err" "a < m"
    using True by (cases e) force+
  then show ?thesis
  proof cases
    case 1
    with True f assms success show ?thesis by (auto simp: retry_from.simps [of _ _ _ _ m a])
  next
    case 2
    with f assms final show ?thesis
      by (auto simp: retry_from.simps [of _ _ _ _ m m] retry_from.simps [of _ _ _ _ m "m + 1"])
  next
    case 3
    with f s assms stopped again show ?thesis by (cases c) (auto simp: retry_from.simps [of _ _ _ _ m a])
  qed
qed

text \<open>The loop's own induction: one case per way an iteration ends.\<close>

lemma retry_from_induct [consumes 1, case_names exhausted success stopped again final]:
  assumes "retry_from zero ctx timeout fn m a le w = (r, w')"
    and "\<And>a le w. m < a \<Longrightarrow> P a le w (zero, le) w"
    and "\<And>a le w resp w'. a \<le> m \<Longrightarrow>
      fn (WithTimeout ctx (clock w) timeout) w = ((resp, None), w') \<Longrightarrow> P a le w (resp, None) w'"
    and "\<And>a le w resp err w1 cerr w'. a < m \<Longrightarrow>
      fn (WithTimeout ctx (clock w) timeout) w = ((resp, Some err), w1) \<Longrightarrow>
      select_backoff ctx w1 = (Some cerr, w') \<Longrightarrow> P a le w (zero, Some cerr) w'"
    and "\<And>a le w resp err w1 w2 r w'. a < m \<Longrightarrow>
      fn (WithTimeout ctx (clock w) timeout) w = ((resp, Some err), w1) \<Longrightarrow>
      select_backoff ctx w1 = (None, w2) \<Longrightarrow> P (a + 1) (Some err) w2 r w' \<Longrightarrow> P a le w r w'"
    and "\<And>a le w resp err w'. a = m \<Longrightarrow>
      fn (WithTimeout ctx (clock w) timeout) w = ((resp, Some err), w') \<Longrightarrow> P a le w (zero, Some err) w'"
  shows "P a le w r w'"
  using assms(1)
proof (induction "nat (m + 1 - a)" arbitrary: a le w r w' rule: less_induct)
  case less
  from less.prems show ?case
  proof (cases rule: retry_from_cases)
    case (again resp err w1 w2)
    then have "P (a + 1) (Some err) w2 r w'" by (intro less.hyps) auto
    with again assms(5) show ?thesis by blast
  qed (use assms in auto)
qed

section \<open>Contracts of a downstream call\<close>

text \<open>A call that honours the deadline of the context it is given.\<close>

locale punctual =
  fixes fn :: "gcontext \<Rightarrow> ('a, 'e) go_call"
  assumes forward: "fn c w = (r, w') \<Longrightarrow> clock w \<le> clock w'"
    and by_deadline: "fn c w = (r, w') \<Longrightarrow> deadline c = Some d \<Longrightarrow> clock w' \<le> max (clock w) d"
begin

lemma attempt_clock:
  assumes "fn (WithTimeout ctx (clock w) timeout) w = (r, w')" and "0 \<le> sint timeout"
  shows "clock w' \<le> clock w + sint timeout"
proof -
  obtain dl where dl: "deadline (WithTimeout ctx (clock w) timeout) = Some dl"
    and "dl \<le> clock w + sint timeout"
    by (rule WithTimeout_deadline_le)
  with by_deadline [OF assms(1) dl] assms(2) show ?thesis by simp
qed

lemma retry_clock:
  assumes "retry_from zero ctx timeout fn m a le w = (r, w')"
    and "0 \<le> sint timeout" and "a \<le> m"
  shows "clock w' \<le> clock w + (m - a + 1) * sint timeout + (m - a) * 20000000"
  using assms
proof (induction rule: retry_from_induct)
  case (again a le w resp err w1 w2 r w')
  have "clock w2 \<le> clock w + sint timeout + 20000000"
    using attempt_clock [OF again.hyps(2) again.prems(1)] select_backoff_frame(5) [OF again.hyps(3)]
    by simp
  moreover have "clock w' \<le> clock w2 + (m - a) * sint timeout + (m - a - 1) * 20000000"
    using again.IH again.prems again.hyps by (simp add: algebra_simps)
  ultimately show ?case by (simp add: algebra_simps)
next
  case (stopped a le w resp err w1 cerr w')
  have "clock w' \<le> clock w + sint timeout + 20000000"
    using attempt_clock [OF stopped.hyps(2) stopped.prems(1)] select_backoff_frame(5) [OF stopped.hyps(3)]
    by simp
  moreover have "1 * sint timeout \<le> (m - a + 1) * sint timeout"
    using stopped by (intro mult_right_mono) simp_all
  ultimately show ?case using stopped.hyps(1) by simp
next
  case (success a le w resp w')
  have "1 * sint timeout \<le> (m - a + 1) * sint timeout"
    using success by (intro mult_right_mono) simp_all
  with attempt_clock [OF success.hyps(2) success.prems(1)] success.hyps(1) show ?case by simp
next
  case (final a le w resp err w')
  with attempt_clock [OF final.hyps(2) final.prems(1)] show ?case by simp
qed simp

end

text \<open>The time a node may take: its attempts under their deadlines, and the back-offs between them.\<close>

definition node_budget :: "config \<Rightarrow> node \<Rightarrow> int" where
  "node_budget cfg node =
     (let r = sint (n_MaxRetries node)
      in if r < 0 then 0 else (r + 1) * sint (nodeTimeout cfg node) + r * sint retryBackoff)"

lemma node_budget_nonneg: "0 \<le> node_budget cfg node"
  using nodeTimeout_pos [of cfg node] by (auto simp: node_budget_def Let_def sint_retryBackoff)

lemma call_budget:
  assumes "punctual fn" and "callWithResilience zero ctx cfg node fn w = (r, w')"
  shows "clock w' \<le> clock w + node_budget cfg node"
proof (cases "sint (n_MaxRetries node) < 0")
  case True
  with assms(2) show ?thesis by (simp add: callWithResilience_def retry_from.simps node_budget_def)
next
  case False
  with punctual.retry_clock [OF assms(1) assms(2) [unfolded callWithResilience_def]]
    nodeTimeout_pos [of cfg node]
  show ?thesis by (simp add: node_budget_def Let_def sint_retryBackoff less_imp_le)
qed

section \<open>The first successful attempt\<close>

text \<open>
  The reference description of the loop for a context that is never done: attempt \<open>n\<close> runs
  after \<open>n\<close> failed attempts and back-offs, and the result is that of the first success, or the
  error of the last attempt with the zero value.
\<close>

primrec nth_attempt ::
  "nat \<Rightarrow> gcontext \<Rightarrow> duration \<Rightarrow> (gcontext \<Rightarrow> ('a, 'e) go_call) \<Rightarrow> ('a, 'e) go_call"
where
  "nth_attempt 0 ctx timeout fn w = fn (WithTimeout ctx (clock w) timeout) w"
| "nth_attempt (Suc n) ctx timeout fn w =
     (let w1 = snd (fn (WithTimeout ctx (clock w) timeout) w)
      in nth_attempt n ctx timeout fn (w1\<lparr>clock := clock w1 + sint retryBackoff\<rparr>))"

definition succeeded :: "('a \<times> gerror option) \<times> 'e world \<Rightarrow> bool" where
  "succeeded x \<longleftrightarrow> snd (fst x) = None"

definition first_success ::
  "'a \<Rightarrow> gcontext \<Rightarrow> duration \<Rightarrow> (gcontext \<Rightarrow> ('a, 'e) go_call) \<Rightarrow> nat \<Rightarrow> ('a, 'e) go_call"
where
  "first_success zero ctx timeout fn m w =
     (case find (\<lambda>n. succeeded (nth_attempt n ctx timeout fn w)) [0..<Suc m] of
        Some n \<Rightarrow> nth_attempt n ctx timeout fn w
      | None \<Rightarrow> (case nth_attempt m ctx timeout fn w of ((resp, err), w') \<Rightarrow> ((zero, err), w')))"

lemma find_map_Suc: "find P (map Suc xs) = map_option Suc (find (\<lambda>n. P (Suc n)) xs)"
  by (induction xs) auto

lemma retry_first_success:
  assumes "done_at ctx = None"
  shows "retry_from zero ctx timeout fn (a + int k) a le w = first_success zero ctx timeout fn k w"
proof (induction k arbitrary: a le w)
  case 0
  obtain resp e w1 where f: "fn (WithTimeout ctx (clock w) timeout) w = ((resp, e), w1)"
    by (metis prod.exhaust)
  then show ?case
    by (cases e) (simp_all add: retry_from.simps [of _ _ _ _ a a] retry_from.simps [of _ _ _ _ a "a + 1"]
        first_success_def succeeded_def)
next
  case (Suc k)
  obtain resp e w1 where f: "fn (WithTimeout ctx (clock w) timeout) w = ((resp, e), w1)"
    by (metis prod.exhaust)
  have up: "[0..<Suc (Suc k)] = 0 # map Suc [0..<Suc k]"
    by (simp add: map_Suc_upt upt_conv_Cons del: upt_Suc)
  have sel: "select_backoff ctx w1 = (None, w1\<lparr>clock := clock w1 + sint retryBackoff\<rparr>)"
    using assms by (simp add: select_backoff_def)
  show ?case
  proof (cases e)
    case None
    with f show ?thesis
      by (simp add: retry_from.simps [of _ _ _ _ _ a] first_success_def up succeeded_def del: upt_Suc)
  next
    case (Some err)
    have "retry_from zero ctx timeout fn (a + int (Suc k)) a le w =
        retry_from zero ctx timeout fn ((a + 1) + int k) (a + 1) (Some err)
          (w1\<lparr>clock := clock w1 + sint retryBackoff\<rparr>)"
      using f Some sel by (simp add: retry_from.simps [of _ _ _ _ _ a] add.assoc)
    with f Some show ?thesis
      by (simp add: Suc.IH first_success_def up find_map_Suc succeeded_def o_def del: upt_Suc split: option.splits)
  qed
qed

text \<open>A success is the answer of one attempt, made in a context that carries the caller's identity.\<close>

lemma retry_success:
  assumes "retry_from zero ctx timeout fn m a le w = (r, w')" and "a \<le> m" and "snd r = None"
  shows "\<exists>t w1. fn (WithTimeout ctx t timeout) w1 = (r, w')"
  using assms by (induction rule: retry_from_induct) auto

lemma call_success:
  assumes "callWithResilience zero ctx cfg node fn w = ((resp, None), w')"
  shows "resp = zero \<or> (\<exists>t w1. fn (WithTimeout ctx t (nodeTimeout cfg node)) w1 = ((resp, None), w'))"
proof (cases "0 \<le> sint (n_MaxRetries node)")
  case True
  with assms retry_success show ?thesis unfolding callWithResilience_def by fastforce
next
  case False
  with assms show ?thesis by (simp add: callWithResilience_def retry_from.simps)
qed

section \<open>Properties\<close>

text \<open>
  (C12) With a context that is never done and a non-negative \<open>max_retries\<close>,
  \<open>callWithResilience\<close> returns the answer of the first of at most \<open>max_retries + 1\<close> attempts
  that succeeds, each under its own \<open>nodeTimeout\<close> deadline and 20 ms after the failure before
  it, and otherwise the zero value with the error of the last attempt.
\<close>

theorem callWithResilience_first_success:
  assumes "done_at ctx = None" and "0 \<le> sint (n_MaxRetries node)"
  shows "callWithResilience zero ctx cfg node fn w =
    first_success zero ctx (nodeTimeout cfg node) fn (nat (sint (n_MaxRetries node))) w"
proof -
  have "sint (n_MaxRetries node) = 0 + int (nat (sint (n_MaxRetries node)))"
    using assms(2) by simp
  with retry_first_success [OF assms(1), of zero "nodeTimeout cfg node" fn 0] show ?thesis
    unfolding callWithResilience_def by metis
qed

definition flaky_node :: node where
  "flaky_node = \<lparr>n_ID = ''policy_lookup'', n_Service = ''policy-lookup-svc'', n_Group = ''enrichment'',
     n_TimeoutMs = 40, n_MaxRetries = 2, n_OnFailure = ''degrade'', n_DependsOn = [], n_EnabledFor = []\<rparr>"

definition plain_config :: config where
  "plain_config = \<lparr>c_TenantID = ''acme_insurance'', c_Product = ''auto'', c_EventType = ''claim.fnol'',
     c_Version = 4, c_TimeoutMs = 250, c_Nodes = [flaky_node]\<rparr>"

definition idle_world :: "nat world" where
  "idle_world = \<lparr>clock = 0, logs = [], sched = (\<lambda>t. False), env = 0\<rparr>"

text \<open>A service that fails its first two calls; \<open>env\<close> counts them.\<close>

definition flaky_call :: "gcontext \<Rightarrow> (nat option, nat) go_call" where
  "flaky_call ctx w =
     ((if env w < 2 then (None, Some (ErrorString [Lit ''transient failure''])) else (Some 7, None)),
      w\<lparr>env := Suc (env w)\<rparr>)"

theorem callWithResilience_first_success_witness:
  "done_at Background = None \<and> 0 \<le> sint (n_MaxRetries flaky_node) \<and>
   callWithResilience None Background plain_config flaky_node flaky_call idle_world =
     ((Some 7, None), idle_world\<lparr>clock := 40000000, env := 3\<rparr>)"
proof -
  have h: "done_at Background = None" "0 \<le> sint (n_MaxRetries flaky_node)"
    by (simp_all add: done_at_def Background_def flaky_node_def)
  have n: "nat (sint (n_MaxRetries flaky_node)) = 2"
    by (simp add: flaky_node_def)
  show ?thesis
    using h callWithResilience_first_success [OF h, of None plain_config flaky_call idle_world]
    by (simp add: n first_success_def succeeded_def flaky_call_def idle_world_def
        sint_retryBackoff upt_rec numeral_2_eq_2)
qed

text \<open>
  (C33) A negative \<open>max_retries\<close> makes \<open>callWithResilience\<close> report success without calling the
  service at all: the zero value, a nil error, and the world unchanged.
\<close>

theorem callWithResilience_negative_retries:
  assumes "sint (n_MaxRetries node) < 0"
  shows "callWithResilience zero ctx cfg node fn w = ((zero, None), w)"
  using assms by (simp add: callWithResilience_def retry_from.simps)

theorem callWithResilience_negative_retries_witness:
  "sint (n_MaxRetries (flaky_node\<lparr>n_MaxRetries := -1\<rparr>)) < 0 \<and>
   callWithResilience None Background plain_config (flaky_node\<lparr>n_MaxRetries := -1\<rparr>) flaky_call idle_world =
     ((None, None), idle_world)"
  using callWithResilience_negative_retries [of "flaky_node\<lparr>n_MaxRetries := -1\<rparr>"] by simp

text \<open>
  When the service honours the deadline of the context it is given, a call with retries
  takes at most \<open>max_retries + 1\<close> node timeouts and \<open>max_retries\<close> back-offs of 20 ms,
  whatever the caller's context does.
\<close>

theorem callWithResilience_time_bound:
  assumes forward: "\<And>c w r w'. fn c w = (r, w') \<Longrightarrow> clock w \<le> clock w'"
    and deadline: "\<And>c w r w' d. fn c w = (r, w') \<Longrightarrow> deadline c = Some d \<Longrightarrow> clock w' \<le> max (clock w) d"
    and retries: "0 \<le> sint (n_MaxRetries node)"
    and call: "callWithResilience zero ctx cfg node fn w = (r, w')"
  shows "clock w' \<le> clock w + (sint (n_MaxRetries node) + 1) * sint (nodeTimeout cfg node)
           + sint (n_MaxRetries node) * 20000000"
proof -
  have "punctual fn" by unfold_locales (blast intro: forward deadline)+
  from call_budget [OF this call] retries show ?thesis
    by (simp add: node_budget_def Let_def sint_retryBackoff)
qed

text \<open>A service that never answers: it returns when the attempt's deadline has passed.\<close>

definition stuck_call :: "gcontext \<Rightarrow> (nat option, nat) go_call" where
  "stuck_call ctx w =
     (case deadline ctx of
        None \<Rightarrow> ((None, Some (ErrorString [Lit ''no deadline''])), w)
      | Some d \<Rightarrow> ((None, Some (ctx_Err ctx)), w\<lparr>clock := max (clock w) d\<rparr>))"

theorem callWithResilience_time_bound_witness:
  "(let w' = snd (callWithResilience None Background plain_config flaky_node stuck_call idle_world)
    in clock w' \<le> 160000000)"
proof -
  obtain r w' where c:
    "callWithResilience None Background plain_config flaky_node stuck_call idle_world = (r, w')"
    by fastforce
  have "clock w' \<le> clock idle_world + (sint (n_MaxRetries flaky_node) + 1)
      * sint (nodeTimeout plain_config flaky_node) + sint (n_MaxRetries flaky_node) * 20000000"
    by (rule callWithResilience_time_bound [OF _ _ _ c])
      (auto simp: stuck_call_def flaky_node_def split: option.splits)
  then have "clock w' \<le> 160000000"
    by (simp add: idle_world_def flaky_node_def sint_nodeTimeout)
  then show ?thesis by (simp add: c)
qed

text \<open>
  The timeout of a node is always positive and never wraps around in \<open>time.Duration\<close>: it is
  exactly the node's \<open>timeout_ms\<close>, else the DAG's, else 500 ms, in nanoseconds.
\<close>

theorem nodeTimeout_exact:
  "0 < sint (nodeTimeout cfg node) \<and> sint (nodeTimeout cfg node) < 2 ^ 31 * 1000000 \<and>
   sint (nodeTimeout cfg node) =
     1000000 * (if 0 < sint (n_TimeoutMs node) then sint (n_TimeoutMs node)
                else if 0 < sint (c_TimeoutMs cfg) then sint (c_TimeoutMs cfg) else 500)"
  using sint_i32(2) [of "n_TimeoutMs node"] sint_i32(2) [of "c_TimeoutMs cfg"]
  by (simp add: sint_nodeTimeout)

end
