(* ===== verification/ModelService.thy ===== *)
theory ModelService
  imports Telemetry
begin

text \<open>
  The Model Service: \<open>internal/scoring\<close> (the hand-weighted formula, computed in \<open>float64\<close> as the
  code does) and \<open>internal/server\<close> (the RPC that logs the explanations and returns the score).
  The lemmas compare the floating-point computation with the exact sum of the weights in cents.
\<close>

section \<open>Scoring\<close>

definition ModelVersion :: string where
  "ModelVersion = ''rules-v1''"

text \<open>A two-digit decimal constant of the source: the \<open>float64\<close> nearest to \<open>n / 100\<close>.\<close>

definition hundredths :: "nat \<Rightarrow> float64" where
  "hundredths n = f64_of_rat (of_nat n / 100)"

definition baseScore :: float64 where
  "baseScore = hundredths 5"

text \<open>\<open>strconv.ParseBool\<close>: the value and whether the text was accepted.\<close>

definition ParseBool :: "string \<Rightarrow> bool \<times> bool" where
  "ParseBool s =
     (if s \<in> {''1'', ''t'', ''T'', ''true'', ''TRUE'', ''True''} then (True, True)
      else if s \<in> {''0'', ''f'', ''F'', ''false'', ''FALSE'', ''False''} then (False, True)
      else (False, False))"

definition policy_rule :: "string \<Rightarrow> float64 \<times> fmt_text list \<Rightarrow> float64 \<times> fmt_text list" where
  "policy_rule status acc = (case acc of (score, explanations) \<Rightarrow>
     if status = ''active'' then (score, explanations)
     else if status = ''lapsed'' then
       (f64_add score (hundredths 15), explanations @ [[Lit ''policy_status=lapsed (+0.15)'']])
     else if status = ''cancelled'' then
       (f64_add score (hundredths 25), explanations @ [[Lit ''policy_status=cancelled (+0.25)'']])
     else
       (f64_add score (hundredths 30),
        explanations @ [[Lit ''policy_status='', Quoted status, Lit '' (+0.30)'']]))"

definition coverage_rule :: "string \<Rightarrow> float64 \<times> fmt_text list \<Rightarrow> float64 \<times> fmt_text list" where
  "coverage_rule coverage acc = (case acc of (score, explanations) \<Rightarrow>
     if coverage = '''' then
       (f64_add score (hundredths 5), explanations @ [[Lit ''coverage_type unknown (+0.05)'']])
     else (score, explanations))"

definition address_rule :: "string \<Rightarrow> float64 \<times> fmt_text list \<Rightarrow> float64 \<times> fmt_text list" where
  "address_rule address acc = (case acc of (score, explanations) \<Rightarrow>
     let addressValid = fst (ParseBool address) in
     if \<not> addressValid then
       (f64_add score (hundredths 10), explanations @ [[Lit ''address invalid or unverified (+0.10)'']])
     else (score, explanations))"

definition round_and_clamp :: "float64 \<Rightarrow> float64" where
  "round_and_clamp score = math_Min (Fin 1) (f64_div_const (math_Round (f64_mul_const score 100)) 100)"

definition Score :: "(string \<rightharpoonup> string) \<Rightarrow> float64 \<times> fmt_text list" where
  "Score features =
     (case address_rule (go_index features ''address_valid'')
             (coverage_rule (go_index features ''policy_coverage_type'')
               (policy_rule (go_index features ''policy_status'') (baseScore, []))) of
        (score, explanations) \<Rightarrow>
          (round_and_clamp score,
           if length explanations = 0 then [[Lit ''no risk factors detected'']] else explanations))"

section \<open>Server\<close>

record ScoreRequest =
  sr_CorrelationId :: string
  sr_Features :: "string \<rightharpoonup> string"

record ScoreResponse =
  sr_Score :: float64
  sr_ModelVersion :: string

definition ModelServer_Score ::
  "logger option \<Rightarrow> gcontext \<Rightarrow> ScoreRequest \<Rightarrow> (ScoreResponse option, 'e) go_call"
where
  "ModelServer_Score l ctx req w =
     (case Score (sr_Features req) of (score, explanations) \<Rightarrow>
        ((Some \<lparr>sr_Score = score, sr_ModelVersion = ModelVersion\<rparr>, None),
         log_at Info (FromContext ctx l) ''scored claim''
           [(''score'', LFloat score), (''reasons'', LTexts explanations)] w))"

section \<open>The exact weights\<close>

text \<open>The weights as whole cents, and which rules a feature map triggers.\<close>

definition status_cents :: "string \<Rightarrow> nat" where
  "status_cents status =
     (if status = ''active'' then 0 else if status = ''lapsed'' then 15
      else if status = ''cancelled'' then 25 else 30)"

definition risk_cents :: "(string \<rightharpoonup> string) \<Rightarrow> nat" where
  "risk_cents features =
     5 + status_cents (go_index features ''policy_status'')
     + (if go_index features ''policy_coverage_type'' = '''' then 5 else 0)
     + (if fst (ParseBool (go_index features ''address_valid'')) then 0 else 10)"

definition triggered :: "(string \<rightharpoonup> string) \<Rightarrow> nat" where
  "triggered features =
     (if go_index features ''policy_status'' = ''active'' then 0 else 1)
     + (if go_index features ''policy_coverage_type'' = '''' then 1 else 0)
     + (if fst (ParseBool (go_index features ''address_valid'')) then 0 else 1)"

section \<open>The float computation against the exact sum\<close>

text \<open>
  Each rule keeps the running score within a small multiple of the unit roundoff of the exact sum;
  the last rounding to cents then removes the accumulated error entirely.
\<close>

definition tracks :: "float64 \<Rightarrow> nat \<Rightarrow> nat \<Rightarrow> bool" where
  "tracks score n k \<longleftrightarrow> near score (of_nat n / 100) (of_nat k / 2 ^ 48) \<and> 5 \<le> n \<and> n < 60 \<and> k < 100"

lemma near_hundredths: "0 < n \<Longrightarrow> n < 100 \<Longrightarrow> near (hundredths n) (of_nat n / 100) (1 / 2 ^ 48)"
  unfolding hundredths_def by (intro near_const) simp_all

lemma tracks_weaken: "tracks score n k \<Longrightarrow> k \<le> k' \<Longrightarrow> k' < 100 \<Longrightarrow> tracks score n k'"
proof -
  assume "tracks score n k" "k \<le> k'" "k' < 100"
  moreover from this have "of_nat k / 2 ^ 48 \<le> (of_nat k' / 2 ^ 48 :: rat)"
    by (simp add: divide_right_mono)
  ultimately show ?thesis unfolding tracks_def near_def by (blast intro: order_trans)
qed

lemma tracks_add:
  assumes "tracks score n k" "0 < c" "n + c < 60" "k + 2 < 100"
  shows "tracks (f64_add score (hundredths c)) (n + c) (k + 2)"
proof -
  have c: "near (hundredths c) (of_nat c / 100) (1 / 2 ^ 48)"
    using assms by (intro near_hundredths) simp_all
  have n: "near score (of_nat n / 100) (of_nat k / 2 ^ 48)" "5 \<le> n"
    using assms(1) by (simp_all add: tracks_def)
  have k: "of_nat k / 2 ^ 48 + 1 / 2 ^ 48 < (1 / 100 :: rat)"
    using assms(4) by (simp add: field_simps)
  have nc: "(5 :: rat) / 100 \<le> of_nat n / 100 + of_nat c / 100"
    "of_nat n / 100 + of_nat c / 100 < (60 / 100 :: rat)"
    using n(2) assms(3) by (simp_all add: field_simps flip: of_nat_add)
  have "near (f64_add score (hundredths c)) (of_nat n / 100 + of_nat c / 100)
      (of_nat k / 2 ^ 48 + 1 / 2 ^ 48 + 1 / 2 ^ 48)"
    by (rule near_add [OF n(1) c]) (use k nc in linarith)+
  then show ?thesis using assms n(2) by (simp add: tracks_def add_divide_distrib)
qed

lemma tracks_add':
  assumes "tracks score n k" "0 < c" "n + c < 60" "k + 2 \<le> k'" "k' < 100"
  shows "tracks (f64_add score (hundredths c)) (n + c) k'"
  using tracks_weaken [OF tracks_add [OF assms(1-3)]] assms(4,5) by simp

lemma tracks_base: "tracks baseScore 5 1"
  using near_hundredths [of 5] by (simp add: tracks_def baseScore_def)

lemma tracks_round_and_clamp:
  assumes "tracks score n k"
  shows "round_and_clamp score = hundredths n"
proof -
  have n: "near score (of_nat n / 100) (of_nat k / 2 ^ 48)" "5 \<le> n" "n < 60" "k < 100"
    using assms by (simp_all add: tracks_def)
  have k: "100 * (of_nat k / 2 ^ 48) < (1 / 4 :: rat)"
    using n(4) by (simp add: field_simps)
  have n': "(5 :: rat) \<le> of_nat n" "of_nat n < (60 :: rat)" using n by simp_all
  have "near (f64_mul_const score 100) (100 * (of_nat n / 100)) (100 * (of_nat k / 2 ^ 48) + 1 / 2 ^ 48)"
    by (rule near_mul_const [OF n(1)]) (use k n' in simp_all)
  then have round: "math_Round (f64_mul_const score 100) = Fin (of_nat n)"
    using k by (intro near_Round [where d = "100 * (of_nat k / 2 ^ 48) + 1 / 2 ^ 48"]) simp_all
  obtain r where r: "hundredths n = Fin r" "\<bar>r - of_nat n / 100\<bar> \<le> 1 / 2 ^ 48"
    using near_hundredths [of n] n by (auto simp: near_def)
  have "of_nat n / 100 < (60 / 100 :: rat)" "(1 / 2 ^ 48 :: rat) < 1 / 10" using n' by simp_all
  with r(2) have "r \<le> 1" by linarith
  with r(1) round show ?thesis by (simp add: round_and_clamp_def hundredths_def)
qed

lemma rules_track:
  assumes "tracks score n k" "k + 2 \<le> k'" "k' < 100"
  shows "n < 30 \<Longrightarrow> tracks (fst (policy_rule status (score, es))) (n + status_cents status) k'"
    and "n < 50 \<Longrightarrow> tracks (fst (coverage_rule coverage (score, es)))
           (n + (if coverage = '''' then 5 else 0)) k'"
    and "n < 50 \<Longrightarrow> tracks (fst (address_rule address (score, es)))
           (n + (if fst (ParseBool address) then 0 else 10)) k'"
  using assms tracks_weaken [OF assms(1), of "k'"]
  by (auto simp: policy_rule_def coverage_rule_def address_rule_def status_cents_def Let_def
      intro: tracks_add')

lemma status_cents_le: "status_cents status \<le> 30"
  by (simp add: status_cents_def)

lemma Score_fst: "fst (Score features) = hundredths (risk_cents features)"
proof -
  let ?p = "policy_rule (go_index features ''policy_status'') (baseScore, [])"
  let ?c = "coverage_rule (go_index features ''policy_coverage_type'') ?p"
  let ?a = "address_rule (go_index features ''address_valid'') ?c"
  have p: "tracks (fst ?p) (5 + status_cents (go_index features ''policy_status'')) 3"
    using rules_track(1) [OF tracks_base, of 3] by simp
  have c: "tracks (fst ?c) (5 + status_cents (go_index features ''policy_status'')
      + (if go_index features ''policy_coverage_type'' = '''' then 5 else 0)) 5"
    using rules_track(2) [OF p, of 5 _ "snd ?p"] status_cents_le [of "go_index features ''policy_status''"]
    by simp
  have "tracks (fst ?a) (risk_cents features) 7"
    using rules_track(3) [OF c, of 7 _ "snd ?c"] status_cents_le [of "go_index features ''policy_status''"]
    by (simp add: risk_cents_def split: if_splits)
  from tracks_round_and_clamp [OF this] show ?thesis
    by (simp add: Score_def case_prod_unfold)
qed

lemma ModelServer_Score_eq [go_run]:
  "ModelServer_Score l ctx req w =
     ((Some \<lparr>sr_Score = hundredths (risk_cents (sr_Features req)), sr_ModelVersion = ModelVersion\<rparr>, None),
      log_at Info (FromContext ctx l) ''scored claim''
        [(''score'', LFloat (hundredths (risk_cents (sr_Features req)))),
         (''reasons'', LTexts (snd (Score (sr_Features req))))] w)"
  by (cases "Score (sr_Features req)") (use Score_fst [of "sr_Features req"] in \<open>simp add: ModelServer_Score_def\<close>)

lemma risk_cents_bounds: "5 \<le> risk_cents features" "risk_cents features \<le> 50"
  by (simp_all add: risk_cents_def status_cents_def)

text \<open>The scores are a hundredth apart, far more than the rounding error.\<close>

lemma hundredths_less:
  assumes "0 < m" "m < n" "n < 100"
  shows "f64_le (hundredths m) (hundredths n) \<and> hundredths m \<noteq> hundredths n"
proof -
  obtain r s where r: "hundredths m = Fin r" "\<bar>r - of_nat m / 100\<bar> \<le> 1 / 2 ^ 48"
    and s: "hundredths n = Fin s" "\<bar>s - of_nat n / 100\<bar> \<le> 1 / 2 ^ 48"
    using assms near_hundredths [of m] near_hundredths [of n] by (auto simp: near_def)
  have "of_nat m / 100 + 1 / 100 \<le> (of_nat n / 100 :: rat)"
    using assms(2) by (simp add: field_simps flip: of_nat_Suc)
  moreover have "(1 / 2 ^ 48 :: rat) < 1 / 1000" by simp
  ultimately have "r < s" using r(2) s(2) by linarith
  with r(1) s(1) show ?thesis by auto
qed

lemma hundredths_le_iff:
  assumes "0 < m" "m < 100" "0 < n" "n < 100"
  shows "f64_le (hundredths m) (hundredths n) \<longleftrightarrow> m \<le> n"
proof (rule linorder_cases [of m n])
  assume "m = n"
  with near_hundredths [OF assms(1,2)] show ?thesis by (auto simp: near_def)
next
  assume "n < m"
  with hundredths_less [of n m] near_hundredths [of n] near_hundredths [of m] assms
  show ?thesis by (auto simp: near_def)
qed (use hundredths_less [of m n] assms in auto)

section \<open>Properties\<close>

text \<open>
  (C27) The floating-point computation is exact to the cent: whatever the features, the score is the
  \<open>float64\<close> nearest to the exact sum of the base score and the triggered weights, with no trace of
  the rounding errors of the intermediate additions, the multiplication or the division.
\<close>

theorem Score_exact:
  "fst (Score features) = f64_of_rat (of_nat (risk_cents features) / 100)"
  by (simp add: Score_fst hundredths_def)

text \<open>
  The score is a finite number between 0.05 and 0.50, so \<open>json.Marshal\<close> always accepts it
  and the clamp at 1 never changes it.
\<close>

theorem Score_bounds:
  "f64_le (hundredths 5) (fst (Score features)) \<and> f64_le (fst (Score features)) (hundredths 50) \<and>
   is_finite (fst (Score features)) \<and> f64_le (fst (Score features)) (Fin 1)"
proof -
  have b: "5 \<le> risk_cents features" "risk_cents features \<le> 50" by (rule risk_cents_bounds)+
  then obtain r where r: "hundredths (risk_cents features) = Fin r"
      "\<bar>r - of_nat (risk_cents features) / 100\<bar> \<le> 1 / 2 ^ 48"
    using near_hundredths [of "risk_cents features"] by (auto simp: near_def)
  have "of_nat (risk_cents features) / 100 \<le> (50 / 100 :: rat)" using b(2) by simp
  moreover have "(1 / 2 ^ 48 :: rat) < 1 / 2" by simp
  ultimately have "r \<le> 1" using r(2) by linarith
  moreover have "f64_le (hundredths 5) (hundredths (risk_cents features))"
    "f64_le (hundredths (risk_cents features)) (hundredths 50)"
    using b by (simp_all add: hundredths_le_iff)
  ultimately show ?thesis using r(1) by (simp add: Score_fst)
qed

text \<open>
  Scores compare as the exact sums of weights do: one claim's score is at most another's
  exactly when its weights in cents are.
\<close>

theorem Score_order:
  "f64_le (fst (Score fs)) (fst (Score gs)) \<longleftrightarrow> risk_cents fs \<le> risk_cents gs"
  using risk_cents_bounds [of fs] risk_cents_bounds [of gs]
  by (simp add: Score_fst hundredths_le_iff)

lemma risk_cents_missing: "risk_cents fs \<le> risk_cents (fs(k := None))"
proof -
  have "go_index (fs(k := None)) x = (if x = k then '''' else go_index fs x)" for x
    by (simp add: go_index_def)
  then show ?thesis by (simp add: risk_cents_def status_cents_def ParseBool_def)
qed

text \<open>
  Missing data never makes a claim look safer: removing any feature from a feature map never
  lowers the score.
\<close>

theorem Score_missing_feature:
  "f64_le (fst (Score fs)) (fst (Score (fs(k := None))))"
  using risk_cents_bounds [of fs] risk_cents_bounds [of "fs(k := None)"] risk_cents_missing [of fs k]
  by (simp add: Score_fst hundredths_le_iff)

text \<open>
  Every score is explained: there is one explanation per triggered rule, in the order of the
  rules, and the text "no risk factors detected" alone exactly when no rule was triggered.
\<close>

theorem Score_explanations:
  "length (snd (Score features)) = max 1 (triggered features) \<and>
   (snd (Score features) = [[Lit ''no risk factors detected'']] \<longleftrightarrow> risk_cents features = 5)"
  by (auto simp: Score_def policy_rule_def coverage_rule_def address_rule_def triggered_def
      risk_cents_def status_cents_def Let_def)

end
