(* ===== verification/Kafka.thy ===== *)
theory Kafka
  imports Telemetry
begin

text \<open>
  \<open>internal/kafka/publisher.go\<close> and the JSON documents the program exchanges. A JSON text is
  modelled by the document it denotes; \<open>encoding/json\<close> refuses to encode a number that is not
  finite. The \<open>kafka-go\<close> writer is a parameter of \<open>Publish\<close>.
\<close>

section \<open>JSON documents\<close>

datatype json =
    JNull
  | JBool bool
  | JNum float64
  | JStr string
  | JArr "json list"
  | JObj "(string \<times> json) list"

text \<open>The error of \<open>json.Marshal\<close> on a value that is not finite.\<close>

fun unsupported_value :: "float64 \<Rightarrow> gerror option" where
  "unsupported_value (Fin r) = None"
| "unsupported_value PosInf = Some (ErrorString [Lit ''json: unsupported value: +Inf''])"
| "unsupported_value NegInf = Some (ErrorString [Lit ''json: unsupported value: -Inf''])"
| "unsupported_value NaN = Some (ErrorString [Lit ''json: unsupported value: NaN''])"

lemma unsupported_value_None_iff [simp]: "unsupported_value x = None \<longleftrightarrow> is_finite x"
  by (cases x) auto

section \<open>Events and the publisher\<close>

definition TopicClaimsRealtime :: string where
  "TopicClaimsRealtime = ''claims.realtime''"

record ScoredClaimEvent =
  ev_ClaimID :: string
  ev_CorrelationID :: string
  ev_TenantID :: string
  ev_Status :: string
  ev_FraudScore :: float64
  ev_ModelVersion :: string

definition marshal_event :: "ScoredClaimEvent \<Rightarrow> gerror + json" where
  "marshal_event event =
     (case unsupported_value (ev_FraudScore event) of
        Some e \<Rightarrow> Inl e
      | None \<Rightarrow> Inr (JObj
          [(''claim_id'', JStr (ev_ClaimID event)),
           (''correlation_id'', JStr (ev_CorrelationID event)),
           (''tenant_id'', JStr (ev_TenantID event)),
           (''status'', JStr (ev_Status event)),
           (''fraud_score'', JNum (ev_FraudScore event)),
           (''model_version'', JStr (ev_ModelVersion event))]))"

record kafka_message =
  m_Key :: string
  m_Value :: json

datatype kafka_balancer = HashBalancer
datatype kafka_acks = RequireOne

record kafka_writer =
  kw_Addr :: string
  kw_Topic :: string
  kw_Balancer :: kafka_balancer
  kw_RequiredAcks :: kafka_acks
  kw_AllowAutoTopicCreation :: bool
  kw_BatchTimeout :: duration

text \<open>A \<open>Publisher\<close> is its one method; \<open>KafkaPublisher\<close>, the real one, is the writer it wraps.\<close>

type_synonym 'e Publisher = "gcontext \<Rightarrow> ScoredClaimEvent \<Rightarrow> 'e world \<Rightarrow> gerror option \<times> 'e world"

type_synonym KafkaPublisher = kafka_writer

definition NewPublisher :: "string \<Rightarrow> KafkaPublisher" where
  "NewPublisher brokerAddr =
     \<lparr>kw_Addr = brokerAddr, kw_Topic = TopicClaimsRealtime, kw_Balancer = HashBalancer,
      kw_RequiredAcks = RequireOne, kw_AllowAutoTopicCreation = True,
      kw_BatchTimeout = 10 * Millisecond\<rparr>"

type_synonym 'e write_messages =
  "kafka_writer \<Rightarrow> gcontext \<Rightarrow> kafka_message \<Rightarrow> 'e world \<Rightarrow> gerror option \<times> 'e world"

definition Publish ::
  "'e write_messages \<Rightarrow> KafkaPublisher \<Rightarrow> 'e Publisher"
where
  "Publish WriteMessages p ctx event w =
     (case marshal_event event of
        Inl err \<Rightarrow> (Some (WrapError [Lit ''marshal scored claim event''] err), w)
      | Inr value \<Rightarrow>
          (case WriteMessages p ctx \<lparr>m_Key = ev_TenantID event, m_Value = value\<rparr> w of
             (Some err, w') \<Rightarrow> (Some (WrapError [Lit (''write to '' @ TopicClaimsRealtime)] err), w')
           | (None, w') \<Rightarrow> (None, w')))"

definition Publisher_Close :: "(kafka_writer \<Rightarrow> 'e world \<Rightarrow> gerror option \<times> 'e world) \<Rightarrow> KafkaPublisher \<Rightarrow> 'e world \<Rightarrow> gerror option \<times> 'e world" where
  "Publisher_Close writer_Close p w = writer_Close p w"

section \<open>Reading an event back\<close>

text \<open>A consumer of the topic looks the fields up by name.\<close>

definition json_str :: "json option \<Rightarrow> string option" where
  "json_str j = (case j of Some (JStr s) \<Rightarrow> Some s | _ \<Rightarrow> None)"

definition json_num :: "json option \<Rightarrow> float64 option" where
  "json_num j = (case j of Some (JNum x) \<Rightarrow> Some x | _ \<Rightarrow> None)"

definition read_event :: "json \<Rightarrow> ScoredClaimEvent option" where
  "read_event j =
     (case j of
        JObj fs \<Rightarrow>
          (case (json_str (map_of fs ''claim_id''), json_str (map_of fs ''correlation_id''),
                 json_str (map_of fs ''tenant_id''), json_str (map_of fs ''status''),
                 json_num (map_of fs ''fraud_score''), json_str (map_of fs ''model_version'')) of
             (Some c, Some r, Some t, Some s, Some x, Some v) \<Rightarrow>
               Some \<lparr>ev_ClaimID = c, ev_CorrelationID = r, ev_TenantID = t, ev_Status = s,
                     ev_FraudScore = x, ev_ModelVersion = v\<rparr>
           | _ \<Rightarrow> None)
      | _ \<Rightarrow> None)"

lemma marshal_event_read:
  "marshal_event event = Inr j \<Longrightarrow> read_event j = Some event"
  by (auto simp: marshal_event_def read_event_def json_str_def json_num_def split: option.splits)

lemma marshal_event_finite: "marshal_event event = Inr j \<Longrightarrow> is_finite (ev_FraudScore event)"
  by (simp add: marshal_event_def split: option.splits)

lemma marshal_event_total: "is_finite (ev_FraudScore event) \<Longrightarrow> \<exists>j. marshal_event event = Inr j"
  by (simp add: marshal_event_def flip: unsupported_value_None_iff)

section \<open>Properties\<close>

text \<open>
  \<open>Publish\<close> hands the writer exactly one message, keyed by the tenant, whose JSON value
  carries every field of the event unchanged under its name, and returns the writer's error with
  the topic added. An event whose score is not finite is refused before anything is written.
\<close>

theorem Publish_one_message:
  "if is_finite (ev_FraudScore event)
   then \<exists>j. read_event j = Some event \<and>
     Publish WriteMessages p ctx event w =
       (case WriteMessages p ctx \<lparr>m_Key = ev_TenantID event, m_Value = j\<rparr> w of
          (err, w') \<Rightarrow> (map_option (WrapError [Lit ''write to claims.realtime'']) err, w'))
   else \<exists>err. Publish WriteMessages p ctx event w = (Some err, w)"
proof (cases "marshal_event event")
  case (Inr j)
  with marshal_event_read [OF Inr] marshal_event_finite [OF Inr] show ?thesis
    by (auto simp: Publish_def TopicClaimsRealtime_def split: prod.split option.split)
next
  case (Inl err)
  with marshal_event_total [of event] show ?thesis by (auto simp: Publish_def)
qed

end
