(* ===== verification/Executor.thy ===== *)
theory Executor
  imports Resilience ModelService Kafka
begin

text \<open>
  \<open>Executor.Run\<close> of \<open>internal/dag/executor.go\<close>: load the DAG of a claim, run its enrichment
  nodes, then the nodes that depend on the enrichment group, then the nodes that depend on the
  score. The loop bodies of the three stages are separate definitions, composed by
  \<open>range_loop\<close> as the code's \<open>for\<close> loops compose them. The downstream services are the fields
  of the executor record, as in the code.
\<close>

section \<open>Messages\<close>

record ClaimEvent =
  ce_ClaimId :: string
  ce_CorrelationId :: string
  ce_Product :: string
  ce_EventType :: string
  ce_PolicyNumber :: string
  ce_ClaimantName :: string
  ce_RawAddress :: string

record HashClaimantIdResponse =
  hr_ClaimantIdHash :: string

record NormalizeResponse =
  nr_NormalizedAddress :: string
  nr_Line1 :: string
  nr_City :: string
  nr_State :: string
  nr_PostalCode :: string
  nr_Country :: string
  nr_Valid :: bool

record LookupPolicyResponse =
  lr_Found :: bool
  lr_Status :: string
  lr_CoverageType :: string

record dag_result =
  r_Status :: string
  r_NormalizedAddress :: string
  r_FraudScore :: float64
  r_ModelVersion :: string

section \<open>The executor and its interfaces\<close>

text \<open>Every interface has one method; a value of the interface is that method.\<close>

type_synonym 'e AddressNormalizer = "gcontext \<Rightarrow> string \<Rightarrow> string \<Rightarrow> (NormalizeResponse option, 'e) go_call"

type_synonym 'e ClaimantIDHasher = "gcontext \<Rightarrow> string \<Rightarrow> string \<Rightarrow> (HashClaimantIdResponse option, 'e) go_call"

type_synonym 'e PolicyLookuper = "gcontext \<Rightarrow> string \<Rightarrow> string \<Rightarrow> (LookupPolicyResponse option, 'e) go_call"

type_synonym 'e Scorer = "gcontext \<Rightarrow> string \<Rightarrow> (string \<rightharpoonup> string) \<Rightarrow> (ScoreResponse option, 'e) go_call"

type_synonym 'e ConfigLoader = "gcontext \<Rightarrow> string \<Rightarrow> string \<Rightarrow> string \<Rightarrow> (config option, 'e) go_call"

record 'e executor =
  x_Load :: "'e ConfigLoader"
  x_Normalize :: "'e AddressNormalizer"
  x_Hash :: "'e ClaimantIDHasher"
  x_Lookup :: "'e PolicyLookuper"
  x_Score :: "'e Scorer"
  x_Publish :: "'e Publisher"
  x_Logger :: "logger option"

definition groupEnrichment :: string where
  "groupEnrichment = ''enrichment''"

definition nodeModelScore :: string where
  "nodeModelScore = ''model_score''"

text \<open>The local variables of \<open>Run\<close> that the enrichment stage assigns.\<close>

record enrichment =
  s_status :: string
  s_normalizedAddress :: string
  s_claimantIDHash :: string
  s_policyStatus :: string
  s_policyCoverageType :: string
  s_addressValid :: bool

definition initial_enrichment :: "ClaimEvent option \<Rightarrow> enrichment" where
  "initial_enrichment claim =
     \<lparr>s_status = ''scored'', s_normalizedAddress = get_str ce_RawAddress claim,
      s_claimantIDHash = '''', s_policyStatus = '''', s_policyCoverageType = '''',
      s_addressValid = False\<rparr>"

text \<open>The arguments of \<open>Run\<close> its stages share, with the context and logger it derives.\<close>

record 'e run_env =
  v_exec :: "'e executor"
  v_cfg :: config
  v_ctx :: gcontext
  v_log :: logger
  v_tenantID :: string
  v_correlationID :: string
  v_claim :: "ClaimEvent option"

text \<open>
  \<open>if err != nil { if !nodeFailureHandled(logger, node, err) { return nil, err }; \<dots>; continue }\<close>
\<close>

definition fail_node :: "logger \<Rightarrow> node \<Rightarrow> gerror \<Rightarrow> 's \<Rightarrow> 'e world \<Rightarrow> ('s, 'e world) body_result" where
  "fail_node l node err s w =
     (case nodeFailureHandled l node err w of
        (ok, w') \<Rightarrow> if \<not> ok then (Inl err, w') else (Inr s, w'))"

definition skip_unrecognized :: "logger \<Rightarrow> node \<Rightarrow> 's \<Rightarrow> 'e world \<Rightarrow> ('s, 'e world) body_result" where
  "skip_unrecognized l node s w =
     (Inr s, log_at Warn l ''unrecognized dag node service, skipping''
        [(''node'', LStr (n_ID node)), (''service'', LStr (n_Service node))] w)"

section \<open>Stage 1: enrichment\<close>

definition enrich_node ::
  "'e run_env \<Rightarrow> node \<Rightarrow> enrichment \<Rightarrow> 'e world \<Rightarrow> (enrichment, 'e world) body_result"
where
  "enrich_node v node s w =
     (let e = v_exec v; cfg = v_cfg v; ctx = v_ctx v; l = v_log v;
          correlationID = v_correlationID v; claim = v_claim v in
      if length (n_DependsOn node) \<noteq> 0 \<or> \<not> EnabledForTenant node (v_tenantID v) then (Inr s, w)
      else if n_Service node = ''claimant-id-hashing-svc'' then
        (case callWithResilience None ctx cfg node
                (\<lambda>c. x_Hash e c correlationID (get_str ce_ClaimantName claim)) w of
           ((hashResp, Some err), w1) \<Rightarrow> fail_node l node err (s\<lparr>s_status := ''degraded''\<rparr>) w1
         | ((hashResp, None), w1) \<Rightarrow>
             (Inr (s\<lparr>s_claimantIDHash := get_str hr_ClaimantIdHash hashResp\<rparr>), w1))
      else if n_Service node = ''address-normalization-svc'' then
        (case callWithResilience None ctx cfg node
                (\<lambda>c. x_Normalize e c correlationID (get_str ce_RawAddress claim)) w of
           ((normResp, Some err), w1) \<Rightarrow> fail_node l node err (s\<lparr>s_status := ''degraded''\<rparr>) w1
         | ((normResp, None), w1) \<Rightarrow>
             (Inr (s\<lparr>s_normalizedAddress := get_str nr_NormalizedAddress normResp,
                     s_addressValid := get_bool nr_Valid normResp\<rparr>), w1))
      else if n_Service node = ''policy-lookup-svc'' then
        (case callWithResilience None ctx cfg node
                (\<lambda>c. x_Lookup e c correlationID (get_str ce_PolicyNumber claim)) w of
           ((lookupResp, Some err), w1) \<Rightarrow> fail_node l node err (s\<lparr>s_status := ''degraded''\<rparr>) w1
         | ((lookupResp, None), w1) \<Rightarrow>
             (Inr (s\<lparr>s_policyStatus := get_str lr_Status lookupResp,
                     s_policyCoverageType := get_str lr_CoverageType lookupResp\<rparr>), w1))
      else skip_unrecognized l node s w)"

section \<open>Stage 2: score\<close>

definition FormatBool :: "bool \<Rightarrow> string" where
  "FormatBool b = (if b then ''true'' else ''false'')"

definition features_of :: "string \<Rightarrow> ClaimEvent option \<Rightarrow> enrichment \<Rightarrow> (string \<rightharpoonup> string)" where
  "features_of tenantID claim s =
     [''tenant_id'' \<mapsto> tenantID,
      ''product'' \<mapsto> get_str ce_Product claim,
      ''event_type'' \<mapsto> get_str ce_EventType claim,
      ''policy_number'' \<mapsto> get_str ce_PolicyNumber claim,
      ''claimant_id_hash'' \<mapsto> s_claimantIDHash s,
      ''normalized_address'' \<mapsto> s_normalizedAddress s,
      ''policy_status'' \<mapsto> s_policyStatus s,
      ''policy_coverage_type'' \<mapsto> s_policyCoverageType s,
      ''address_valid'' \<mapsto> FormatBool (s_addressValid s)]"

definition score_node ::
  "'e run_env \<Rightarrow> enrichment \<Rightarrow> node \<Rightarrow> ScoreResponse option \<Rightarrow> 'e world \<Rightarrow>
     (ScoreResponse option, 'e world) body_result"
where
  "score_node v s node scoreResp w =
     (if \<not> dependsOn node groupEnrichment \<or> \<not> EnabledForTenant node (v_tenantID v) then (Inr scoreResp, w)
      else if n_Service node = ''model-service'' then
        (let features = features_of (v_tenantID v) (v_claim v) s in
         case callWithResilience None (v_ctx v) (v_cfg v) node
                (\<lambda>c. x_Score (v_exec v) c (v_correlationID v) features) w of
           ((resp, Some err), w1) \<Rightarrow> fail_node (v_log v) node err scoreResp w1
         | ((resp, None), w1) \<Rightarrow> (Inr resp, w1))
      else skip_unrecognized (v_log v) node scoreResp w)"

section \<open>Stage 3: publish\<close>

definition GetScore :: "ScoreResponse option \<Rightarrow> float64" where
  "GetScore r = (case r of None \<Rightarrow> Fin 0 | Some x \<Rightarrow> sr_Score x)"

definition event_of :: "'e run_env \<Rightarrow> ScoreResponse option \<Rightarrow> string \<Rightarrow> ScoredClaimEvent" where
  "event_of v scoreResp status =
     \<lparr>ev_ClaimID = get_str ce_ClaimId (v_claim v), ev_CorrelationID = v_correlationID v,
      ev_TenantID = v_tenantID v, ev_Status = status, ev_FraudScore = GetScore scoreResp,
      ev_ModelVersion = get_str sr_ModelVersion scoreResp\<rparr>"

text \<open>\<open>func(ctx) (struct{}, error) { return struct{}{}, e.Publisher.Publish(ctx, event) }\<close>\<close>

definition publish_call :: "'e executor \<Rightarrow> ScoredClaimEvent \<Rightarrow> gcontext \<Rightarrow> (unit, 'e) go_call" where
  "publish_call e event c w = (case x_Publish e c event w of (err, w') \<Rightarrow> (((), err), w'))"

definition publish_node ::
  "'e run_env \<Rightarrow> ScoreResponse option \<Rightarrow> node \<Rightarrow> string \<Rightarrow> 'e world \<Rightarrow> (string, 'e world) body_result"
where
  "publish_node v scoreResp node status w =
     (if \<not> dependsOn node nodeModelScore \<or> \<not> EnabledForTenant node (v_tenantID v) then (Inr status, w)
      else if n_Service node = ''kafka-publisher'' then
        (case callWithResilience () (v_ctx v) (v_cfg v) node
                (publish_call (v_exec v) (event_of v scoreResp status)) w of
           ((u, Some err), w1) \<Rightarrow> fail_node (v_log v) node err ''degraded'' w1
         | ((u, None), w1) \<Rightarrow>
             (Inr status, log_at Info (v_log v) ''published to kafka''
                [(''topic'', LStr TopicClaimsRealtime),
                 (''claim_id'', LStr (get_str ce_ClaimId (v_claim v)))] w1))
      else skip_unrecognized (v_log v) node status w)"

section \<open>Run\<close>

definition no_score_error :: gerror where
  "no_score_error = ErrorString [Lit ''dag: no model_score result produced'']"

definition result_of :: "enrichment \<Rightarrow> ScoreResponse option \<Rightarrow> string \<Rightarrow> dag_result" where
  "result_of s scoreResp status =
     \<lparr>r_Status = status, r_NormalizedAddress = s_normalizedAddress s,
      r_FraudScore = GetScore scoreResp, r_ModelVersion = get_str sr_ModelVersion scoreResp\<rparr>"

definition run_stages :: "'e run_env \<Rightarrow> (dag_result option, 'e) go_call" where
  "run_stages v w =
     (case range_loop (enrich_node v) (c_Nodes (v_cfg v)) (initial_enrichment (v_claim v)) w of
        (Inl err, w1) \<Rightarrow> ((None, Some err), w1)
      | (Inr s, w1) \<Rightarrow>
          (case range_loop (score_node v s) (c_Nodes (v_cfg v)) None w1 of
             (Inl err, w2) \<Rightarrow> ((None, Some err), w2)
           | (Inr scoreResp, w2) \<Rightarrow>
               if scoreResp = None then ((None, Some no_score_error), w2)
               else
                 (case range_loop (publish_node v scoreResp) (c_Nodes (v_cfg v)) (s_status s) w2 of
                    (Inl err, w3) \<Rightarrow> ((None, Some err), w3)
                  | (Inr status, w3) \<Rightarrow> ((Some (result_of s scoreResp status), None), w3))))"

definition run_context :: "gcontext \<Rightarrow> string \<Rightarrow> string \<Rightarrow> gcontext" where
  "run_context ctx tenantID correlationID =
     WithTenantID (WithCorrelationID ctx correlationID) tenantID"

text \<open>What the stages of a run see: \<open>ctx\<close> is the context derived by \<open>run_context\<close>.\<close>

definition run_env_of ::
  "'e executor \<Rightarrow> gcontext \<Rightarrow> string \<Rightarrow> string \<Rightarrow> ClaimEvent option \<Rightarrow> config \<Rightarrow> 'e run_env"
where
  "run_env_of e ctx tenantID correlationID claim cfg =
     \<lparr>v_exec = e, v_cfg = cfg, v_ctx = ctx, v_log = FromContext ctx (x_Logger e),
      v_tenantID = tenantID, v_correlationID = correlationID, v_claim = claim\<rparr>"

definition Run ::
  "'e executor \<Rightarrow> gcontext \<Rightarrow> string \<Rightarrow> string \<Rightarrow> ClaimEvent option \<Rightarrow> (dag_result option, 'e) go_call"
where
  "Run e ctx0 tenantID correlationID claim w =
     (let ctx = run_context ctx0 tenantID correlationID
      in case x_Load e ctx tenantID (get_str ce_Product claim) (get_str ce_EventType claim) w of
           ((cfg, Some err), w1) \<Rightarrow> ((None, Some (WrapError [Lit ''load dag config''] err)), w1)
         | ((None, None), w1) \<Rightarrow> ((None, Some (GoPanic [Lit ''nil pointer dereference''])), w1)
         | ((Some cfg, None), w1) \<Rightarrow>
             run_stages (run_env_of e ctx tenantID correlationID claim cfg) w1)"

end
