(* ===== verification/ExecutorFacts.thy ===== *)
theory ExecutorFacts
  imports Executor
begin

text \<open>
  The facts about \<open>Executor.Run\<close>. Every stage of a run is split into what the downstream calls
  answered (a trace of outcomes, one per node the stage runs) and a pure function of that trace.
  The locale \<open>dag_stage\<close> states this shape once; it is interpreted on the three stage bodies of
  the model, and the properties of \<open>Run\<close> are read off the traces.
\<close>

section \<open>Traces of a stage\<close>

fun stage_trace ::
  "(node \<Rightarrow> bool) \<Rightarrow> (node \<Rightarrow> 's \<Rightarrow> 'w \<Rightarrow> 'o \<times> 'w) \<Rightarrow> (node \<Rightarrow> 'o \<Rightarrow> gerror option) \<Rightarrow> ('o \<Rightarrow> 's \<Rightarrow> 's) \<Rightarrow>
     node list \<Rightarrow> 's \<Rightarrow> 'w \<Rightarrow> (node \<times> 'o) list \<times> 'w"
where
  "stage_trace select call aborts apply_o [] s w = ([], w)"
| "stage_trace select call aborts apply_o (n # ns) s w =
     (if \<not> select n then stage_trace select call aborts apply_o ns s w
      else case call n s w of
        (out, w1) \<Rightarrow>
          (case aborts n out of
             Some err \<Rightarrow> ([(n, out)], w1)
           | None \<Rightarrow>
               (case stage_trace select call aborts apply_o ns (apply_o out s) w1 of
                  (outs, w2) \<Rightarrow> ((n, out) # outs, w2))))"

text \<open>The verdict on a trace: the first outcome that aborts the run, else the updated variables.\<close>

fun stage_verdict ::
  "(node \<Rightarrow> 'o \<Rightarrow> gerror option) \<Rightarrow> ('o \<Rightarrow> 's \<Rightarrow> 's) \<Rightarrow> (node \<times> 'o) list \<Rightarrow> 's \<Rightarrow> gerror + 's"
where
  "stage_verdict aborts apply_o [] s = Inr s"
| "stage_verdict aborts apply_o ((n, out) # outs) s =
     (case aborts n out of
        Some err \<Rightarrow> Inl err
      | None \<Rightarrow> stage_verdict aborts apply_o outs (apply_o out s))"

locale dag_stage =
  fixes body :: "node \<Rightarrow> 's \<Rightarrow> 'w \<Rightarrow> ('s, 'w) body_result"
    and select :: "node \<Rightarrow> bool"
    and call :: "node \<Rightarrow> 's \<Rightarrow> 'w \<Rightarrow> 'o \<times> 'w"
    and aborts :: "node \<Rightarrow> 'o \<Rightarrow> gerror option"
    and apply_o :: "'o \<Rightarrow> 's \<Rightarrow> 's"
  assumes body_skip: "\<not> select n \<Longrightarrow> body n s w = (Inr s, w)"
    and body_call: "select n \<Longrightarrow> body n s w =
      (case call n s w of (out, w') \<Rightarrow>
         (case aborts n out of Some err \<Rightarrow> (Inl err, w') | None \<Rightarrow> (Inr (apply_o out s), w')))"
begin

lemma loop_trace:
  "range_loop body ns s w =
     (case stage_trace select call aborts apply_o ns s w of
        (outs, w') \<Rightarrow> (stage_verdict aborts apply_o outs s, w'))"
  by (induction ns arbitrary: s w) (auto simp: body_skip body_call split: prod.splits option.splits)

lemma loop_filter: "range_loop body ns s w = range_loop body (filter select ns) s w"
  by (rule range_loop_filter) (simp add: body_skip)

text \<open>Every entry of a trace is the outcome of a call of a selected node.\<close>

lemma trace_called:
  "stage_trace select call aborts apply_o ns s w = (outs, w') \<Longrightarrow> (n, out) \<in> set outs \<Longrightarrow>
     n \<in> set ns \<and> select n \<and> (\<exists>s1 w1 w2. call n s1 w1 = (out, w2))"
  by (induction ns arbitrary: s w outs) (auto split: prod.splits option.splits if_splits, blast+)

text \<open>A trace without an aborting outcome covers every selected node, in order.\<close>

lemma trace_complete:
  assumes "stage_trace select call aborts apply_o ns s w = (outs, w')"
    and "stage_verdict aborts apply_o outs s = Inr s'"
  shows "map fst outs = filter select ns"
  using assms
  by (induction ns arbitrary: s w outs) (auto split: prod.splits option.splits if_splits)

text \<open>An aborted stage ends with the call of a selected node whose outcome aborts.\<close>

lemma trace_abort:
  assumes "stage_trace select call aborts apply_o ns s w = (outs, w')"
    and "stage_verdict aborts apply_o outs s = Inl err"
  shows "\<exists>n\<in>set ns. \<exists>s1 w1 out. select n \<and> call n s1 w1 = (out, w') \<and> aborts n out = Some err"
  using assms
  by (induction ns arbitrary: s w outs)
    (auto split: prod.splits option.splits if_splits, blast+)

text \<open>A bound on what each call adds to a measure of the world bounds the stage.\<close>

lemma trace_cost:
  fixes time :: "'w \<Rightarrow> int"
  assumes "stage_trace select call aborts apply_o ns s w = (outs, w')"
    and cost: "\<And>n s w out w'. call n s w = (out, w') \<Longrightarrow> time w' \<le> time w + cost n"
    and pos: "\<And>n. 0 \<le> cost n"
  shows "time w' \<le> time w + sum_list (map cost (filter select ns))"
  using assms(1)
proof (induction ns arbitrary: s w outs)
  case (Cons n ns)
  have sum: "0 \<le> sum_list (map cost (filter select ns))"
    by (rule sum_list_nonneg) (auto simp: pos)
  obtain out w1 where c: "call n s w = (out, w1)" by fastforce
  have "\<lbrakk>stage_trace select call aborts apply_o ns (apply_o out s) w1 = (outs', w')\<rbrakk> \<Longrightarrow>
      time w' \<le> time w1 + sum_list (map cost (filter select ns))" for outs'
    by (rule Cons.IH)
  with Cons cost [OF c] c sum show ?case
    by (fastforce split: prod.splits option.splits if_splits)
qed simp

end

lemma verdict_Inr_iff:
  "stage_verdict aborts apply_o outs s = Inr s' \<longleftrightarrow>
     (\<forall>(n, out) \<in> set outs. aborts n out = None) \<and> s' = fold (\<lambda>(n, out). apply_o out) outs s"
  by (induction outs arbitrary: s) (auto split: option.splits)

lemma verdict_Inl:
  "stage_verdict aborts apply_o outs s = Inl err \<Longrightarrow>
     \<exists>xs n out ys. outs = xs @ (n, out) # ys \<and> aborts n out = Some err \<and>
       (\<forall>(m, o') \<in> set xs. aborts m o' = None)"
proof (induction outs arbitrary: s)
  case (Cons x outs)
  obtain n out where x: "x = (n, out)" by fastforce
  show ?case
  proof (cases "aborts n out")
    case (Some e)
    with Cons.prems x show ?thesis by (intro exI [of _ "[]"]) auto
  next
    case None
    with Cons.prems x obtain xs m o1 ys where "outs = xs @ (m, o1) # ys" "aborts m o1 = Some err"
      "\<forall>(m, o') \<in> set xs. aborts m o' = None"
      using Cons.IH [of "apply_o out s"] by auto
    with None x show ?thesis by (intro exI [of _ "x # xs"]) auto
  qed
qed simp

section \<open>Outcomes of the three stages\<close>

datatype enrich_outcome =
    Hashed string
  | Normalized string bool
  | PolicyAnswer string string
  | EnrichFailed gerror
  | EnrichUnknown

datatype score_outcome = ScoredAs "ScoreResponse option" | ScoreFailed gerror | ScoreUnknown

datatype publish_outcome = Published | PublishFailed gerror | PublishUnknown

definition log_failure :: "logger \<Rightarrow> node \<Rightarrow> gerror \<Rightarrow> 'e world \<Rightarrow> 'e world" where
  "log_failure l node err w = snd (nodeFailureHandled l node err w)"

definition log_unrecognized :: "logger \<Rightarrow> node \<Rightarrow> 'e world \<Rightarrow> 'e world" where
  "log_unrecognized l node w = snd (skip_unrecognized l node () w)"

definition failure_aborts :: "node \<Rightarrow> gerror \<Rightarrow> gerror option" where
  "failure_aborts node err = (if handled node then None else Some err)"

definition enrich_select :: "'e run_env \<Rightarrow> node \<Rightarrow> bool" where
  "enrich_select v node \<longleftrightarrow> n_DependsOn node = [] \<and> EnabledForTenant node (v_tenantID v)"

definition enrich_call :: "'e run_env \<Rightarrow> node \<Rightarrow> enrichment \<Rightarrow> 'e world \<Rightarrow> enrich_outcome \<times> 'e world" where
  "enrich_call v node s w =
     (if n_Service node = ''claimant-id-hashing-svc'' then
        (case callWithResilience None (v_ctx v) (v_cfg v) node
                (\<lambda>c. x_Hash (v_exec v) c (v_correlationID v) (get_str ce_ClaimantName (v_claim v))) w of
           ((r, Some err), w1) \<Rightarrow> (EnrichFailed err, log_failure (v_log v) node err w1)
         | ((r, None), w1) \<Rightarrow> (Hashed (get_str hr_ClaimantIdHash r), w1))
      else if n_Service node = ''address-normalization-svc'' then
        (case callWithResilience None (v_ctx v) (v_cfg v) node
                (\<lambda>c. x_Normalize (v_exec v) c (v_correlationID v) (get_str ce_RawAddress (v_claim v))) w of
           ((r, Some err), w1) \<Rightarrow> (EnrichFailed err, log_failure (v_log v) node err w1)
         | ((r, None), w1) \<Rightarrow> (Normalized (get_str nr_NormalizedAddress r) (get_bool nr_Valid r), w1))
      else if n_Service node = ''policy-lookup-svc'' then
        (case callWithResilience None (v_ctx v) (v_cfg v) node
                (\<lambda>c. x_Lookup (v_exec v) c (v_correlationID v) (get_str ce_PolicyNumber (v_claim v))) w of
           ((r, Some err), w1) \<Rightarrow> (EnrichFailed err, log_failure (v_log v) node err w1)
         | ((r, None), w1) \<Rightarrow> (PolicyAnswer (get_str lr_Status r) (get_str lr_CoverageType r), w1))
      else (EnrichUnknown, log_unrecognized (v_log v) node w))"

fun enrich_aborts :: "node \<Rightarrow> enrich_outcome \<Rightarrow> gerror option" where
  "enrich_aborts node (EnrichFailed err) = failure_aborts node err"
| "enrich_aborts node out = None"

fun enrich_apply :: "enrich_outcome \<Rightarrow> enrichment \<Rightarrow> enrichment" where
  "enrich_apply (Hashed h) s = s\<lparr>s_claimantIDHash := h\<rparr>"
| "enrich_apply (Normalized a b) s = s\<lparr>s_normalizedAddress := a, s_addressValid := b\<rparr>"
| "enrich_apply (PolicyAnswer p c) s = s\<lparr>s_policyStatus := p, s_policyCoverageType := c\<rparr>"
| "enrich_apply (EnrichFailed err) s = s\<lparr>s_status := ''degraded''\<rparr>"
| "enrich_apply EnrichUnknown s = s"

definition score_select :: "'e run_env \<Rightarrow> node \<Rightarrow> bool" where
  "score_select v node \<longleftrightarrow> dependsOn node groupEnrichment \<and> EnabledForTenant node (v_tenantID v)"

definition score_call ::
  "'e run_env \<Rightarrow> enrichment \<Rightarrow> node \<Rightarrow> ScoreResponse option \<Rightarrow> 'e world \<Rightarrow> score_outcome \<times> 'e world"
where
  "score_call v s node scoreResp w =
     (if n_Service node = ''model-service'' then
        (case callWithResilience None (v_ctx v) (v_cfg v) node
                (\<lambda>c. x_Score (v_exec v) c (v_correlationID v) (features_of (v_tenantID v) (v_claim v) s)) w of
           ((r, Some err), w1) \<Rightarrow> (ScoreFailed err, log_failure (v_log v) node err w1)
         | ((r, None), w1) \<Rightarrow> (ScoredAs r, w1))
      else (ScoreUnknown, log_unrecognized (v_log v) node w))"

fun score_aborts :: "node \<Rightarrow> score_outcome \<Rightarrow> gerror option" where
  "score_aborts node (ScoreFailed err) = failure_aborts node err"
| "score_aborts node out = None"

fun score_apply :: "score_outcome \<Rightarrow> ScoreResponse option \<Rightarrow> ScoreResponse option" where
  "score_apply (ScoredAs r) old = r"
| "score_apply out old = old"

definition publish_select :: "'e run_env \<Rightarrow> node \<Rightarrow> bool" where
  "publish_select v node \<longleftrightarrow> dependsOn node nodeModelScore \<and> EnabledForTenant node (v_tenantID v)"

definition publish_outcome_of ::
  "'e run_env \<Rightarrow> ScoreResponse option \<Rightarrow> node \<Rightarrow> string \<Rightarrow> 'e world \<Rightarrow> publish_outcome \<times> 'e world"
where
  "publish_outcome_of v scoreResp node status w =
     (if n_Service node = ''kafka-publisher'' then
        (case callWithResilience () (v_ctx v) (v_cfg v) node
                (publish_call (v_exec v) (event_of v scoreResp status)) w of
           ((u, Some err), w1) \<Rightarrow> (PublishFailed err, log_failure (v_log v) node err w1)
         | ((u, None), w1) \<Rightarrow>
             (Published, log_at Info (v_log v) ''published to kafka''
                [(''topic'', LStr TopicClaimsRealtime),
                 (''claim_id'', LStr (get_str ce_ClaimId (v_claim v)))] w1))
      else (PublishUnknown, log_unrecognized (v_log v) node w))"

fun publish_aborts :: "node \<Rightarrow> publish_outcome \<Rightarrow> gerror option" where
  "publish_aborts node (PublishFailed err) = failure_aborts node err"
| "publish_aborts node out = None"

fun publish_apply :: "publish_outcome \<Rightarrow> string \<Rightarrow> string" where
  "publish_apply (PublishFailed err) status = ''degraded''"
| "publish_apply out status = status"

section \<open>The three stages are stages\<close>

lemma fail_node_eq:
  "fail_node l node err s w =
     ((case failure_aborts node err of None \<Rightarrow> Inr s | Some e \<Rightarrow> Inl e), log_failure l node err w)"
  by (cases "nodeFailureHandled l node err w")
    (use nodeFailureHandled_fst [of l node err w] in
      \<open>auto simp: fail_node_def failure_aborts_def log_failure_def\<close>)

lemma skip_unrecognized_eq: "skip_unrecognized l node s w = (Inr s, log_unrecognized l node w)"
  by (simp add: skip_unrecognized_def log_unrecognized_def)

interpretation enrich_stage: dag_stage "enrich_node v" "enrich_select v" "enrich_call v" enrich_aborts enrich_apply
  for v :: "'e run_env"
  by unfold_locales
    (auto simp: enrich_node_def enrich_select_def enrich_call_def fail_node_eq skip_unrecognized_eq Let_def
      split: prod.splits option.splits)

interpretation score_stage: dag_stage "score_node v s" "score_select v" "score_call v s" score_aborts score_apply
  for v :: "'e run_env" and s :: enrichment
  by unfold_locales
    (auto simp: score_node_def score_select_def score_call_def fail_node_eq skip_unrecognized_eq Let_def
      split: prod.splits option.splits)

interpretation publish_stage: dag_stage "publish_node v r" "publish_select v" "publish_outcome_of v r"
    publish_aborts publish_apply
  for v :: "'e run_env" and r :: "ScoreResponse option"
  by unfold_locales
    (auto simp: publish_node_def publish_select_def publish_outcome_of_def fail_node_eq skip_unrecognized_eq Let_def
      split: prod.splits option.splits)

section \<open>Reading a trace\<close>

abbreviation enrich_trace :: "'e run_env \<Rightarrow> 'e world \<Rightarrow> (node \<times> enrich_outcome) list \<times> 'e world" where
  "enrich_trace v w \<equiv> stage_trace (enrich_select v) (enrich_call v) enrich_aborts enrich_apply
     (c_Nodes (v_cfg v)) (initial_enrichment (v_claim v)) w"

abbreviation score_trace ::
  "'e run_env \<Rightarrow> enrichment \<Rightarrow> 'e world \<Rightarrow> (node \<times> score_outcome) list \<times> 'e world"
where
  "score_trace v s w \<equiv> stage_trace (score_select v) (score_call v s) score_aborts score_apply
     (c_Nodes (v_cfg v)) None w"

abbreviation publish_trace ::
  "'e run_env \<Rightarrow> ScoreResponse option \<Rightarrow> string \<Rightarrow> 'e world \<Rightarrow> (node \<times> publish_outcome) list \<times> 'e world"
where
  "publish_trace v r status w \<equiv> stage_trace (publish_select v) (publish_outcome_of v r) publish_aborts
     publish_apply (c_Nodes (v_cfg v)) status w"

definition enrich_failed :: "(node \<times> enrich_outcome) list \<Rightarrow> bool" where
  "enrich_failed outs \<longleftrightarrow> (\<exists>n err. (n, EnrichFailed err) \<in> set outs)"

definition publish_failed :: "(node \<times> publish_outcome) list \<Rightarrow> bool" where
  "publish_failed outs \<longleftrightarrow> (\<exists>n err. (n, PublishFailed err) \<in> set outs)"

text \<open>The value of the last outcome that provides one, else a default.\<close>

definition last_or :: "'b \<Rightarrow> ('o \<Rightarrow> 'b option) \<Rightarrow> (node \<times> 'o) list \<Rightarrow> 'b" where
  "last_or d f outs = last (d # List.map_filter (\<lambda>(n, out). f out) outs)"

fun hash_in :: "enrich_outcome \<Rightarrow> string option" where
  "hash_in (Hashed h) = Some h"
| "hash_in out = None"

fun address_in :: "enrich_outcome \<Rightarrow> (string \<times> bool) option" where
  "address_in (Normalized a b) = Some (a, b)"
| "address_in out = None"

fun policy_in :: "enrich_outcome \<Rightarrow> (string \<times> string) option" where
  "policy_in (PolicyAnswer p c) = Some (p, c)"
| "policy_in out = None"

fun score_in :: "score_outcome \<Rightarrow> ScoreResponse option option" where
  "score_in (ScoredAs r) = Some r"
| "score_in out = None"

text \<open>What the enrichment variables hold after a trace, field by field.\<close>

definition enrichment_after :: "ClaimEvent option \<Rightarrow> (node \<times> enrich_outcome) list \<Rightarrow> enrichment" where
  "enrichment_after claim outs =
     \<lparr>s_status = (if enrich_failed outs then ''degraded'' else ''scored''),
      s_normalizedAddress = fst (last_or (get_str ce_RawAddress claim, False) address_in outs),
      s_claimantIDHash = last_or '''' hash_in outs,
      s_policyStatus = fst (last_or ('''', '''') policy_in outs),
      s_policyCoverageType = snd (last_or ('''', '''') policy_in outs),
      s_addressValid = snd (last_or (get_str ce_RawAddress claim, False) address_in outs)\<rparr>"

lemma last_or_Nil [simp]: "last_or d f [] = d"
  by (simp add: last_or_def List.map_filter_def)

lemma last_or_Cons [simp]:
  "last_or d f ((n, out) # outs) = last_or (case f out of None \<Rightarrow> d | Some x \<Rightarrow> x) f outs"
  by (simp add: last_or_def List.map_filter_def split: option.split)

lemma enrich_failed_simps [simp]:
  "enrich_failed [] = False"
  "enrich_failed ((n, out) # outs) \<longleftrightarrow> (\<exists>err. out = EnrichFailed err) \<or> enrich_failed outs"
  by (auto simp: enrich_failed_def)

lemma publish_failed_simps [simp]:
  "publish_failed [] = False"
  "publish_failed ((n, out) # outs) \<longleftrightarrow> (\<exists>err. out = PublishFailed err) \<or> publish_failed outs"
  by (auto simp: publish_failed_def)

lemma fold_enrich_apply:
  "fold (\<lambda>(n, out). enrich_apply out) outs s =
     \<lparr>s_status = (if enrich_failed outs then ''degraded'' else s_status s),
      s_normalizedAddress = fst (last_or (s_normalizedAddress s, s_addressValid s) address_in outs),
      s_claimantIDHash = last_or (s_claimantIDHash s) hash_in outs,
      s_policyStatus = fst (last_or (s_policyStatus s, s_policyCoverageType s) policy_in outs),
      s_policyCoverageType = snd (last_or (s_policyStatus s, s_policyCoverageType s) policy_in outs),
      s_addressValid = snd (last_or (s_normalizedAddress s, s_addressValid s) address_in outs)\<rparr>"
proof (induction outs arbitrary: s)
  case (Cons x outs)
  obtain n out where "x = (n, out)" by fastforce
  with Cons show ?case by (cases out) simp_all
qed simp

lemma fold_enrich_initial:
  "fold (\<lambda>(n, out). enrich_apply out) outs (initial_enrichment claim) = enrichment_after claim outs"
  by (simp add: fold_enrich_apply enrichment_after_def initial_enrichment_def)

lemma fold_score_apply:
  "fold (\<lambda>(n, out). score_apply out) outs r = last_or r score_in outs"
proof (induction outs arbitrary: r)
  case (Cons x outs)
  obtain n out where "x = (n, out)" by fastforce
  with Cons show ?case by (cases out) simp_all
qed simp

lemma fold_publish_apply:
  "fold (\<lambda>(n, out). publish_apply out) outs status = (if publish_failed outs then ''degraded'' else status)"
proof (induction outs arbitrary: status)
  case (Cons x outs)
  obtain n out where "x = (n, out)" by fastforce
  with Cons show ?case by (cases out) simp_all
qed simp

section \<open>A run through its traces\<close>

text \<open>The three verdicts a run goes through, with the exit each of them can take.\<close>

lemma run_stages_cases:
  assumes "run_stages v w = (res, w')"
  obtains
    (enrich_abort) outs err where "enrich_trace v w = (outs, w')"
      "stage_verdict enrich_aborts enrich_apply outs (initial_enrichment (v_claim v)) = Inl err"
      "res = (None, Some err)"
  | (score_abort) outs1 w1 outs2 err where "enrich_trace v w = (outs1, w1)"
      "stage_verdict enrich_aborts enrich_apply outs1 (initial_enrichment (v_claim v)) = Inr (enrichment_after (v_claim v) outs1)"
      "score_trace v (enrichment_after (v_claim v) outs1) w1 = (outs2, w')"
      "stage_verdict score_aborts score_apply outs2 None = Inl err"
      "res = (None, Some err)"
  | (no_score) outs1 w1 outs2 where "enrich_trace v w = (outs1, w1)"
      "stage_verdict enrich_aborts enrich_apply outs1 (initial_enrichment (v_claim v)) = Inr (enrichment_after (v_claim v) outs1)"
      "score_trace v (enrichment_after (v_claim v) outs1) w1 = (outs2, w')"
      "stage_verdict score_aborts score_apply outs2 None = Inr None"
      "last_or None score_in outs2 = None"
      "res = (None, Some no_score_error)"
  | (publish_abort) outs1 w1 outs2 w2 r outs3 err where "enrich_trace v w = (outs1, w1)"
      "stage_verdict enrich_aborts enrich_apply outs1 (initial_enrichment (v_claim v)) = Inr (enrichment_after (v_claim v) outs1)"
      "score_trace v (enrichment_after (v_claim v) outs1) w1 = (outs2, w2)"
      "stage_verdict score_aborts score_apply outs2 None = Inr (Some r)"
      "last_or None score_in outs2 = Some r"
      "publish_trace v (Some r) (s_status (enrichment_after (v_claim v) outs1)) w2 = (outs3, w')"
      "stage_verdict publish_aborts publish_apply outs3 (s_status (enrichment_after (v_claim v) outs1)) = Inl err"
      "res = (None, Some err)"
  | (finished) outs1 w1 outs2 w2 r outs3 where "enrich_trace v w = (outs1, w1)"
      "stage_verdict enrich_aborts enrich_apply outs1 (initial_enrichment (v_claim v)) = Inr (enrichment_after (v_claim v) outs1)"
      "score_trace v (enrichment_after (v_claim v) outs1) w1 = (outs2, w2)"
      "stage_verdict score_aborts score_apply outs2 None = Inr (Some r)"
      "last_or None score_in outs2 = Some r"
      "publish_trace v (Some r) (s_status (enrichment_after (v_claim v) outs1)) w2 = (outs3, w')"
      "\<forall>(n, out) \<in> set outs3. publish_aborts n out = None"
      "res = (Some (result_of (enrichment_after (v_claim v) outs1) (Some r)
                (if publish_failed outs3 then ''degraded'' else s_status (enrichment_after (v_claim v) outs1))), None)"
proof -
  let ?s = "\<lambda>outs. enrichment_after (v_claim v) outs"
  obtain outs1 w1 where t1: "enrich_trace v w = (outs1, w1)" by fastforce
  let ?v1 = "stage_verdict enrich_aborts enrich_apply outs1 (initial_enrichment (v_claim v))"
  obtain outs2 w2 where t2: "score_trace v (?s outs1) w1 = (outs2, w2)" by fastforce
  let ?v2 = "stage_verdict score_aborts score_apply outs2 None"
  have s1: "?v1 = Inr s \<Longrightarrow> s = ?s outs1" for s
    by (auto simp: verdict_Inr_iff fold_enrich_initial)
  have s2: "?v2 = Inr r \<Longrightarrow> r = last_or None score_in outs2" for r
    by (auto simp: verdict_Inr_iff fold_score_apply)
  note unfold = run_stages_def enrich_stage.loop_trace score_stage.loop_trace publish_stage.loop_trace
  consider (1) err where "?v1 = Inl err" | (2) err where "?v1 = Inr (?s outs1)" "?v2 = Inl err"
    | (3) "?v1 = Inr (?s outs1)" "?v2 = Inr None" | (4) r where "?v1 = Inr (?s outs1)" "?v2 = Inr (Some r)"
    using s1 by (metis not_Some_eq sum.exhaust)
  then show ?thesis
  proof cases
    case 4
    then have l: "last_or None score_in outs2 = Some r" using s2 by simp
    obtain outs3 w3 where t3: "publish_trace v (Some r) (s_status (?s outs1)) w2 = (outs3, w3)"
      by fastforce
    show ?thesis
    proof (cases "stage_verdict publish_aborts publish_apply outs3 (s_status (?s outs1))")
      case (Inl err)
      with 4 t1 t2 t3 l assms publish_abort show ?thesis by (simp add: unfold)
    next
      case (Inr st)
      then have "\<forall>(n, out) \<in> set outs3. publish_aborts n out = None"
        "st = (if publish_failed outs3 then ''degraded'' else s_status (?s outs1))"
        by (auto simp: verdict_Inr_iff fold_publish_apply)
      with Inr 4 t1 t2 t3 l assms finished show ?thesis by (simp add: unfold)
    qed
  qed (use t1 t2 s2 assms enrich_abort score_abort no_score in \<open>simp_all add: unfold\<close>)
qed

end
