(* ===== verification/ExecutorCong.thy ===== *)
theory ExecutorCong
  imports ExecutorFacts
begin

text \<open>
  What a run depends on. Two run environments that agree on the inputs the stages read, on the answers
  of the services in contexts derived from the run's own, and, stage by stage, on the selected nodes, give
  the same run. The equivalence and confinement properties of \<open>Run\<close> are instances of
  \<open>run_stages_cong\<close>.
\<close>

section \<open>Congruence of a call\<close>

text \<open>A retry loop only calls its function in contexts derived from the caller's.\<close>

lemma retry_from_cong:
  assumes eq: "\<And>t w. fn (WithTimeout ctx t timeout) w = fn' (WithTimeout ctx t timeout) w"
  shows "retry_from zero ctx timeout fn m a le w = retry_from zero ctx timeout fn' m a le w"
proof -
  obtain r w' where "retry_from zero ctx timeout fn m a le w = (r, w')" by fastforce
  then have "retry_from zero ctx timeout fn' m a le w = (r, w')"
  proof (induction rule: retry_from_induct)
    case (again a le w resp err w1 w2 r w')
    then show ?case by (simp add: retry_from.simps [of _ _ _ _ _ a] eq)
  next
    case (final a le w resp err w')
    then show ?case
      by (simp add: retry_from.simps [of _ _ _ _ _ m] retry_from.simps [of _ _ _ _ _ "m + 1"] eq)
  qed (simp_all add: retry_from.simps eq)
  with \<open>retry_from zero ctx timeout fn m a le w = (r, w')\<close> show ?thesis by simp
qed

lemma callWithResilience_cong:
  assumes "nodeTimeout cfg node = nodeTimeout cfg' node"
    and "\<And>t w. fn (WithTimeout ctx t (nodeTimeout cfg' node)) w = fn' (WithTimeout ctx t (nodeTimeout cfg' node)) w"
  shows "callWithResilience zero ctx cfg node fn w = callWithResilience zero ctx cfg' node fn' w"
  using assms retry_from_cong [of fn ctx "nodeTimeout cfg' node" fn'] by (simp add: callWithResilience_def)

text \<open>A context derived from the run's own: same identity, same metadata, and a deadline.\<close>

definition derived_from :: "gcontext \<Rightarrow> gcontext \<Rightarrow> bool" where
  "derived_from ctx c \<longleftrightarrow> ctx_values c = ctx_values ctx \<and> incoming_md c = incoming_md ctx \<and>
     outgoing_md c = outgoing_md ctx \<and> deadline c \<noteq> None"

lemma derived_WithTimeout [simp]: "derived_from ctx (WithTimeout ctx t d)"
  by (simp add: derived_from_def WithTimeout_deadline)

text \<open>
  Two run environments that agree on everything the stages read: the same node timeouts, the same
  selected nodes, and services that answer alike in derived contexts on the arguments of this run.
\<close>

definition same_inputs :: "'e run_env \<Rightarrow> 'e run_env \<Rightarrow> bool" where
  "same_inputs v v' \<longleftrightarrow>
     v_ctx v' = v_ctx v \<and> v_log v' = v_log v \<and> v_tenantID v' = v_tenantID v \<and>
     v_correlationID v' = v_correlationID v \<and>
     c_TimeoutMs (v_cfg v') = c_TimeoutMs (v_cfg v) \<and>
     get_str ce_ClaimId (v_claim v') = get_str ce_ClaimId (v_claim v) \<and>
     get_str ce_RawAddress (v_claim v') = get_str ce_RawAddress (v_claim v) \<and>
     (\<forall>s. features_of (v_tenantID v) (v_claim v') s = features_of (v_tenantID v) (v_claim v) s)"

definition same_answers :: "'e run_env \<Rightarrow> 'e run_env \<Rightarrow> gcontext \<Rightarrow> bool" where
  "same_answers v v' c \<longleftrightarrow>
     x_Hash (v_exec v) c (v_correlationID v) (get_str ce_ClaimantName (v_claim v)) =
       x_Hash (v_exec v') c (v_correlationID v) (get_str ce_ClaimantName (v_claim v')) \<and>
     x_Normalize (v_exec v) c (v_correlationID v) (get_str ce_RawAddress (v_claim v)) =
       x_Normalize (v_exec v') c (v_correlationID v) (get_str ce_RawAddress (v_claim v)) \<and>
     x_Lookup (v_exec v) c (v_correlationID v) (get_str ce_PolicyNumber (v_claim v)) =
       x_Lookup (v_exec v') c (v_correlationID v) (get_str ce_PolicyNumber (v_claim v')) \<and>
     (\<forall>s. x_Score (v_exec v) c (v_correlationID v) (features_of (v_tenantID v) (v_claim v) s) =
          x_Score (v_exec v') c (v_correlationID v) (features_of (v_tenantID v) (v_claim v) s)) \<and>
     (\<forall>r st. st \<in> {''scored'', ''degraded''} \<longrightarrow>
          x_Publish (v_exec v) c (event_of v r st) = x_Publish (v_exec v') c (event_of v r st))"

definition same_calls :: "'e run_env \<Rightarrow> 'e run_env \<Rightarrow> bool" where
  "same_calls v v' \<longleftrightarrow> same_inputs v v' \<and> (\<forall>c. derived_from (v_ctx v) c \<longrightarrow> same_answers v v' c)"

lemma same_calls_fields:
  assumes "same_calls v v'"
  shows "v_ctx v' = v_ctx v" "v_log v' = v_log v" "v_tenantID v' = v_tenantID v"
    "v_correlationID v' = v_correlationID v" "c_TimeoutMs (v_cfg v') = c_TimeoutMs (v_cfg v)"
    "get_str ce_ClaimId (v_claim v') = get_str ce_ClaimId (v_claim v)"
    "get_str ce_RawAddress (v_claim v') = get_str ce_RawAddress (v_claim v)"
    "features_of (v_tenantID v) (v_claim v') s = features_of (v_tenantID v) (v_claim v) s"
  using assms by (simp_all add: same_calls_def same_inputs_def)

lemma same_calls_services:
  assumes "same_calls v v'" and "derived_from (v_ctx v) c"
  shows "same_answers v v' c"
  using assms by (simp add: same_calls_def)

lemma nodeTimeout_cong: "c_TimeoutMs cfg = c_TimeoutMs cfg' \<Longrightarrow> nodeTimeout cfg node = nodeTimeout cfg' node"
  by (simp add: nodeTimeout_def)

lemma run_call_cong:
  assumes "same_calls v v'"
    and "\<And>c w. derived_from (v_ctx v) c \<Longrightarrow> f c w = f' c w"
  shows "callWithResilience zero (v_ctx v) (v_cfg v) n f w = callWithResilience zero (v_ctx v) (v_cfg v') n f' w"
  by (intro callWithResilience_cong nodeTimeout_cong assms(2))
    (simp_all add: same_calls_fields [OF assms(1)])

lemma run_calls_cong:
  assumes same: "same_calls v v'"
  shows "callWithResilience None (v_ctx v) (v_cfg v) n
      (\<lambda>c. x_Hash (v_exec v) c (v_correlationID v) (get_str ce_ClaimantName (v_claim v))) w =
    callWithResilience None (v_ctx v) (v_cfg v') n
      (\<lambda>c. x_Hash (v_exec v') c (v_correlationID v) (get_str ce_ClaimantName (v_claim v'))) w"
   and "callWithResilience None (v_ctx v) (v_cfg v) n
      (\<lambda>c. x_Normalize (v_exec v) c (v_correlationID v) (get_str ce_RawAddress (v_claim v))) w =
    callWithResilience None (v_ctx v) (v_cfg v') n
      (\<lambda>c. x_Normalize (v_exec v') c (v_correlationID v) (get_str ce_RawAddress (v_claim v))) w"
   and "callWithResilience None (v_ctx v) (v_cfg v) n
      (\<lambda>c. x_Lookup (v_exec v) c (v_correlationID v) (get_str ce_PolicyNumber (v_claim v))) w =
    callWithResilience None (v_ctx v) (v_cfg v') n
      (\<lambda>c. x_Lookup (v_exec v') c (v_correlationID v) (get_str ce_PolicyNumber (v_claim v'))) w"
   and "callWithResilience None (v_ctx v) (v_cfg v) n
      (\<lambda>c. x_Score (v_exec v) c (v_correlationID v) (features_of (v_tenantID v) (v_claim v) s)) w =
    callWithResilience None (v_ctx v) (v_cfg v') n
      (\<lambda>c. x_Score (v_exec v') c (v_correlationID v) (features_of (v_tenantID v) (v_claim v) s)) w"
  by (rule run_call_cong [OF same], drule same_calls_services [OF same], simp add: same_answers_def)+

lemma enrich_node_cong:
  assumes "same_calls v v'"
  shows "enrich_node v n s w = enrich_node v' n s w"
  by (simp add: enrich_node_def Let_def same_calls_fields [OF assms] run_calls_cong [OF assms])

lemma score_node_cong:
  assumes "same_calls v v'"
  shows "score_node v s n r w = score_node v' s n r w"
  by (simp add: score_node_def Let_def same_calls_fields [OF assms] run_calls_cong [OF assms])

lemma event_of_cong:
  assumes "same_calls v v'"
  shows "event_of v' r st = event_of v r st"
  by (simp add: event_of_def same_calls_fields [OF assms])

lemma publish_node_cong:
  assumes same: "same_calls v v'" and "st \<in> {''scored'', ''degraded''}"
  shows "publish_node v r n st w = publish_node v' r n st w"
proof -
  have "callWithResilience () (v_ctx v) (v_cfg v) n (publish_call (v_exec v) (event_of v r st)) w =
    callWithResilience () (v_ctx v) (v_cfg v') n (publish_call (v_exec v') (event_of v r st)) w"
    by (rule run_call_cong [OF same], drule same_calls_services [OF same])
      (use assms(2) in \<open>auto simp: same_answers_def publish_call_def\<close>)
  then show ?thesis
    by (simp add: publish_node_def same_calls_fields [OF same] event_of_cong [OF same])
qed

text \<open>The status passed to the publisher is one of the two a run can have.\<close>

lemma publish_node_status:
  "publish_node v r n st w = (Inr st', w') \<Longrightarrow> st \<in> {''scored'', ''degraded''} \<Longrightarrow> st' \<in> {''scored'', ''degraded''}"
  by (auto simp: publish_node_def fail_node_eq skip_unrecognized_eq split: prod.splits option.splits if_splits)

lemma publish_loop_cong:
  assumes "same_calls v v'" and "st \<in> {''scored'', ''degraded''}"
  shows "range_loop (publish_node v r) ns st w = range_loop (publish_node v' r) ns st w"
  using assms(2)
proof (induction ns arbitrary: st w)
  case (Cons n ns)
  have "publish_node v r n st w = publish_node v' r n st w"
    using assms(1) Cons.prems by (rule publish_node_cong)
  moreover have "range_loop (publish_node v r) ns st' w' = range_loop (publish_node v' r) ns st' w'"
    if "publish_node v' r n st w = (Inr st', w')" for st' w'
    using that Cons publish_node_status by metis
  ultimately show ?case by (auto split: prod.split sum.split)
qed simp

lemma enrich_loop_status:
  "range_loop (enrich_node v) ns (initial_enrichment claim) w = (Inr s, w') \<Longrightarrow> s_status s \<in> {''scored'', ''degraded''}"
  by (auto simp: enrich_stage.loop_trace verdict_Inr_iff fold_enrich_initial enrichment_after_def split: prod.splits)

text \<open>
  Runs with the same calls and, stage by stage, the same selected nodes are the same run.
\<close>

lemma run_stages_cong:
  assumes same: "same_calls v v'"
    and sel: "filter (enrich_select v) (c_Nodes (v_cfg v)) = filter (enrich_select v) (c_Nodes (v_cfg v'))"
      "filter (score_select v) (c_Nodes (v_cfg v)) = filter (score_select v) (c_Nodes (v_cfg v'))"
      "filter (publish_select v) (c_Nodes (v_cfg v)) = filter (publish_select v) (c_Nodes (v_cfg v'))"
  shows "run_stages v w = run_stages v' w"
proof -
  have init: "initial_enrichment (v_claim v) = initial_enrichment (v_claim v')"
    by (simp add: initial_enrichment_def same_calls_fields [OF same])
  have e: "range_loop (enrich_node v') ns s w = range_loop (enrich_node v) ns s w" for ns s w
    using enrich_node_cong [OF same] by (intro range_loop_cong) simp
  have p: "range_loop (score_node v' s) ns r w = range_loop (score_node v s) ns r w" for ns s r w
    using score_node_cong [OF same] by (intro range_loop_cong) simp
  have 1: "range_loop (enrich_node v) (c_Nodes (v_cfg v')) s w = range_loop (enrich_node v) (c_Nodes (v_cfg v)) s w" for s w
    using enrich_stage.loop_filter [of v "c_Nodes (v_cfg v)"] enrich_stage.loop_filter [of v "c_Nodes (v_cfg v')"] sel(1)
    by simp
  have 2: "range_loop (score_node v s) (c_Nodes (v_cfg v')) r w = range_loop (score_node v s) (c_Nodes (v_cfg v)) r w" for s r w
    using score_stage.loop_filter [of v s "c_Nodes (v_cfg v)"] score_stage.loop_filter [of v s "c_Nodes (v_cfg v')"] sel(2)
    by simp
  have 3: "range_loop (publish_node v' r) (c_Nodes (v_cfg v')) st w = range_loop (publish_node v r) (c_Nodes (v_cfg v)) st w"
    if "st \<in> {''scored'', ''degraded''}" for r st w
    using publish_loop_cong [OF same that, of r "c_Nodes (v_cfg v')" w]
      publish_stage.loop_filter [of v r "c_Nodes (v_cfg v)" st w]
      publish_stage.loop_filter [of v r "c_Nodes (v_cfg v')" st w] sel(3)
    by metis
  show ?thesis
    unfolding run_stages_def init [symmetric] e p 1 2
    by (auto split: prod.split sum.split dest!: enrich_loop_status simp: 3)
qed

end
