(* ===== verification/Scenario.thy ===== *)
theory Scenario
  imports Executor
begin

text \<open>
  Concrete data the witnesses are evaluated on: the DAG configuration shipped in
  \<open>config/dag/acme_insurance/auto/claim.fnol.yaml\<close>, the smoke-test claim, and an executor whose
  services answer at once, like the fakes of \<open>executor_test.go\<close>, with the real scoring formula
  behind the model client.
\<close>

definition acme_nodes :: "node list" where
  "acme_nodes =
     [\<lparr>n_ID = ''claimant_id_hash'', n_Service = ''claimant-id-hashing-svc'', n_Group = ''enrichment'',
       n_TimeoutMs = 40, n_MaxRetries = 1, n_OnFailure = ''fail_fast'', n_DependsOn = [], n_EnabledFor = []\<rparr>,
      \<lparr>n_ID = ''address_normalize'', n_Service = ''address-normalization-svc'', n_Group = ''enrichment'',
       n_TimeoutMs = 40, n_MaxRetries = 1, n_OnFailure = ''skip'', n_DependsOn = [], n_EnabledFor = []\<rparr>,
      \<lparr>n_ID = ''policy_lookup'', n_Service = ''policy-lookup-svc'', n_Group = ''enrichment'',
       n_TimeoutMs = 40, n_MaxRetries = 1, n_OnFailure = ''degrade'', n_DependsOn = [], n_EnabledFor = []\<rparr>,
      \<lparr>n_ID = ''model_score'', n_Service = ''model-service'', n_Group = '''',
       n_TimeoutMs = 80, n_MaxRetries = 0, n_OnFailure = '''', n_DependsOn = [''enrichment''], n_EnabledFor = []\<rparr>,
      \<lparr>n_ID = ''publish'', n_Service = ''kafka-publisher'', n_Group = '''',
       n_TimeoutMs = 100, n_MaxRetries = 0, n_OnFailure = ''skip'', n_DependsOn = [''model_score''], n_EnabledFor = []\<rparr>]"

definition acme_config :: config where
  "acme_config = \<lparr>c_TenantID = ''acme_insurance'', c_Product = ''auto'', c_EventType = ''claim.fnol'',
     c_Version = 4, c_TimeoutMs = 250, c_Nodes = acme_nodes\<rparr>"

definition smoke_claim :: ClaimEvent where
  "smoke_claim = \<lparr>ce_ClaimId = ''clm-1'', ce_CorrelationId = ''corr-1'', ce_Product = ''auto'',
     ce_EventType = ''claim.fnol'', ce_PolicyNumber = ''POL-123456'', ce_ClaimantName = ''Jane Doe'',
     ce_RawAddress = ''123 Main St, Springfield, IL 62704''\<rparr>"

definition smoke_address :: NormalizeResponse where
  "smoke_address = \<lparr>nr_NormalizedAddress = ''123 MAIN ST, SPRINGFIELD, IL, 62704, US'',
     nr_Line1 = ''123 MAIN ST'', nr_City = ''SPRINGFIELD'', nr_State = ''IL'', nr_PostalCode = ''62704'',
     nr_Country = ''US'', nr_Valid = True\<rparr>"

definition quiet_world :: "unit world" where
  "quiet_world = \<lparr>clock = 0, logs = [], sched = (\<lambda>t. False), env = ()\<rparr>"

definition prompt_executor :: "config \<Rightarrow> 'e executor" where
  "prompt_executor cfg =
     \<lparr>x_Load = (\<lambda>c t p k w. ((Some cfg, None), w)),
      x_Normalize = (\<lambda>c corr a w. ((Some smoke_address, None), w)),
      x_Hash = (\<lambda>c corr n w. ((Some \<lparr>hr_ClaimantIdHash = ''deadbeef''\<rparr>, None), w)),
      x_Lookup = (\<lambda>c corr p w. ((Some \<lparr>lr_Found = True, lr_Status = ''active'', lr_CoverageType = ''full''\<rparr>, None), w)),
      x_Score = (\<lambda>c corr fs. ModelServer_Score None c \<lparr>sr_CorrelationId = corr, sr_Features = fs\<rparr>),
      x_Publish = (\<lambda>c ev w. (None, w)),
      x_Logger = None\<rparr>"

section \<open>Evaluation of a first attempt\<close>

lemma call_ok [go_run]:
  assumes "0 \<le> sint (n_MaxRetries node)"
    and "fn (WithTimeout ctx (clock w) (nodeTimeout cfg node)) w = ((resp, None), w')"
  shows "callWithResilience zero ctx cfg node fn w = ((resp, None), w')"
  using assms by (simp add: callWithResilience_def retry_from.simps)

lemma call_failed [go_run]:
  assumes "sint (n_MaxRetries node) = 0"
    and "fn (WithTimeout ctx (clock w) (nodeTimeout cfg node)) w = ((resp, Some err), w')"
  shows "callWithResilience zero ctx cfg node fn w = ((zero, Some err), w')"
  using assms by (simp add: callWithResilience_def retry_from.simps)

lemmas [go_run] = enrich_node_def score_node_def publish_node_def publish_call_def
  dependsOn_iff EnabledForTenant_iff groupEnrichment_def nodeModelScore_def
  fail_node_def nodeFailureHandled_def EffectiveOnFailure_def OnFailureSkip_def OnFailureDegrade_def
  OnFailureFailFast_def

lemmas [go_run] = Run_def run_env_of_def run_stages_def Let_def initial_enrichment_def features_of_def
  risk_cents_def status_cents_def FormatBool_def ParseBool_def result_of_def GetScore_def ModelVersion_def

lemmas acme_defs = acme_config_def acme_nodes_def prompt_executor_def smoke_address_def

text \<open>The smoke test: every service answers, nothing is suspicious.\<close>

lemma smoke_run:
  "fst (Run (prompt_executor acme_config) Background ''acme_insurance'' ''corr-1'' (Some smoke_claim) quiet_world) =
    (Some \<lparr>r_Status = ''scored'', r_NormalizedAddress = ''123 MAIN ST, SPRINGFIELD, IL, 62704, US'',
      r_FraudScore = hundredths 5, r_ModelVersion = ''rules-v1''\<rparr>, None)"
  by (simp add: acme_defs go_run)

text \<open>A Model Service that is down.\<close>

definition unavailable :: gerror where
  "unavailable = StatusError (OtherCode 14) [Lit ''connection refused'']"

definition model_down :: "config \<Rightarrow> 'e executor" where
  "model_down cfg = (prompt_executor cfg)\<lparr>x_Score := (\<lambda>c k fs w. ((None, Some unavailable), w))\<rparr>"

lemma model_down_run:
  "fst (Run (model_down acme_config) Background ''acme_insurance'' ''corr-1'' (Some smoke_claim) quiet_world) =
    (None, Some unavailable)"
  by (simp add: model_down_def acme_defs go_run)

end
