(* ===== verification/ExecutorProps.thy ===== *)
theory ExecutorProps
  imports ExecutorCong Scenario
begin

text \<open>
  The properties of \<open>Executor.Run\<close>: what a finished run returns, when it fails, which parts of the
  configuration it depends on, what reaches the downstream services, and how long it takes.
\<close>

section \<open>What a run returns\<close>

text \<open>The environment of the stages of \<open>Run e ctx tenantID correlationID claim\<close> for a loaded DAG.\<close>

abbreviation run_view ::
  "'e executor \<Rightarrow> gcontext \<Rightarrow> string \<Rightarrow> string \<Rightarrow> ClaimEvent option \<Rightarrow> config \<Rightarrow> 'e run_env"
where
  "run_view e ctx tenantID correlationID claim cfg \<equiv>
     run_env_of e (run_context ctx tenantID correlationID) tenantID correlationID claim cfg"

lemma run_env_of_simps [simp]:
  "v_exec (run_env_of e c t k claim cfg) = e" "v_cfg (run_env_of e c t k claim cfg) = cfg"
  "v_ctx (run_env_of e c t k claim cfg) = c" "v_tenantID (run_env_of e c t k claim cfg) = t"
  "v_log (run_env_of e c t k claim cfg) = FromContext c (x_Logger e)"
  "v_correlationID (run_env_of e c t k claim cfg) = k" "v_claim (run_env_of e c t k claim cfg) = claim"
  by (simp_all add: run_env_of_def)

text \<open>The answer of the loader a run starts with.\<close>

abbreviation loaded ::
  "'e executor \<Rightarrow> gcontext \<Rightarrow> string \<Rightarrow> string \<Rightarrow> ClaimEvent option \<Rightarrow> (config option, 'e) go_call"
where
  "loaded e ctx tenantID correlationID claim \<equiv>
     x_Load e (run_context ctx tenantID correlationID) tenantID
       (get_str ce_Product claim) (get_str ce_EventType claim)"

lemma Run_cases:
  assumes "Run e ctx t k claim w = (res, w')"
  obtains
    (load_error) cfg err where "loaded e ctx t k claim w = ((cfg, Some err), w')"
      "res = (None, Some (WrapError [Lit ''load dag config''] err))"
  | (load_nil) "loaded e ctx t k claim w = ((None, None), w')"
      "res = (None, Some (GoPanic [Lit ''nil pointer dereference'']))"
  | (stages) cfg w0 where "loaded e ctx t k claim w = ((Some cfg, None), w0)"
      "run_stages (run_view e ctx t k claim cfg) w0 = (res, w')"
proof -
  obtain c err w0 where l: "loaded e ctx t k claim w = ((c, err), w0)"
    by (metis prod.exhaust)
  consider er where "err = Some er" | "c = None" "err = None" | cfg where "c = Some cfg" "err = None"
    by (metis option.exhaust)
  then show ?thesis
    by cases (use assms l load_error load_nil stages in \<open>auto simp: Run_def Let_def split: option.splits\<close>)
qed

text \<open>
  (C1) A run that returns no error has run, stage by stage and in configuration order, exactly the
  nodes its DAG selects for the tenant; every node that failed had the policy \<open>skip\<close> or
  \<open>degrade\<close>; the status is \<open>degraded\<close> exactly when an enrichment or publish node failed; the
  address is that of the last successful normalisation, else the raw address; and score and
  model version are those of the last successful model call.
\<close>

theorem Run_success:
  assumes "Run e ctx tenantID correlationID claim w = ((res, None), w')"
  shows "\<exists>cfg w0 outs1 w1 outs2 w2 r outs3.
    let v = run_view e ctx tenantID correlationID claim cfg;
        s = enrichment_after claim outs1
    in loaded e ctx tenantID correlationID claim w = ((Some cfg, None), w0) \<and>
       enrich_trace v w0 = (outs1, w1) \<and> map fst outs1 = filter (enrich_select v) (c_Nodes cfg) \<and>
       score_trace v s w1 = (outs2, w2) \<and> map fst outs2 = filter (score_select v) (c_Nodes cfg) \<and>
       publish_trace v (Some r) (s_status s) w2 = (outs3, w') \<and>
       map fst outs3 = filter (publish_select v) (c_Nodes cfg) \<and>
       (\<forall>n err. (n, EnrichFailed err) \<in> set outs1 \<or> (n, ScoreFailed err) \<in> set outs2 \<or>
          (n, PublishFailed err) \<in> set outs3 \<longrightarrow> handled n) \<and>
       last_or None score_in outs2 = Some r \<and>
       res = Some \<lparr>r_Status = (if enrich_failed outs1 \<or> publish_failed outs3 then ''degraded'' else ''scored''),
                   r_NormalizedAddress = fst (last_or (get_str ce_RawAddress claim, False) address_in outs1),
                   r_FraudScore = sr_Score r, r_ModelVersion = sr_ModelVersion r\<rparr>"
  using assms
proof (cases rule: Run_cases)
  case (stages cfg w0)
  let ?v = "run_view e ctx tenantID correlationID claim cfg"
  from stages(2) show ?thesis
  proof (cases rule: run_stages_cases)
    case (finished outs1 w1 outs2 w2 r outs3)
    note f = finished [simplified]
    have "stage_verdict publish_aborts publish_apply outs3 (s_status (enrichment_after claim outs1)) =
        Inr (fold (\<lambda>(n, out). publish_apply out) outs3 (s_status (enrichment_after claim outs1)))"
      using f(7) by (simp add: verdict_Inr_iff)
    then have complete: "map fst outs1 = filter (enrich_select ?v) (c_Nodes cfg)"
      "map fst outs2 = filter (score_select ?v) (c_Nodes cfg)"
      "map fst outs3 = filter (publish_select ?v) (c_Nodes cfg)"
      using enrich_stage.trace_complete [OF f(1,2)] score_stage.trace_complete [OF f(3,4)]
        publish_stage.trace_complete [OF f(6)] by simp_all
    have "(n, EnrichFailed err) \<in> set outs1 \<Longrightarrow> handled n" "(n, ScoreFailed err) \<in> set outs2 \<Longrightarrow> handled n"
      "(n, PublishFailed err) \<in> set outs3 \<Longrightarrow> handled n" for n err
      using f(2,4,7) by (force simp: verdict_Inr_iff failure_aborts_def split: if_splits)+
    with stages(1) f complete show ?thesis
      by (intro exI [of _ cfg] exI [of _ w0] exI [of _ outs1] exI [of _ w1] exI [of _ outs2]
          exI [of _ w2] exI [of _ r] exI [of _ outs3])
        (auto simp: Let_def result_of_def enrichment_after_def GetScore_def)
  qed auto
qed auto

theorem Run_success_witness:
  "fst (Run (prompt_executor acme_config) Background ''acme_insurance'' ''corr-1'' (Some smoke_claim) quiet_world) =
    (Some \<lparr>r_Status = ''scored'', r_NormalizedAddress = ''123 MAIN ST, SPRINGFIELD, IL, 62704, US'',
      r_FraudScore = hundredths 5, r_ModelVersion = ''rules-v1''\<rparr>, None) \<and>
   (\<exists>outs1. map fst outs1 = take 3 acme_nodes \<and> \<not> enrich_failed outs1)"
proof -
  let ?e = "prompt_executor acme_config :: unit executor"
  obtain res w' where run: "Run ?e Background ''acme_insurance'' ''corr-1'' (Some smoke_claim) quiet_world = ((Some res, None), w')"
    using smoke_run by (metis prod.collapse)
  have res: "r_Status res = ''scored''" using smoke_run by (simp add: run)
  have "filter (enrich_select (run_view ?e Background ''acme_insurance'' ''corr-1'' (Some smoke_claim) acme_config)) acme_nodes =
      take 3 acme_nodes"
    by (simp add: enrich_select_def EnabledForTenant_iff acme_nodes_def)
  with Run_success [OF run] res
  have "\<exists>outs1. map fst outs1 = take 3 acme_nodes \<and> \<not> enrich_failed outs1"
    by (auto simp: Let_def prompt_executor_def acme_config_def split: if_splits)
  with smoke_run show ?thesis by simp
qed

text \<open>
  (C2) A run that returns an error returns no result, and the error is one of five: the loader's,
  wrapped; the nil dereference after a loader that returned neither a DAG nor an error; that of the
  node at which the run stopped, whose policy is neither \<open>skip\<close> nor \<open>degrade\<close>; or, when no
  model node produced a response, \<open>dag: no model_score result produced\<close>.
\<close>

theorem Run_failure:
  assumes "Run e ctx tenantID correlationID claim w = ((res, Some err), w')"
  shows "res = None \<and>
    ((\<exists>cfg err0. loaded e ctx tenantID correlationID claim w = ((cfg, Some err0), w') \<and>
        err = WrapError [Lit ''load dag config''] err0) \<or>
     (loaded e ctx tenantID correlationID claim w = ((None, None), w') \<and>
        err = GoPanic [Lit ''nil pointer dereference'']) \<or>
     (\<exists>cfg w0. loaded e ctx tenantID correlationID claim w = ((Some cfg, None), w0) \<and>
       (let v = run_view e ctx tenantID correlationID claim cfg
        in (\<exists>n\<in>set (c_Nodes cfg). \<not> handled n \<and>
             (\<exists>s w1. enrich_select v n \<and> enrich_call v n s w1 = (EnrichFailed err, w') \<or>
                (\<exists>r. score_select v n \<and> score_call v s n r w1 = (ScoreFailed err, w')) \<or>
                (\<exists>r st. publish_select v n \<and> publish_outcome_of v (Some r) n st w1 = (PublishFailed err, w')))) \<or>
           (err = no_score_error \<and> (\<exists>s w1 outs. score_trace v s w1 = (outs, w') \<and>
             map fst outs = filter (score_select v) (c_Nodes cfg) \<and> last_or None score_in outs = None)))))"
  using assms
proof (cases rule: Run_cases)
  case (stages cfg w0)
  let ?v = "run_view e ctx tenantID correlationID claim cfg"
  have ea: "enrich_aborts n out = Some err \<longleftrightarrow> out = EnrichFailed err \<and> \<not> handled n"
    and sa: "score_aborts n out' = Some err \<longleftrightarrow> out' = ScoreFailed err \<and> \<not> handled n"
    and pa: "publish_aborts n out'' = Some err \<longleftrightarrow> out'' = PublishFailed err \<and> \<not> handled n"
    for n out out' out''
    by (cases out; cases out'; cases out''; auto simp: failure_aborts_def)+
  from stages(2) show ?thesis
  proof (cases rule: run_stages_cases)
    case (enrich_abort outs er)
    then have "er = err" "res = None" by simp_all
    with enrich_stage.trace_abort [OF enrich_abort(1,2)] stages(1) show ?thesis
      by (simp add: ea Let_def) blast
  next
    case (score_abort outs1 w1 outs2 er)
    then have "er = err" "res = None" by simp_all
    with score_stage.trace_abort [OF score_abort(3,4)] stages(1) show ?thesis
      by (simp add: sa Let_def) blast
  next
    case (no_score outs1 w1 outs2)
    then have "err = no_score_error" "res = None" by simp_all
    with no_score score_stage.trace_complete [OF no_score(3,4)] stages(1) show ?thesis
      by (simp add: Let_def) blast
  next
    case (publish_abort outs1 w1 outs2 w2 r outs3 er)
    then have "er = err" "res = None" by simp_all
    with publish_stage.trace_abort [OF publish_abort(6,7)] stages(1) show ?thesis
      by (simp add: pa Let_def) blast
  qed simp
qed simp_all

theorem Run_failure_witness:
  "fst (Run (model_down acme_config) Background ''acme_insurance'' ''corr-1'' (Some smoke_claim) quiet_world) =
     (None, Some unavailable) \<and>
   (\<exists>n\<in>set acme_nodes. \<not> handled n)"
proof -
  let ?e = "model_down acme_config :: unit executor"
  obtain w' where run: "Run ?e Background ''acme_insurance'' ''corr-1'' (Some smoke_claim) quiet_world = ((None, Some unavailable), w')"
    using model_down_run by (metis prod.collapse)
  have "loaded ?e Background ''acme_insurance'' ''corr-1'' (Some smoke_claim) quiet_world = ((Some acme_config, None), quiet_world)"
    by (simp add: model_down_def prompt_executor_def)
  with Run_failure [OF run] have "\<exists>n\<in>set (c_Nodes acme_config). \<not> handled n"
    by (auto simp: Let_def unavailable_def no_score_error_def)
  with model_down_run show ?thesis by (simp add: acme_config_def)
qed

section \<open>Where the score comes from\<close>

text \<open>A context a node's call is made in: the run's identity, and a deadline.\<close>

definition node_context :: "string \<Rightarrow> string \<Rightarrow> gcontext \<Rightarrow> bool" where
  "node_context tenantID correlationID c \<longleftrightarrow>
     TenantIDFrom c = tenantID \<and> CorrelationIDFrom c = correlationID \<and> deadline c \<noteq> None"

lemma node_context_run [simp]: "node_context t k (WithTimeout (run_context ctx t k) tm d)"
  by (simp add: node_context_def run_context_def WithTimeout_deadline)

lemma last_or_Some:
  assumes "last_or d f outs = x" and "x \<noteq> d"
  shows "\<exists>n out. (n, out) \<in> set outs \<and> f out = Some x"
proof -
  have "x \<in> set (List.map_filter (\<lambda>(n, out). f out) outs)"
    using assms last_in_set [of "d # List.map_filter (\<lambda>(n, out). f out) outs"]
    by (auto simp: last_or_def)
  then show ?thesis by (auto simp: List.map_filter_def split: option.splits) blast
qed

lemma scored_by_service:
  assumes "score_trace v s w = (outs, w')" and "last_or None score_in outs = Some r"
  shows "\<exists>n t w1 w2. x_Score (v_exec v) (WithTimeout (v_ctx v) t (nodeTimeout (v_cfg v) n)) (v_correlationID v)
           (features_of (v_tenantID v) (v_claim v) s) w1 = ((Some r, None), w2)"
proof -
  obtain n out where "(n, out) \<in> set outs" "score_in out = Some (Some r)"
    using last_or_Some [OF assms(2)] by blast
  moreover from this have "out = ScoredAs (Some r)" by (cases out) simp_all
  ultimately obtain r0 w1 w2 where "score_call v s n r0 w1 = (ScoredAs (Some r), w2)"
    using score_stage.trace_called [OF assms(1)] by blast
  then obtain w3 where "callWithResilience None (v_ctx v) (v_cfg v) n
      (\<lambda>c. x_Score (v_exec v) c (v_correlationID v) (features_of (v_tenantID v) (v_claim v) s)) w1 = ((Some r, None), w3)"
    by (auto simp: score_call_def split: if_splits prod.splits option.splits)
  from call_success [OF this] show ?thesis by blast
qed

text \<open>
  The score and the model version of a successful run are an answer of the model client to
  a call made within the run: under a deadline, in a context that carries the run's tenant and
  correlation ids, and for features that name this tenant and this claim's policy, product and
  event type.
\<close>

theorem Run_score_provenance:
  assumes "Run e ctx tenantID correlationID claim w = ((Some res, None), w')"
  shows "\<exists>c fs w1 w2 r. node_context tenantID correlationID c \<and>
    x_Score e c correlationID fs w1 = ((Some r, None), w2) \<and>
    r_FraudScore res = sr_Score r \<and> r_ModelVersion res = sr_ModelVersion r \<and>
    fs ''tenant_id'' = Some tenantID \<and> fs ''product'' = Some (get_str ce_Product claim) \<and>
    fs ''event_type'' = Some (get_str ce_EventType claim) \<and>
    fs ''policy_number'' = Some (get_str ce_PolicyNumber claim) \<and>
    fs ''normalized_address'' = Some (r_NormalizedAddress res)"
  using assms
proof (cases rule: Run_cases)
  case (stages cfg w0)
  from stages(2) show ?thesis
  proof (cases rule: run_stages_cases)
    case (finished outs1 w1 outs2 w2 r outs3)
    let ?fs = "features_of tenantID claim (enrichment_after claim outs1)"
    from scored_by_service [OF finished(3,5)] obtain n t w3 w4 where
      "x_Score e (WithTimeout (run_context ctx tenantID correlationID) t (nodeTimeout cfg n)) correlationID ?fs w3 =
         ((Some r, None), w4)"
      by auto
    with finished(8) show ?thesis
      by (intro exI [of _ "WithTimeout (run_context ctx tenantID correlationID) t (nodeTimeout cfg n)"]
          exI [of _ ?fs] exI [of _ w3] exI [of _ w4] exI [of _ r])
        (simp add: features_of_def result_of_def GetScore_def)
  qed auto
qed auto

theorem Run_score_provenance_witness:
  "\<exists>res. fst (Run (prompt_executor acme_config) Background ''acme_insurance'' ''corr-1'' (Some smoke_claim) quiet_world) =
    (Some res, None) \<and>
   (\<exists>c fs w1 w2 r. node_context ''acme_insurance'' ''corr-1'' c \<and>
     x_Score (prompt_executor acme_config :: unit executor) c ''corr-1'' fs w1 = ((Some r, None), w2) \<and>
     r_FraudScore res = sr_Score r \<and> fs ''policy_number'' = Some ''POL-123456'')"
proof -
  let ?e = "prompt_executor acme_config :: unit executor"
  obtain res w' where run: "Run ?e Background ''acme_insurance'' ''corr-1'' (Some smoke_claim) quiet_world = ((Some res, None), w')"
    using smoke_run by (metis prod.collapse)
  have "ce_PolicyNumber smoke_claim = ''POL-123456''" by (simp add: smoke_claim_def)
  with Run_score_provenance [OF run] run show ?thesis by (simp del: split_paired_Ex) metis
qed

text \<open>
  (C32) When every call of the model client fails, the run fails: whatever \<open>on_failure\<close> policies,
  retries and nodes the DAG has, no result is produced, although the policies \<open>skip\<close> and
  \<open>degrade\<close> are documented to only mark the result degraded.
\<close>

theorem Run_model_unavailable:
  assumes "\<And>c fs w. snd (fst (x_Score e c correlationID fs w)) \<noteq> None"
  shows "\<exists>err. fst (Run e ctx tenantID correlationID claim w) = (None, Some err)"
proof -
  obtain res w' where run: "Run e ctx tenantID correlationID claim w = (res, w')" by fastforce
  then show ?thesis
  proof (cases rule: Run_cases)
    case (stages cfg w0)
    from stages(2) run show ?thesis
    proof (cases rule: run_stages_cases)
      case (finished outs1 w1 outs2 w2 r outs3)
      from scored_by_service [OF finished(3,5)] assms show ?thesis by (metis fst_conv snd_conv run_env_of_simps(1,6))
    qed simp_all
  qed (use run in simp_all)
qed

text \<open>The shipped DAG with the policy \<open>skip\<close> on its model node.\<close>

definition skip_model_config :: config where
  "skip_model_config = acme_config\<lparr>c_Nodes := (c_Nodes acme_config)[3 := (acme_nodes ! 3)\<lparr>n_OnFailure := ''skip''\<rparr>]\<rparr>"

theorem Run_model_unavailable_witness:
  "list_all handled (filter (\<lambda>n. n_Service n = ''model-service'') (c_Nodes skip_model_config)) \<and>
   (\<exists>err. fst (Run (model_down skip_model_config) Background ''acme_insurance'' ''corr-1'' (Some smoke_claim) quiet_world) =
     (None, Some err))"
proof
  show "list_all handled (filter (\<lambda>n. n_Service n = ''model-service'') (c_Nodes skip_model_config))"
    by (simp add: skip_model_config_def acme_config_def acme_nodes_def handled_def EffectiveOnFailure_def OnFailureSkip_def)
  show "\<exists>err. fst (Run (model_down skip_model_config) Background ''acme_insurance'' ''corr-1'' (Some smoke_claim) quiet_world) =
     (None, Some err)"
    by (rule Run_model_unavailable) (simp add: model_down_def)
qed

section \<open>How long a run takes\<close>

lemma log_failure_clock [simp]: "clock (log_failure l n err w) = clock w"
  by (simp add: log_failure_def)

lemma log_unrecognized_clock [simp]: "clock (log_unrecognized l n w) = clock w"
  by (simp add: log_unrecognized_def skip_unrecognized_def)

text \<open>The downstream clients of a run honour the deadlines they are given.\<close>

definition punctual_services :: "'e executor \<Rightarrow> string \<Rightarrow> bool" where
  "punctual_services e correlationID \<longleftrightarrow>
     (\<forall>x. punctual (\<lambda>c. x_Hash e c correlationID x)) \<and>
     (\<forall>x. punctual (\<lambda>c. x_Normalize e c correlationID x)) \<and>
     (\<forall>x. punctual (\<lambda>c. x_Lookup e c correlationID x)) \<and>
     (\<forall>fs. punctual (\<lambda>c. x_Score e c correlationID fs)) \<and>
     (\<forall>ev. punctual (publish_call e ev))"

lemma stage_call_budget:
  assumes "punctual_services (v_exec v) (v_correlationID v)"
  shows "enrich_call v n s w = (out1, w') \<Longrightarrow> clock w' \<le> clock w + node_budget (v_cfg v) n"
    and "score_call v s n r w = (out2, w') \<Longrightarrow> clock w' \<le> clock w + node_budget (v_cfg v) n"
    and "publish_outcome_of v r n st w = (out3, w') \<Longrightarrow> clock w' \<le> clock w + node_budget (v_cfg v) n"
  using assms node_budget_nonneg [of "v_cfg v" n] unfolding punctual_services_def
  by (auto simp: enrich_call_def score_call_def publish_outcome_of_def
      split: if_splits prod.splits option.splits dest!: call_budget [rotated])

text \<open>What the nodes a DAG selects may take together; a node of two stages counts twice.\<close>

definition dag_budget :: "'e run_env \<Rightarrow> int" where
  "dag_budget v =
     (\<Sum>P \<leftarrow> [enrich_select v, score_select v, publish_select v].
        sum_list (map (node_budget (v_cfg v)) (filter P (c_Nodes (v_cfg v)))))"

lemma stage_time:
  assumes "punctual_services (v_exec v) (v_correlationID v)"
  shows "enrich_trace v w = (outs1, w') \<Longrightarrow>
      clock w' \<le> clock w + sum_list (map (node_budget (v_cfg v)) (filter (enrich_select v) (c_Nodes (v_cfg v))))"
    and "score_trace v s w = (outs2, w') \<Longrightarrow>
      clock w' \<le> clock w + sum_list (map (node_budget (v_cfg v)) (filter (score_select v) (c_Nodes (v_cfg v))))"
    and "publish_trace v r st w = (outs3, w') \<Longrightarrow>
      clock w' \<le> clock w + sum_list (map (node_budget (v_cfg v)) (filter (publish_select v) (c_Nodes (v_cfg v))))"
  by (erule enrich_stage.trace_cost score_stage.trace_cost publish_stage.trace_cost;
      auto intro: stage_call_budget [OF assms] node_budget_nonneg)+

lemma run_stages_time:
  assumes "punctual_services (v_exec v) (v_correlationID v)" and "run_stages v w = (res, w')"
  shows "clock w' \<le> clock w + dag_budget v"
proof -
  let ?sum = "\<lambda>P. sum_list (map (node_budget (v_cfg v)) (filter P (c_Nodes (v_cfg v))))"
  have nonneg: "0 \<le> ?sum P" for P
    by (rule sum_list_nonneg) (auto simp: node_budget_nonneg)
  have sum: "dag_budget v = ?sum (enrich_select v) + ?sum (score_select v) + ?sum (publish_select v)"
    by (simp add: dag_budget_def)
  note time = stage_time [OF assms(1)]
  from assms(2) show ?thesis
    unfolding sum
    by (cases rule: run_stages_cases)
      (use nonneg [of "enrich_select v"] nonneg [of "score_select v"] nonneg [of "publish_select v"] in
        \<open>fastforce dest: time\<close>)+
qed

text \<open>
  (C13) When the downstream clients honour the deadlines of their contexts, the stages of a run
  take no longer than the attempts, node timeouts and 20 ms back-offs of the selected nodes add
  up to, whatever the services answer and whether or not the run succeeds.
\<close>

theorem Run_time_bound:
  assumes "punctual_services e correlationID"
    and "loaded e ctx tenantID correlationID claim w = ((Some cfg, None), w0)"
    and "Run e ctx tenantID correlationID claim w = (res, w')"
  shows "clock w' \<le> clock w0 + dag_budget (run_view e ctx tenantID correlationID claim cfg)"
  using assms(3)
proof (cases rule: Run_cases)
  case (stages cfg' w1)
  with assms(1,2) run_stages_time [OF _ stages(2)] show ?thesis by simp
qed (use assms(2) in simp_all)

lemma prompt_punctual: "punctual_services (prompt_executor cfg) k"
  unfolding punctual_services_def prompt_executor_def publish_call_def
  by (auto intro!: punctual.intro simp: ModelServer_Score_eq)

theorem Run_time_bound_witness:
  "dag_budget (run_view (prompt_executor acme_config :: unit executor) Background ''acme_insurance'' ''corr-1''
     (Some smoke_claim) acme_config) = 480000000 \<and>
   clock (snd (Run (prompt_executor acme_config) Background ''acme_insurance'' ''corr-1'' (Some smoke_claim) quiet_world))
     \<le> 480000000"
proof -
  let ?e = "prompt_executor acme_config :: unit executor"
  let ?v = "run_view ?e Background ''acme_insurance'' ''corr-1'' (Some smoke_claim) acme_config"
  obtain res w' where run: "Run ?e Background ''acme_insurance'' ''corr-1'' (Some smoke_claim) quiet_world = (res, w')"
    by fastforce
  have budget: "dag_budget ?v = 480000000"
    by (simp add: dag_budget_def enrich_select_def score_select_def publish_select_def acme_config_def acme_nodes_def
        node_budget_def sint_nodeTimeout sint_retryBackoff go_run)
  have "clock w' \<le> clock quiet_world + dag_budget ?v"
    by (rule Run_time_bound [OF prompt_punctual _ run]) (simp add: prompt_executor_def)
  with budget run show ?thesis by (simp add: quiet_world_def)
qed

section \<open>What a run depends on\<close>

text \<open>
  (C28) Only the selected nodes, their order within a stage and the DAG's own timeout matter: two
  DAGs with the same \<open>timeout_ms\<close> whose nodes, filtered by each of the three stages for this
  tenant, are the same lists give the same run. So nodes enabled for other tenants, nodes that
  depend on anything else, the order of nodes of different stages, and the recorded tenant, product,
  event type and version of the file have no effect.
\<close>

theorem Run_selected_nodes:
  assumes "c_TimeoutMs cfg = c_TimeoutMs cfg'"
    and "filter (\<lambda>n. n_DependsOn n = [] \<and> EnabledForTenant n tenantID) (c_Nodes cfg) =
         filter (\<lambda>n. n_DependsOn n = [] \<and> EnabledForTenant n tenantID) (c_Nodes cfg')"
    and "filter (\<lambda>n. ''enrichment'' \<in> set (n_DependsOn n) \<and> EnabledForTenant n tenantID) (c_Nodes cfg) =
         filter (\<lambda>n. ''enrichment'' \<in> set (n_DependsOn n) \<and> EnabledForTenant n tenantID) (c_Nodes cfg')"
    and "filter (\<lambda>n. ''model_score'' \<in> set (n_DependsOn n) \<and> EnabledForTenant n tenantID) (c_Nodes cfg) =
         filter (\<lambda>n. ''model_score'' \<in> set (n_DependsOn n) \<and> EnabledForTenant n tenantID) (c_Nodes cfg')"
    and "loaded e ctx tenantID correlationID claim w = ((Some cfg, None), w0)"
    and "loaded e' ctx tenantID correlationID claim w = ((Some cfg', None), w0)"
    and "e' = e\<lparr>x_Load := x_Load e'\<rparr>"
  shows "Run e ctx tenantID correlationID claim w = Run e' ctx tenantID correlationID claim w"
proof -
  let ?v = "run_view e ctx tenantID correlationID claim cfg"
  let ?v' = "run_view e' ctx tenantID correlationID claim cfg'"
  obtain ld where e': "e' = e\<lparr>x_Load := ld\<rparr>" using assms(7) by metis
  have "same_calls ?v ?v'"
    using assms(1) by (simp add: same_calls_def same_inputs_def same_answers_def e')
  then have "run_stages ?v w0 = run_stages ?v' w0"
    by (rule run_stages_cong)
      (use assms(2-4) in \<open>simp_all add: enrich_select_def [abs_def] score_select_def [abs_def]
        publish_select_def [abs_def] dependsOn_iff groupEnrichment_def nodeModelScore_def\<close>)
  with assms(5,6) show ?thesis by (simp add: Run_def Let_def)
qed

text \<open>The shipped DAG with its nodes listed backwards by stage, and one node of another tenant.\<close>

definition shuffled_config :: config where
  "shuffled_config = acme_config\<lparr>c_Version := 9,
     c_Nodes := [acme_nodes ! 4, (acme_nodes ! 3)\<lparr>n_EnabledFor := [''beta_mutual'']\<rparr>, acme_nodes ! 3]
       @ take 3 acme_nodes\<rparr>"

theorem Run_selected_nodes_witness:
  "shuffled_config \<noteq> acme_config \<and>
   Run (prompt_executor acme_config) Background ''acme_insurance'' ''corr-1'' (Some smoke_claim) quiet_world =
   Run (prompt_executor shuffled_config) Background ''acme_insurance'' ''corr-1'' (Some smoke_claim) quiet_world"
proof
  show "shuffled_config \<noteq> acme_config"
    by (simp add: shuffled_config_def acme_config_def acme_nodes_def)
  show "Run (prompt_executor acme_config) Background ''acme_insurance'' ''corr-1'' (Some smoke_claim) quiet_world =
   Run (prompt_executor shuffled_config) Background ''acme_insurance'' ''corr-1'' (Some smoke_claim) quiet_world"
    by (rule Run_selected_nodes)
      (simp_all add: shuffled_config_def acme_config_def acme_nodes_def EnabledForTenant_iff prompt_executor_def)
qed

text \<open>
  (C11) The claimant's name reaches nothing but the hashing service: two claims that differ only
  in it, and that the hashing service answers alike, give the same run -- the same result, the
  same published events, the same log and the same calls of every other service.
\<close>

theorem Run_claimant_name_confined:
  assumes "\<And>c. x_Hash e c correlationID name = x_Hash e c correlationID name'"
  shows "Run e ctx tenantID correlationID (Some (claim\<lparr>ce_ClaimantName := name\<rparr>)) w =
         Run e ctx tenantID correlationID (Some (claim\<lparr>ce_ClaimantName := name'\<rparr>)) w"
proof -
  let ?c = "Some (claim\<lparr>ce_ClaimantName := name\<rparr>)" and ?c' = "Some (claim\<lparr>ce_ClaimantName := name'\<rparr>)"
  have "same_calls (run_view e ctx tenantID correlationID ?c cfg) (run_view e ctx tenantID correlationID ?c' cfg)" for cfg
    using assms by (simp add: same_calls_def same_inputs_def same_answers_def features_of_def)
  then have "run_stages (run_view e ctx tenantID correlationID ?c cfg) w0 =
      run_stages (run_view e ctx tenantID correlationID ?c' cfg) w0" for cfg w0
    by (rule run_stages_cong) (simp_all add: enrich_select_def score_select_def publish_select_def)
  then show ?thesis by (simp add: Run_def Let_def split: prod.split option.split)
qed

theorem Run_claimant_name_confined_witness:
  "Run (prompt_executor acme_config) Background ''acme_insurance'' ''corr-1''
     (Some (smoke_claim\<lparr>ce_ClaimantName := ''Jane Doe''\<rparr>)) quiet_world =
   Run (prompt_executor acme_config) Background ''acme_insurance'' ''corr-1''
     (Some (smoke_claim\<lparr>ce_ClaimantName := ''  jane   DOE ''\<rparr>)) quiet_world"
  by (rule Run_claimant_name_confined) (simp add: prompt_executor_def)

text \<open>
  (C10) A run acts for its own tenant only. Two executors whose loader agrees on this tenant, whose
  services agree in contexts that carry this tenant and correlation id and a deadline, whose model
  client agrees on features of this tenant, and whose publisher agrees on \<open>scored\<close> or
  \<open>degraded\<close> events of this tenant and correlation id, perform the same run: no other call is made.
\<close>

theorem Run_identity_confined:
  assumes load: "\<And>c. TenantIDFrom c = tenantID \<Longrightarrow> CorrelationIDFrom c = correlationID \<Longrightarrow>
      x_Load e c tenantID = x_Load e' c tenantID"
    and hash: "\<And>c x. node_context tenantID correlationID c \<Longrightarrow>
      x_Hash e c correlationID x = x_Hash e' c correlationID x"
    and norm: "\<And>c x. node_context tenantID correlationID c \<Longrightarrow>
      x_Normalize e c correlationID x = x_Normalize e' c correlationID x"
    and look: "\<And>c x. node_context tenantID correlationID c \<Longrightarrow>
      x_Lookup e c correlationID x = x_Lookup e' c correlationID x"
    and score: "\<And>c fs. node_context tenantID correlationID c \<Longrightarrow> fs ''tenant_id'' = Some tenantID \<Longrightarrow>
      x_Score e c correlationID fs = x_Score e' c correlationID fs"
    and publish: "\<And>c ev. node_context tenantID correlationID c \<Longrightarrow> ev_TenantID ev = tenantID \<Longrightarrow>
      ev_CorrelationID ev = correlationID \<Longrightarrow> ev_Status ev \<in> {''scored'', ''degraded''} \<Longrightarrow>
      x_Publish e c ev = x_Publish e' c ev"
    and log: "x_Logger e = x_Logger e'"
  shows "Run e ctx tenantID correlationID claim w = Run e' ctx tenantID correlationID claim w"
proof -
  let ?v = "run_view e ctx tenantID correlationID claim"
  let ?v' = "run_view e' ctx tenantID correlationID claim"
  have "node_context tenantID correlationID c" if "derived_from (run_context ctx tenantID correlationID) c" for c
    using that by (simp add: derived_from_def node_context_def run_context_def TenantIDFrom_def
        CorrelationIDFrom_def ctx_Value_def WithTenantID_def WithCorrelationID_def WithValue_def)
  then have "same_answers (?v cfg) (?v' cfg) c" if "derived_from (run_context ctx tenantID correlationID) c" for cfg c
    using that by (auto simp: same_answers_def features_of_def event_of_def intro: hash norm look score publish)
  then have "same_calls (?v cfg) (?v' cfg)" for cfg
    by (simp add: same_calls_def same_inputs_def log)
  then have "run_stages (?v cfg) w0 = run_stages (?v' cfg) w0" for cfg w0
    by (rule run_stages_cong) (simp_all add: enrich_select_def score_select_def publish_select_def)
  then show ?thesis using load [of "run_context ctx tenantID correlationID"]
    by (simp add: Run_def Let_def run_context_def split: prod.split option.split)
qed

text \<open>Services that fail for every tenant but the one that is configured.\<close>

definition single_tenant :: "string \<Rightarrow> unit executor \<Rightarrow> unit executor" where
  "single_tenant t e = e\<lparr>
     x_Hash := (\<lambda>c k x. if TenantIDFrom c = t then x_Hash e c k x else (\<lambda>w. ((None, Some unavailable), w))),
     x_Score := (\<lambda>c k fs. if TenantIDFrom c = t \<and> fs ''tenant_id'' = Some t then x_Score e c k fs
                          else (\<lambda>w. ((None, Some unavailable), w))),
     x_Publish := (\<lambda>c ev. if ev_TenantID ev = t then x_Publish e c ev else (\<lambda>w. (Some unavailable, w)))\<rparr>"

theorem Run_identity_confined_witness:
  "Run (prompt_executor acme_config) Background ''acme_insurance'' ''corr-1'' (Some smoke_claim) quiet_world =
   Run (single_tenant ''acme_insurance'' (prompt_executor acme_config)) Background ''acme_insurance'' ''corr-1''
     (Some smoke_claim) quiet_world"
  by (rule Run_identity_confined) (simp_all add: single_tenant_def node_context_def)

end
