(* ===== verification/TenantStore.thy ===== *)
theory TenantStore
  imports Telemetry
begin

text \<open>
  The Tenant Config Service: \<open>internal/store\<close> (tenants read once from a YAML file into a map
  keyed by tenant id) and \<open>internal/server\<close> (the two RPCs over that store). The file system and
  the YAML library are parameters of \<open>Store_Load\<close>. The locale \<open>tenant_directory\<close> is the
  interface the server relies on; it is interpreted on the store below.
\<close>

section \<open>The store\<close>

record tenant =
  t_TenantID :: string
  t_DisplayName :: string
  t_Status :: string
  t_DagVersions :: "string \<rightharpoonup> i32"

record tenantsFile =
  tf_Tenants :: "tenant list"

record store =
  byID :: "string \<rightharpoonup> tenant"

fun index_tenants :: "(string \<rightharpoonup> tenant) \<Rightarrow> tenant list \<Rightarrow> (string \<rightharpoonup> tenant)" where
  "index_tenants m [] = m"
| "index_tenants m (t # ts) = index_tenants (m(t_TenantID t \<mapsto> t)) ts"

definition Store_Load ::
  "(string \<Rightarrow> gerror + string) \<Rightarrow> (string \<Rightarrow> gerror + tenantsFile) \<Rightarrow> string \<Rightarrow> gerror + store"
where
  "Store_Load ReadFile Unmarshal path =
     (case ReadFile path of
        Inl err \<Rightarrow> Inl (WrapError [Lit ''read tenants file''] err)
      | Inr data \<Rightarrow>
          (case Unmarshal data of
             Inl err \<Rightarrow> Inl (WrapError [Lit ''parse tenants file''] err)
           | Inr tf \<Rightarrow> Inr \<lparr>byID = index_tenants Map.empty (tf_Tenants tf)\<rparr>))"

definition Store_Get :: "store \<Rightarrow> string \<Rightarrow> tenant option" where
  "Store_Get s tenantID = byID s tenantID"

definition Store_DagVersion :: "store \<Rightarrow> string \<Rightarrow> string \<Rightarrow> i32 option" where
  "Store_DagVersion s tenantID product =
     (case byID s tenantID of
        None \<Rightarrow> None
      | Some t \<Rightarrow> t_DagVersions t product)"

section \<open>The server\<close>

record TenantContext =
  tc_TenantId :: string
  tc_DisplayName :: string
  tc_Status :: string

record GetTenantRequest =
  gt_TenantId :: string

record GetDagVersionRequest =
  gdv_TenantId :: string
  gdv_Product :: string

record GetDagVersionResponse =
  gdr_Version :: i32

definition Server_GetTenant ::
  "store \<Rightarrow> logger option \<Rightarrow> gcontext \<Rightarrow> GetTenantRequest \<Rightarrow> (TenantContext option, 'e) go_call"
where
  "Server_GetTenant st l ctx req w =
     (let lg = FromContext ctx l in
      case Store_Get st (gt_TenantId req) of
        None \<Rightarrow>
          ((None, Some (StatusError NotFound [Lit ''tenant '', Quoted (gt_TenantId req), Lit '' not found''])),
           log_at Warn lg ''get tenant: not found'' [(''tenant_id'', LStr (gt_TenantId req))] w)
      | Some t \<Rightarrow>
          ((Some \<lparr>tc_TenantId = t_TenantID t, tc_DisplayName = t_DisplayName t,
                  tc_Status = t_Status t\<rparr>, None),
           log_at Info lg ''get tenant''
             [(''tenant_id'', LStr (t_TenantID t)), (''status'', LStr (t_Status t))] w))"

definition Server_GetDagVersion ::
  "store \<Rightarrow> logger option \<Rightarrow> gcontext \<Rightarrow> GetDagVersionRequest \<Rightarrow> (GetDagVersionResponse option, 'e) go_call"
where
  "Server_GetDagVersion st l ctx req w =
     (let lg = FromContext ctx l in
      case Store_DagVersion st (gdv_TenantId req) (gdv_Product req) of
        None \<Rightarrow>
          ((None, Some (StatusError NotFound
              [Lit ''no dag version configured for tenant '', Quoted (gdv_TenantId req),
               Lit '' product '', Quoted (gdv_Product req)])),
           log_at Warn lg ''get dag version: not found'' [(''product'', LStr (gdv_Product req))] w)
      | Some v \<Rightarrow>
          ((Some \<lparr>gdr_Version = v\<rparr>, None),
           log_at Info lg ''get dag version''
             [(''product'', LStr (gdv_Product req)), (''version'', LInt (sint v))] w))"

section \<open>Loading\<close>

lemma index_tenants_append:
  "index_tenants m (xs @ ys) = index_tenants (index_tenants m xs) ys"
  by (induction xs arbitrary: m) auto

lemma index_tenants_lookup:
  "index_tenants m ts k =
     (case filter (\<lambda>t. t_TenantID t = k) ts of [] \<Rightarrow> m k | us \<Rightarrow> Some (last us))"
  by (induction ts arbitrary: m) (auto split: list.splits)

lemma index_tenants_key:
  "index_tenants Map.empty ts k = Some t \<Longrightarrow> t \<in> set ts \<and> t_TenantID t = k"
proof -
  assume "index_tenants Map.empty ts k = Some t"
  then have "t \<in> set (filter (\<lambda>t. t_TenantID t = k) ts)"
    by (auto simp: index_tenants_lookup simp del: set_filter split: list.splits if_splits)
  then show ?thesis by simp
qed

text \<open>The index of a loaded store: every entry is filed under its own id.\<close>

definition store_wf :: "store \<Rightarrow> bool" where
  "store_wf s \<longleftrightarrow> (\<forall>k t. byID s k = Some t \<longrightarrow> t_TenantID t = k)"

lemma Store_Load_wf: "Store_Load rd um path = Inr s \<Longrightarrow> store_wf s"
  by (auto simp: Store_Load_def store_wf_def dest: index_tenants_key split: sum.splits)

section \<open>The directory interface\<close>

text \<open>
  What the RPC layer and its callers rely on, whatever the storage behind it: the version lookup
  is the tenant lookup followed by the tenant's own version table, and a tenant is found under
  its own id.
\<close>

locale tenant_directory =
  fixes invar :: "'st \<Rightarrow> bool"
    and Get :: "'st \<Rightarrow> string \<Rightarrow> tenant option"
    and DagVersion :: "'st \<Rightarrow> string \<Rightarrow> string \<Rightarrow> i32 option"
  assumes DagVersion_via_Get: "invar s \<Longrightarrow>
      DagVersion s k p = Option.bind (Get s k) (\<lambda>t. t_DagVersions t p)"
    and Get_id: "invar s \<Longrightarrow> Get s k = Some t \<Longrightarrow> t_TenantID t = k"
begin

lemma version_implies_tenant:
  assumes "invar s" and "DagVersion s k p = Some v"
  shows "\<exists>t. Get s k = Some t \<and> t_TenantID t = k \<and> t_DagVersions t p = Some v"
  using assms by (auto simp: DagVersion_via_Get Get_id split: Option.bind_splits)

lemma unknown_tenant_no_version:
  "invar s \<Longrightarrow> Get s k = None \<Longrightarrow> DagVersion s k p = None"
  by (simp add: DagVersion_via_Get)

end

interpretation yaml_store: tenant_directory store_wf Store_Get Store_DagVersion
  by unfold_locales
    (auto simp: Store_Get_def Store_DagVersion_def store_wf_def split: option.splits)

section \<open>Properties\<close>

text \<open>
  A loaded store answers from the parsed file: a tenant is found exactly when the file lists
  one with that id, filed under its own id, and of several entries with the same id the last wins.
\<close>

theorem Store_Load_lookup:
  assumes "Store_Load ReadFile Unmarshal path = Inr s"
  shows "\<exists>data tf. ReadFile path = Inr data \<and> Unmarshal data = Inr tf \<and>
    (\<forall>k. Store_Get s k =
       (if k \<in> t_TenantID ` set (tf_Tenants tf)
        then Some (last (filter (\<lambda>t. t_TenantID t = k) (tf_Tenants tf))) else None))"
proof -
  from assms obtain data tf where "ReadFile path = Inr data" "Unmarshal data = Inr tf"
    and s: "s = \<lparr>byID = index_tenants Map.empty (tf_Tenants tf)\<rparr>"
    by (auto simp: Store_Load_def split: sum.splits)
  moreover have "Store_Get s k =
       (if k \<in> t_TenantID ` set (tf_Tenants tf)
        then Some (last (filter (\<lambda>t. t_TenantID t = k) (tf_Tenants tf))) else None)" for k
  proof (cases "k \<in> t_TenantID ` set (tf_Tenants tf)")
    case True
    then have "filter (\<lambda>t. t_TenantID t = k) (tf_Tenants tf) \<noteq> []" by (auto simp: filter_empty_conv)
    with True show ?thesis by (simp add: Store_Get_def s index_tenants_lookup split: list.split)
  next
    case False
    then have "filter (\<lambda>t. t_TenantID t = k) (tf_Tenants tf) = []" by (auto simp: filter_empty_conv)
    with False show ?thesis by (simp add: Store_Get_def s index_tenants_lookup)
  qed
  ultimately show ?thesis by blast
qed

definition acme_tenant :: tenant where
  "acme_tenant = \<lparr>t_TenantID = ''acme_insurance'', t_DisplayName = ''Acme Insurance Co'', t_Status = ''active'',
     t_DagVersions = [''auto'' \<mapsto> 4]\<rparr>"

definition globex_tenant :: tenant where
  "globex_tenant = \<lparr>t_TenantID = ''globex_insurance'', t_DisplayName = ''Globex Insurance Co'',
     t_Status = ''suspended'', t_DagVersions = [''auto'' \<mapsto> 4]\<rparr>"

text \<open>The parsed content of \<open>config/tenants.yaml\<close>.\<close>

definition shipped_tenants :: tenantsFile where
  "shipped_tenants = \<lparr>tf_Tenants = [acme_tenant, globex_tenant]\<rparr>"

lemma shipped_store:
  "Store_Load (\<lambda>p. Inr data) (\<lambda>d. Inr shipped_tenants) path =
     Inr \<lparr>byID = [''acme_insurance'' \<mapsto> acme_tenant, ''globex_insurance'' \<mapsto> globex_tenant]\<rparr>"
  by (simp add: Store_Load_def shipped_tenants_def acme_tenant_def globex_tenant_def)

definition suspended_tenant :: tenant where
  "suspended_tenant = acme_tenant\<lparr>t_Status := ''suspended''\<rparr>"

definition demo_load :: "tenant list \<Rightarrow> gerror + store" where
  "demo_load ts = Store_Load (\<lambda>p. Inr ''tenants'') (\<lambda>d. Inr \<lparr>tf_Tenants = ts\<rparr>) ''config/tenants.yaml''"

theorem Store_Load_lookup_witness:
  "\<exists>s. demo_load [acme_tenant, suspended_tenant] = Inr s \<and>
     Store_Get s ''acme_insurance'' = Some suspended_tenant \<and> Store_Get s ''nobody'' = None"
proof -
  obtain s where s: "demo_load [acme_tenant, suspended_tenant] = Inr s"
    by (simp add: demo_load_def Store_Load_def)
  with Store_Load_lookup [OF s [unfolded demo_load_def]] show ?thesis
    by (auto simp: acme_tenant_def suspended_tenant_def)
qed

lemma Server_GetTenant_fst:
  "fst (Server_GetTenant st l ctx req w) =
     (case Store_Get st (gt_TenantId req) of
        None \<Rightarrow> (None, Some (StatusError NotFound
                  [Lit ''tenant '', Quoted (gt_TenantId req), Lit '' not found'']))
      | Some t \<Rightarrow> (Some \<lparr>tc_TenantId = t_TenantID t, tc_DisplayName = t_DisplayName t, tc_Status = t_Status t\<rparr>, None))"
  by (simp add: Server_GetTenant_def Let_def split: option.split)

lemma Server_GetDagVersion_fst:
  "fst (Server_GetDagVersion st l ctx req w) =
     (case Store_DagVersion st (gdv_TenantId req) (gdv_Product req) of
        None \<Rightarrow> (None, Some (StatusError NotFound
                  [Lit ''no dag version configured for tenant '', Quoted (gdv_TenantId req),
                   Lit '' product '', Quoted (gdv_Product req)]))
      | Some v \<Rightarrow> (Some \<lparr>gdr_Version = v\<rparr>, None))"
  by (simp add: Server_GetDagVersion_def Let_def split: option.split)

text \<open>
  (C36) The two RPCs of a server over a loaded store agree: a tenant is answered under the id that
  was asked for, a DAG version is only ever given for a tenant \<open>GetTenant\<close> also finds, and every
  failure of either is the gRPC status \<open>NotFound\<close>.
\<close>

theorem tenant_rpcs_agree:
  assumes "Store_Load ReadFile Unmarshal path = Inr st"
  shows "(case fst (Server_GetTenant st l ctx \<lparr>gt_TenantId = k\<rparr> w) of
            (Some tc, e) \<Rightarrow> e = None \<and> tc_TenantId tc = k
          | (None, e) \<Rightarrow> (\<exists>msg. e = Some (StatusError NotFound msg)) \<and>
              (\<exists>msg. fst (Server_GetDagVersion st l' ctx' \<lparr>gdv_TenantId = k, gdv_Product = p\<rparr> w') =
                 (None, Some (StatusError NotFound msg)))) \<and>
         (case fst (Server_GetDagVersion st l' ctx' \<lparr>gdv_TenantId = k, gdv_Product = p\<rparr> w') of
            (Some resp, e) \<Rightarrow> e = None \<and> (\<exists>tc. fst (Server_GetTenant st l ctx \<lparr>gt_TenantId = k\<rparr> w) = (Some tc, None))
          | (None, e) \<Rightarrow> \<exists>msg. e = Some (StatusError NotFound msg))"
proof -
  have wf: "store_wf st" using assms by (rule Store_Load_wf)
  show ?thesis
    using yaml_store.unknown_tenant_no_version [OF wf, of k p] yaml_store.Get_id [OF wf, of k]
    by (auto simp: Server_GetTenant_fst Server_GetDagVersion_fst split: option.split)
qed

theorem tenant_rpcs_agree_witness:
  "\<exists>st. demo_load [acme_tenant] = Inr st \<and>
     (\<exists>tc. fst (Server_GetTenant st None Background \<lparr>gt_TenantId = ''acme_insurance''\<rparr>
        \<lparr>clock = 0, logs = [], sched = (\<lambda>t. False), env = ()\<rparr>) = (Some tc, None) \<and> tc_TenantId tc = ''acme_insurance'')"
proof -
  obtain st where st: "demo_load [acme_tenant] = Inr st" and
    found: "Store_Get st ''acme_insurance'' = Some acme_tenant"
    by (auto simp: demo_load_def Store_Load_def Store_Get_def acme_tenant_def)
  let ?w = "\<lparr>clock = 0, logs = [], sched = (\<lambda>t. False), env = ()\<rparr>"
  from tenant_rpcs_agree [OF st [unfolded demo_load_def], where k = "''acme_insurance''" and ctx = Background
      and l = None and w = ?w and ctx' = Background and l' = None and p = "''auto''" and w' = ?w, THEN conjunct1]
  have "tc_TenantId tc = ''acme_insurance''"
    if "fst (Server_GetTenant st None Background \<lparr>gt_TenantId = ''acme_insurance''\<rparr>
        \<lparr>clock = 0, logs = [], sched = (\<lambda>t. False), env = ()\<rparr>) = (Some tc, None)" for tc
    using that by simp
  then show ?thesis using st found by (simp add: Server_GetTenant_fst)
qed

end
