(* ===== verification/Orchestration.thy ===== *)
theory Orchestration
  imports ExecutorProps TenantStore
begin

text \<open>
  The Orchestration Service around the executor: its RPC (\<open>internal/server/orchestration.go\<close>), its
  outbound clients (\<open>internal/client\<close>), and the wiring of \<open>cmd/orchestration/main.go\<close>. The
  stubs generated from the \<open>.proto\<close> files and the gRPC runtime below them are parameters: a stub
  is a function from a context and a request to an answer, and \<open>stub\<close> is what
  \<open>grpc.WithUnaryInterceptor\<close> makes of a connection's \<open>invoker\<close>.
\<close>

section \<open>Server\<close>

record ProcessClaimRequest =
  pq_Claim :: "ClaimEvent option"

record ProcessClaimResponse =
  ps_ClaimId :: string
  ps_CorrelationId :: string
  ps_Status :: string
  ps_NormalizedAddress :: string
  ps_FraudScore :: float64
  ps_ModelVersion :: string

definition claim_correlation :: "gcontext \<Rightarrow> ClaimEvent option \<Rightarrow> string" where
  "claim_correlation ctx claim =
     (let correlationID = get_str ce_CorrelationId claim
      in if correlationID = '''' then CorrelationIDFrom ctx else correlationID)"

definition ProcessClaim ::
  "'e executor \<Rightarrow> gcontext \<Rightarrow> ProcessClaimRequest \<Rightarrow> (ProcessClaimResponse option, 'e) go_call"
where
  "ProcessClaim e ctx req w =
     (let tenantID = TenantIDFrom ctx;
          correlationID = claim_correlation ctx (pq_Claim req)
      in case Run e ctx tenantID correlationID (pq_Claim req) w of
           ((r, Some err), w1) \<Rightarrow> ((None, Some err), w1)
         | ((None, None), w1) \<Rightarrow> ((None, Some (GoPanic [Lit ''nil pointer dereference''])), w1)
         | ((Some result, None), w1) \<Rightarrow>
             ((Some \<lparr>ps_ClaimId = get_str ce_ClaimId (pq_Claim req), ps_CorrelationId = correlationID,
                     ps_Status = r_Status result, ps_NormalizedAddress = r_NormalizedAddress result,
                     ps_FraudScore = r_FraudScore result, ps_ModelVersion = r_ModelVersion result\<rparr>, None), w1))"

section \<open>Clients\<close>

type_synonym ('req, 'resp, 'e) rpc = "gcontext \<Rightarrow> 'req \<Rightarrow> ('resp option, 'e) go_call"

definition stub ::
  "logger \<Rightarrow> (gcontext \<Rightarrow> string \<Rightarrow> 'req \<Rightarrow> ('resp option, 'e) go_call) \<Rightarrow> string \<Rightarrow> ('req, 'resp, 'e) rpc"
where
  "stub l invoker method ctx req = UnaryClientInterceptor (Some l) invoker ctx method req"

text \<open>
  The \<open>Dial\<close> functions differ only in the stub they wrap: \<open>grpc.NewClient\<close>, which may refuse the
  address, then a warm-up of 5 seconds whose outcome is ignored. \<open>None\<close> is a warm-up that never ends.
\<close>

type_synonym 'e dial = "string \<Rightarrow> logger \<Rightarrow> 'e world \<Rightarrow> ((gerror + 'e client_conn) \<times> 'e world) option"

definition dial_client :: "(string \<Rightarrow> gerror + 'e client_conn) \<Rightarrow> 'e dial" where
  "dial_client NewClient addr l w =
     (case NewClient addr of
        Inl err \<Rightarrow> Some (Inl err, w)
      | Inr conn \<Rightarrow>
          (case WarmUp conn l addr (5 * Second) w of
             None \<Rightarrow> None
           | Some w' \<Rightarrow> Some (Inr conn, w')))"

definition DialAddressNorm :: "(string \<Rightarrow> gerror + 'e client_conn) \<Rightarrow> 'e dial" where
  "DialAddressNorm NewClient addr l = dial_client NewClient addr l"

definition DialClaimantIDHash :: "(string \<Rightarrow> gerror + 'e client_conn) \<Rightarrow> 'e dial" where
  "DialClaimantIDHash NewClient addr l = dial_client NewClient addr l"

definition DialModel :: "(string \<Rightarrow> gerror + 'e client_conn) \<Rightarrow> 'e dial" where
  "DialModel NewClient addr l = dial_client NewClient addr l"

definition DialPolicyLookup :: "(string \<Rightarrow> gerror + 'e client_conn) \<Rightarrow> 'e dial" where
  "DialPolicyLookup NewClient addr l = dial_client NewClient addr l"

definition DialTenantConfig :: "(string \<Rightarrow> gerror + 'e client_conn) \<Rightarrow> 'e dial" where
  "DialTenantConfig NewClient addr l = dial_client NewClient addr l"

text \<open>\<open>Close\<close> closes the connection the client was dialled with.\<close>

definition AddressNormClient_Close :: "'e client_conn \<Rightarrow> 'e world \<Rightarrow> gerror option \<times> 'e world" where
  "AddressNormClient_Close c = conn_Close c"

definition ClaimantIDHashClient_Close :: "'e client_conn \<Rightarrow> 'e world \<Rightarrow> gerror option \<times> 'e world" where
  "ClaimantIDHashClient_Close c = conn_Close c"

definition ModelClient_Close :: "'e client_conn \<Rightarrow> 'e world \<Rightarrow> gerror option \<times> 'e world" where
  "ModelClient_Close c = conn_Close c"

definition PolicyLookupClient_Close :: "'e client_conn \<Rightarrow> 'e world \<Rightarrow> gerror option \<times> 'e world" where
  "PolicyLookupClient_Close c = conn_Close c"

definition TenantConfigClient_Close :: "'e client_conn \<Rightarrow> 'e world \<Rightarrow> gerror option \<times> 'e world" where
  "TenantConfigClient_Close c = conn_Close c"

record NormalizeRequest =
  nq_CorrelationId :: string
  nq_RawAddress :: string

definition AddressNormClient_Normalize ::
  "(NormalizeRequest, NormalizeResponse, 'e) rpc \<Rightarrow> gcontext \<Rightarrow> string \<Rightarrow> string \<Rightarrow> (NormalizeResponse option, 'e) go_call"
where
  "AddressNormClient_Normalize rpc ctx correlationID rawAddress =
     rpc ctx \<lparr>nq_CorrelationId = correlationID, nq_RawAddress = rawAddress\<rparr>"

record HashClaimantIdRequest =
  hq_CorrelationId :: string
  hq_ClaimantName :: string

definition ClaimantIDHashClient_Hash ::
  "(HashClaimantIdRequest, HashClaimantIdResponse, 'e) rpc \<Rightarrow> gcontext \<Rightarrow> string \<Rightarrow> string \<Rightarrow>
     (HashClaimantIdResponse option, 'e) go_call"
where
  "ClaimantIDHashClient_Hash rpc ctx correlationID claimantName =
     rpc ctx \<lparr>hq_CorrelationId = correlationID, hq_ClaimantName = claimantName\<rparr>"

record LookupPolicyRequest =
  lq_CorrelationId :: string
  lq_PolicyNumber :: string

definition PolicyLookupClient_Lookup ::
  "(LookupPolicyRequest, LookupPolicyResponse, 'e) rpc \<Rightarrow> gcontext \<Rightarrow> string \<Rightarrow> string \<Rightarrow>
     (LookupPolicyResponse option, 'e) go_call"
where
  "PolicyLookupClient_Lookup rpc ctx correlationID policyNumber =
     rpc ctx \<lparr>lq_CorrelationId = correlationID, lq_PolicyNumber = policyNumber\<rparr>"

definition ModelClient_Score ::
  "(ScoreRequest, ScoreResponse, 'e) rpc \<Rightarrow> gcontext \<Rightarrow> string \<Rightarrow> (string \<rightharpoonup> string) \<Rightarrow> (ScoreResponse option, 'e) go_call"
where
  "ModelClient_Score rpc ctx correlationID features =
     rpc ctx \<lparr>sr_CorrelationId = correlationID, sr_Features = features\<rparr>"

text \<open>\<open>resp.GetVersion()\<close> is 0 on a nil response.\<close>

definition TenantConfigClient_GetDagVersion ::
  "(GetDagVersionRequest, GetDagVersionResponse, 'e) rpc \<Rightarrow> gcontext \<Rightarrow> string \<Rightarrow> string \<Rightarrow> (i32, 'e) go_call"
where
  "TenantConfigClient_GetDagVersion rpc ctx tenantID product w =
     (case rpc ctx \<lparr>gdv_TenantId = tenantID, gdv_Product = product\<rparr> w of
        ((resp, Some err), w1) \<Rightarrow> ((0, Some err), w1)
      | ((resp, None), w1) \<Rightarrow> (((case resp of None \<Rightarrow> 0 | Some r \<Rightarrow> gdr_Version r), None), w1))"

section \<open>Wiring\<close>

text \<open>The stubs of the five dialled connections and the Kafka library's writer.\<close>

record 'e backends =
  b_GetDagVersion :: "(GetDagVersionRequest, GetDagVersionResponse, 'e) rpc"
  b_Normalize :: "(NormalizeRequest, NormalizeResponse, 'e) rpc"
  b_HashClaimantId :: "(HashClaimantIdRequest, HashClaimantIdResponse, 'e) rpc"
  b_LookupPolicy :: "(LookupPolicyRequest, LookupPolicyResponse, 'e) rpc"
  b_Score :: "(ScoreRequest, ScoreResponse, 'e) rpc"
  b_WriteMessages :: "'e write_messages"
  b_ReadFile :: "'e \<Rightarrow> string \<Rightarrow> gerror + string"
  b_Unmarshal :: "string \<Rightarrow> gerror + config"

definition orchestration_executor :: "'e backends \<Rightarrow> string \<Rightarrow> string \<Rightarrow> 'e executor" where
  "orchestration_executor b kafkaBrokerAddr dagConfigDir =
     (let l = NewLogger ''orchestration-service'';
          publisher = NewPublisher kafkaBrokerAddr;
          loader = \<lparr>l_TenantConfig = TenantConfigClient_GetDagVersion (b_GetDagVersion b),
                    l_ConfigDir = dagConfigDir, l_Logger = Some l\<rparr>
      in \<lparr>x_Load = Loader_Load (b_ReadFile b) (b_Unmarshal b) loader,
          x_Normalize = AddressNormClient_Normalize (b_Normalize b),
          x_Hash = ClaimantIDHashClient_Hash (b_HashClaimantId b),
          x_Lookup = PolicyLookupClient_Lookup (b_LookupPolicy b),
          x_Score = ModelClient_Score (b_Score b),
          x_Publish = Publish (b_WriteMessages b) publisher,
          x_Logger = Some l\<rparr>)"

text \<open>\<open>getenv\<close>: a set but empty variable counts as unset.\<close>

definition getenv :: "(string \<rightharpoonup> string) \<Rightarrow> string \<Rightarrow> string \<Rightarrow> string" where
  "getenv environ key fallback = (if go_index environ key \<noteq> '''' then go_index environ key else fallback)"

section \<open>Properties\<close>

text \<open>A run returns a result or an error, never both and never neither.\<close>

lemma run_stages_exclusive:
  obtains r w' where "run_stages v w = ((Some r, None), w')" "r_Status r \<in> {''scored'', ''degraded''}"
  | err w' where "run_stages v w = ((None, Some err), w')"
proof -
  obtain res w' where rs: "run_stages v w = (res, w')" by fastforce
  then show ?thesis
  proof (cases rule: run_stages_cases)
    case (finished outs1 w1 outs2 w2 r outs3)
    with rs that(1) show ?thesis by (simp add: result_of_def enrichment_after_def)
  qed (use rs that(2) in simp_all)
qed

lemma Run_exclusive:
  obtains r w' where "Run e ctx t k claim w = ((Some r, None), w')" "r_Status r \<in> {''scored'', ''degraded''}"
  | err w' where "Run e ctx t k claim w = ((None, Some err), w')"
proof -
  obtain res w' where r: "Run e ctx t k claim w = (res, w')" by fastforce
  then show ?thesis
  proof (cases rule: Run_cases)
    case (stages cfg w0)
    with r that run_stages_exclusive [of "run_view e ctx t k claim cfg" w0] show ?thesis by (metis)
  qed (use r that(2) in simp_all)
qed

text \<open>
  (C30) \<open>ProcessClaim\<close> answers every request with a response or an error, never with both, neither or a
  panic of its own. A response echoes the claim id, carries the claim's correlation id, or that of the
  metadata if the claim has none, has the status \<open>scored\<close> or \<open>degraded\<close> (never \<open>failed\<close>), and comes from
  a successful run for the tenant of the metadata; an error is the run's own, unchanged.
\<close>

theorem ProcessClaim_answers:
  "let claim = pq_Claim req;
       k = (if get_str ce_CorrelationId claim = '''' then CorrelationIDFrom ctx else get_str ce_CorrelationId claim)
   in (\<exists>r resp w'. Run e ctx (TenantIDFrom ctx) k claim w = ((Some r, None), w') \<and>
         ProcessClaim e ctx req w = ((Some resp, None), w') \<and>
         ps_ClaimId resp = get_str ce_ClaimId claim \<and> ps_CorrelationId resp = k \<and>
         ps_Status resp = r_Status r \<and> ps_Status resp \<in> {''scored'', ''degraded''} \<and>
         ps_NormalizedAddress resp = r_NormalizedAddress r \<and>
         ps_FraudScore resp = r_FraudScore r \<and> ps_ModelVersion resp = r_ModelVersion r) \<or>
      (\<exists>err w'. Run e ctx (TenantIDFrom ctx) k claim w = ((None, Some err), w') \<and>
         ProcessClaim e ctx req w = ((None, Some err), w'))"
  by (rule Run_exclusive [of e ctx "TenantIDFrom ctx" "claim_correlation ctx (pq_Claim req)" "pq_Claim req" w])
    (auto simp: ProcessClaim_def claim_correlation_def Let_def)

end
