(* ===== verification/Hex.thy ===== *)
theory Hex
  imports "HOL-Library.Word"
begin

text \<open>
  Lower-case hexadecimal text of a byte sequence, as \<open>hex.EncodeToString\<close> and \<open>HexFormat.formatHex\<close>
  produce it: two digits per byte, from which the bytes can be read back.
\<close>

definition hextable :: string where
  "hextable = ''0123456789abcdef''"

definition hex_EncodeToString :: "8 word list \<Rightarrow> string" where
  "hex_EncodeToString bs = concat (map (\<lambda>b. [hextable ! (unat b div 16), hextable ! (unat b mod 16)]) bs)"

lemma hextable_no_dash: "CHR ''-'' \<notin> set hextable"
  by (simp add: hextable_def)

lemma hextable_facts: "distinct hextable" "length hextable = 16"
  by (simp_all add: hextable_def)

lemma high_digit: "unat (b :: 8 word) div 16 < 16"
proof -
  have "unat b < 2 ^ LENGTH(8)" by (rule unsigned_less)
  then show ?thesis by (simp add: less_mult_imp_div_less)
qed

lemma hex_digits_eq:
  assumes "hextable ! (unat b div 16) = hextable ! (unat (b' :: 8 word) div 16)"
    and "hextable ! (unat b mod 16) = hextable ! (unat b' mod 16)"
  shows "b = (b' :: 8 word)"
proof -
  have "unat b div 16 = unat b' div 16" "unat b mod 16 = unat b' mod 16"
    using assms high_digit [of b] high_digit [of b'] hextable_facts by (simp_all add: nth_eq_iff_index_eq)
  then have "unat b = unat b'" by (metis div_mod_decomp)
  then show ?thesis by (rule unsigned_word_eqI)
qed

lemma hex_inject: "hex_EncodeToString bs = hex_EncodeToString bs' \<longleftrightarrow> bs = bs'"
proof (induction bs arbitrary: bs')
  case Nil
  then show ?case by (cases bs') (simp_all add: hex_EncodeToString_def)
next
  case (Cons b bs)
  show ?case
  proof (cases bs')
    case (Cons b' cs)
    then show ?thesis using Cons.IH [of cs] hex_digits_eq [of b b'] by (auto simp: hex_EncodeToString_def)
  qed (simp add: hex_EncodeToString_def)
qed

lemma hex_length: "length (hex_EncodeToString bs) = 2 * length bs"
  by (induction bs) (simp_all add: hex_EncodeToString_def)

lemma hex_chars: "set (hex_EncodeToString bs) \<subseteq> set hextable"
  using hextable_facts(2) high_digit by (auto simp: hex_EncodeToString_def intro!: nth_mem)

end
