(* ===== verification/Gateway.thy ===== *)
theory Gateway
  imports Orchestration Hex
begin

text \<open>
  The claims gateway: \<open>internal/handler/claims.go\<close> (the REST endpoint), \<open>internal/correlation\<close> (request
  ids) and the outbound clients. A request body is the first JSON document of the stream, or the
  message of the syntax or I/O error met while reading it; how \<open>encoding/json\<close> stores such a document
  into the request structure (case-insensitive keys, duplicates, nulls, type errors) is modelled in
  full. The random source and the two generated stubs are parameters.
\<close>

section \<open>Correlation ids\<close>

text \<open>\<open>rand.Read(b)\<close> for 16 bytes: the bytes, or an error.\<close>

type_synonym 'e rand_source = "'e world \<Rightarrow> 8 word list option \<times> 'e world"

definition correlation_New :: "'e rand_source \<Rightarrow> 'e world \<Rightarrow> string \<times> 'e world" where
  "correlation_New rand_Read w =
     (case rand_Read w of
        (None, w') \<Rightarrow> (''correlation-id-unavailable'', w')
      | (Some b, w') \<Rightarrow> (hex_EncodeToString b, w'))"

section \<open>Decoding a claim\<close>

record claimRequest =
  cr_ClaimID :: string
  cr_Product :: string
  cr_EventType :: string
  cr_PolicyNumber :: string
  cr_ClaimantName :: string
  cr_RawAddress :: string

definition zero_claimRequest :: claimRequest where
  "zero_claimRequest = \<lparr>cr_ClaimID = '''', cr_Product = '''', cr_EventType = '''', cr_PolicyNumber = '''',
     cr_ClaimantName = '''', cr_RawAddress = ''''\<rparr>"

datatype claim_field = FClaimID | FProduct | FEventType | FPolicyNumber | FClaimantName | FRawAddress

definition claim_fields :: "claim_field list" where
  "claim_fields = [FClaimID, FProduct, FEventType, FPolicyNumber, FClaimantName, FRawAddress]"

fun field_tag :: "claim_field \<Rightarrow> string" where
  "field_tag FClaimID = ''claim_id''"
| "field_tag FProduct = ''product''"
| "field_tag FEventType = ''event_type''"
| "field_tag FPolicyNumber = ''policy_number''"
| "field_tag FClaimantName = ''claimant_name''"
| "field_tag FRawAddress = ''raw_address''"

fun get_field :: "claim_field \<Rightarrow> claimRequest \<Rightarrow> string" where
  "get_field FClaimID = cr_ClaimID"
| "get_field FProduct = cr_Product"
| "get_field FEventType = cr_EventType"
| "get_field FPolicyNumber = cr_PolicyNumber"
| "get_field FClaimantName = cr_ClaimantName"
| "get_field FRawAddress = cr_RawAddress"

fun set_field :: "claim_field \<Rightarrow> string \<Rightarrow> claimRequest \<Rightarrow> claimRequest" where
  "set_field FClaimID v r = r\<lparr>cr_ClaimID := v\<rparr>"
| "set_field FProduct v r = r\<lparr>cr_Product := v\<rparr>"
| "set_field FEventType v r = r\<lparr>cr_EventType := v\<rparr>"
| "set_field FPolicyNumber v r = r\<lparr>cr_PolicyNumber := v\<rparr>"
| "set_field FClaimantName v r = r\<lparr>cr_ClaimantName := v\<rparr>"
| "set_field FRawAddress v r = r\<lparr>cr_RawAddress := v\<rparr>"

text \<open>
  The folding of a key for a case-insensitive match, on UTF-8 bytes. ASCII letters fold to upper case;
  of the other letters only U+017F (long s) and U+212A (Kelvin sign) fold to an ASCII letter.
\<close>

fun fold_name :: "string \<Rightarrow> string" where
  "fold_name [] = []"
| "fold_name (c # s) =
     (if c = CHR 0xC5 \<and> take 1 s = [CHR 0xBF] then CHR ''S'' # fold_name (drop 1 s)
      else if c = CHR 0xE2 \<and> take 2 s = [CHR 0x84, CHR 0xAA] then CHR ''K'' # fold_name (drop 2 s)
      else upper_ascii c # fold_name s)"

definition match_field :: "string \<Rightarrow> claim_field option" where
  "match_field key =
     (case find (\<lambda>f. field_tag f = key) claim_fields of
        Some f \<Rightarrow> Some f
      | None \<Rightarrow> find (\<lambda>f. fold_name (field_tag f) = fold_name key) claim_fields)"

fun json_kind :: "json \<Rightarrow> string" where
  "json_kind JNull = ''null''"
| "json_kind (JBool b) = ''bool''"
| "json_kind (JNum x) = ''number''"
| "json_kind (JStr s) = ''string''"
| "json_kind (JArr js) = ''array''"
| "json_kind (JObj fs) = ''object''"

definition field_type_error :: "json \<Rightarrow> claim_field \<Rightarrow> string" where
  "field_type_error j f =
     ''json: cannot unmarshal '' @ json_kind j @ '' into Go struct field claimRequest.'' @ field_tag f @ '' of type string''"

definition save_error :: "string option \<Rightarrow> string \<Rightarrow> string option" where
  "save_error saved msg = (case saved of None \<Rightarrow> Some msg | Some e \<Rightarrow> Some e)"

fun decode_fields :: "(string \<times> json) list \<Rightarrow> claimRequest \<Rightarrow> string option \<Rightarrow> claimRequest \<times> string option" where
  "decode_fields [] r saved = (r, saved)"
| "decode_fields ((key, j) # kvs) r saved =
     (case match_field key of
        None \<Rightarrow> decode_fields kvs r saved
      | Some f \<Rightarrow>
          (case j of
             JStr v \<Rightarrow> decode_fields kvs (set_field f v r) saved
           | JNull \<Rightarrow> decode_fields kvs r saved
           | _ \<Rightarrow> decode_fields kvs r (save_error saved (field_type_error j f))))"

definition Decode :: "string + json \<Rightarrow> string + claimRequest" where
  "Decode body =
     (case body of
        Inl msg \<Rightarrow> Inl msg
      | Inr JNull \<Rightarrow> Inr zero_claimRequest
      | Inr (JObj kvs) \<Rightarrow>
          (case decode_fields kvs zero_claimRequest None of
             (r, Some msg) \<Rightarrow> Inl msg
           | (r, None) \<Rightarrow> Inr r)
      | Inr j \<Rightarrow> Inl (''json: cannot unmarshal '' @ json_kind j @ '' into Go value of type handler.claimRequest''))"

section \<open>HTTP\<close>

record http_request =
  rq_Method :: string
  rq_Body :: "string + json"
  rq_Context :: gcontext

record http_response =
  hs_Header :: "(string \<times> string) list"
  hs_Status :: nat
  hs_Body :: "json option"

text \<open>A handler answers, or panics, in which case \<open>net/http\<close> aborts the connection.\<close>

datatype http_result = Responded http_response | Panicked

fun json_finite :: "json \<Rightarrow> bool" where
  "json_finite (JNum x) = is_finite x"
| "json_finite (JArr js) = list_all json_finite js"
| "json_finite (JObj kvs) = list_all (\<lambda>kv. json_finite (snd kv)) kvs"
| "json_finite j = True"

text \<open>\<open>_ = json.NewEncoder(w).Encode(body)\<close>: an encoding error leaves the body empty.\<close>

definition writeJSON :: "(string \<times> string) list \<Rightarrow> nat \<Rightarrow> json \<Rightarrow> http_response" where
  "writeJSON header status body =
     \<lparr>hs_Header = header @ [(''Content-Type'', ''application/json'')], hs_Status = status,
      hs_Body = (if json_finite body then Some body else None)\<rparr>"

definition errorResponse_json :: "string \<Rightarrow> json" where
  "errorResponse_json msg = JObj [(''error'', JStr msg)]"

definition writeError :: "(string \<times> string) list \<Rightarrow> nat \<Rightarrow> string \<Rightarrow> http_response" where
  "writeError header status msg = writeJSON header status (errorResponse_json msg)"

definition Healthz :: "http_request \<Rightarrow> http_response" where
  "Healthz r = writeJSON [] 200 (JObj [(''status'', JStr ''ok'')])"

section \<open>Submitting a claim\<close>

definition hardcodedTenantID :: string where
  "hardcodedTenantID = ''acme_insurance''"

definition orchestrationTimeout :: duration where
  "orchestrationTimeout = 5 * Second"

definition tenantConfigTimeout :: duration where
  "tenantConfigTimeout = 2 * Second"

record 'e claims_handler =
  h_GetTenant :: "gcontext \<Rightarrow> string \<Rightarrow> (TenantContext option, 'e) go_call"
  h_ProcessClaim :: "(ProcessClaimRequest, ProcessClaimResponse, 'e) rpc"
  h_Logger :: "logger option"

definition TenantConfigClient_GetTenant ::
  "(GetTenantRequest, TenantContext, 'e) rpc \<Rightarrow> gcontext \<Rightarrow> string \<Rightarrow> (TenantContext option, 'e) go_call"
where
  "TenantConfigClient_GetTenant rpc ctx tenantID = rpc ctx \<lparr>gt_TenantId = tenantID\<rparr>"

definition OrchestrationClient_ProcessClaim ::
  "(ProcessClaimRequest, ProcessClaimResponse, 'e) rpc \<Rightarrow> gcontext \<Rightarrow> ProcessClaimRequest \<Rightarrow>
     (ProcessClaimResponse option, 'e) go_call"
where
  "OrchestrationClient_ProcessClaim rpc ctx req = rpc ctx req"

definition DialOrchestration :: "(string \<Rightarrow> gerror + 'e client_conn) \<Rightarrow> 'e dial" where
  "DialOrchestration NewClient addr l = dial_client NewClient addr l"

text \<open>The gateway's own \<open>DialTenantConfig\<close>.\<close>

definition gateway_DialTenantConfig :: "(string \<Rightarrow> gerror + 'e client_conn) \<Rightarrow> 'e dial" where
  "gateway_DialTenantConfig NewClient addr l = dial_client NewClient addr l"

definition OrchestrationClient_Close :: "'e client_conn \<Rightarrow> 'e world \<Rightarrow> gerror option \<times> 'e world" where
  "OrchestrationClient_Close c = conn_Close c"

definition gateway_TenantConfigClient_Close :: "'e client_conn \<Rightarrow> 'e world \<Rightarrow> gerror option \<times> 'e world" where
  "gateway_TenantConfigClient_Close c = conn_Close c"

definition resolveTenant :: "'e claims_handler \<Rightarrow> gcontext \<Rightarrow> string \<Rightarrow> (TenantContext option, 'e) go_call" where
  "resolveTenant h parent correlationID w =
     h_GetTenant h (WithTimeout parent (clock w) tenantConfigTimeout) hardcodedTenantID w"

text \<open>The handler's logger with the ids of the context, \<open>ClaimsHandler.log\<close>.\<close>

definition handler_log :: "'e claims_handler \<Rightarrow> gcontext \<Rightarrow> logger" where
  "handler_log h ctx = FromContext ctx (h_Logger h)"

definition claim_of :: "claimRequest \<Rightarrow> string \<Rightarrow> ClaimEvent" where
  "claim_of req correlationID =
     \<lparr>ce_ClaimId = cr_ClaimID req, ce_CorrelationId = correlationID, ce_Product = cr_Product req,
      ce_EventType = cr_EventType req, ce_PolicyNumber = cr_PolicyNumber req,
      ce_ClaimantName = cr_ClaimantName req, ce_RawAddress = cr_RawAddress req\<rparr>"

definition claimResponse_json :: "ProcessClaimResponse \<Rightarrow> json" where
  "claimResponse_json resp =
     JObj [(''claim_id'', JStr (ps_ClaimId resp)), (''correlation_id'', JStr (ps_CorrelationId resp)),
           (''status'', JStr (ps_Status resp)), (''normalized_address'', JStr (ps_NormalizedAddress resp)),
           (''fraud_score'', JNum (ps_FraudScore resp)), (''model_version'', JStr (ps_ModelVersion resp))]"

text \<open>The part of \<open>SubmitClaim\<close> after the request has been validated.\<close>

definition forward_claim :: "'e claims_handler \<Rightarrow> gcontext \<Rightarrow> string \<Rightarrow> claimRequest \<Rightarrow> 'e world \<Rightarrow> http_result \<times> 'e world" where
  "forward_claim h ctx correlationID req w =
     (case resolveTenant h ctx correlationID w of
        ((tenantCtx, Some err), w1) \<Rightarrow>
          (Responded (writeError [] 403 ''tenant not found or unavailable''),
           log_at Error (handler_log h ctx) ''tenant resolution failed''
             [(''tenant_id'', LStr hardcodedTenantID), (''error'', LErr err)] w1)
      | ((tenantCtx, None), w1) \<Rightarrow>
          if get_str tc_Status tenantCtx \<noteq> ''active'' then
            (Responded (writeError [] 403 ''tenant is not active''),
             log_at Warn (handler_log h ctx) ''tenant not active''
               [(''tenant_id'', LStr hardcodedTenantID), (''status'', LStr (get_str tc_Status tenantCtx))] w1)
          else
            (let ctx2 = WithTenantID ctx hardcodedTenantID;
                 orchCtx = WithTimeout ctx2 (clock w1) orchestrationTimeout
             in case h_ProcessClaim h orchCtx \<lparr>pq_Claim = Some (claim_of req correlationID)\<rparr> w1 of
                  ((resp, Some err), w2) \<Rightarrow>
                    (Responded (writeError [] 502 ''orchestration call failed''),
                     log_at Error (handler_log h ctx2) ''orchestration call failed'' [(''error'', LErr err)] w2)
                | ((None, None), w2) \<Rightarrow> (Panicked, w2)
                | ((Some resp, None), w2) \<Rightarrow> (Responded (writeJSON [] 200 (claimResponse_json resp)), w2)))"

definition SubmitClaim :: "'e rand_source \<Rightarrow> 'e claims_handler \<Rightarrow> http_request \<Rightarrow> 'e world \<Rightarrow> http_result \<times> 'e world" where
  "SubmitClaim rand_Read h r w =
     (if rq_Method r \<noteq> ''POST'' then
        (Responded (writeError [(''Allow'', ''POST'')] 405 ''method not allowed''), w)
      else
        (case Decode (rq_Body r) of
           Inl msg \<Rightarrow> (Responded (writeError [] 400 (''invalid request body: '' @ msg)), w)
         | Inr req \<Rightarrow>
             if cr_ClaimID req = '''' \<or> cr_Product req = '''' \<or> cr_EventType req = '''' then
               (Responded (writeError [] 400 ''claim_id, product, and event_type are required''), w)
             else
               (case correlation_New rand_Read w of
                  (correlationID, w1) \<Rightarrow>
                    forward_claim h (WithCorrelationID (rq_Context r) correlationID) correlationID req w1)))"

section \<open>Facts\<close>

lemma get_set_field [simp]: "get_field f (set_field g v r) = (if f = g then v else get_field f r)"
  by (cases f; cases g; simp)

lemma claimRequest_eq_iff: "r = r' \<longleftrightarrow> (\<forall>f. get_field f r = get_field f (r' :: claimRequest))"
proof
  assume eq: "\<forall>f. get_field f r = get_field f r'"
  show "r = r'"
    using eq [rule_format, of FClaimID] eq [rule_format, of FProduct] eq [rule_format, of FEventType]
      eq [rule_format, of FPolicyNumber] eq [rule_format, of FClaimantName] eq [rule_format, of FRawAddress]
    by (cases r; cases r') simp
qed simp

lemma get_field_zero [simp]: "get_field f zero_claimRequest = ''''"
  by (cases f) (simp_all add: zero_claimRequest_def)

text \<open>A key that names a field exactly matches that field.\<close>

lemma match_field_tag [simp]: "match_field (field_tag f) = Some f"
  by (cases f) (simp_all add: match_field_def claim_fields_def)

text \<open>The string values a document gives for a field, in order, and whether a value is storable.\<close>

fun text_for :: "claim_field \<Rightarrow> string \<times> json \<Rightarrow> string option" where
  "text_for f (key, JStr v) = (if match_field key = Some f then Some v else None)"
| "text_for f (key, j) = None"

fun storable :: "string \<times> json \<Rightarrow> bool" where
  "storable (key, j) \<longleftrightarrow> match_field key = None \<or> j = JNull \<or> (\<exists>v. j = JStr v)"

lemma decode_fields_spec:
  "(case decode_fields kvs r saved of (r', saved') \<Rightarrow>
     (saved' = None \<longleftrightarrow> saved = None \<and> list_all storable kvs) \<and>
     (\<forall>f. get_field f r' = last (get_field f r # List.map_filter (text_for f) kvs)))"
proof (induction kvs arbitrary: r saved)
  case Nil
  then show ?case by (simp add: List.map_filter_def)
next
  case (Cons kv kvs)
  obtain key j where kv: "kv = (key, j)" by fastforce
  show ?case
  proof (cases "match_field key")
    case None
    then have "text_for f (key, j) = None" for f by (cases j) simp_all
    with None kv Cons.IH [of saved r] show ?thesis by (simp add: List.map_filter_def)
  next
    case (Some g)
    show ?thesis
    proof (cases j)
      case (JStr v)
      with Some kv Cons.IH [of saved "set_field g v r"] show ?thesis
        by (auto simp: List.map_filter_def)
    qed (use Some kv Cons.IH [of saved r] Cons.IH [of "save_error saved (field_type_error j g)" r] in
        \<open>auto simp: List.map_filter_def save_error_def split: prod.splits option.splits\<close>)
  qed
qed

lemma decode_fields_filter:
  "decode_fields kvs r saved = decode_fields (filter (\<lambda>(k, j). match_field k \<noteq> None) kvs) r saved"
  by (induction kvs arbitrary: r saved) (auto split: option.splits json.splits)

section \<open>Properties\<close>

text \<open>
  (C39) A correlation id is the lower-case hex of the random bytes: 32 characters, two ids are equal only
  if all 16 bytes are, and the marker used when the random source fails is never a generated id.
\<close>

theorem correlation_New_unique:
  assumes "rand_Read w = (Some b, w1)" "length b = 16" "rand_Read w' = (Some b', w1')" "length b' = 16"
  shows "length (fst (correlation_New rand_Read w)) = 32 \<and>
    set (fst (correlation_New rand_Read w)) \<subseteq> set ''0123456789abcdef'' \<and>
    (fst (correlation_New rand_Read w) = fst (correlation_New rand_Read w') \<longleftrightarrow> b = b') \<and>
    fst (correlation_New rand_Read w) \<noteq> fst (correlation_New (\<lambda>w. (None, w)) w)"
proof -
  have "CHR ''-'' \<notin> set (hex_EncodeToString b)"
    using hex_chars [of b] hextable_no_dash by blast
  then have "hex_EncodeToString b \<noteq> ''correlation-id-unavailable''" by auto
  with assms hex_chars [of b] show ?thesis
    by (simp add: correlation_New_def hex_length hex_inject flip: hextable_def)
qed

theorem correlation_New_unique_witness:
  "(let rnd = (\<lambda>w. (Some (replicate 16 (word_of_int (clock w))), w));
        w = (\<lambda>t. \<lparr>clock = t, logs = [], sched = (\<lambda>t. False), env = ()\<rparr>)
    in fst (correlation_New rnd (w 171)) \<noteq> fst (correlation_New rnd (w 172)) \<and>
       length (fst (correlation_New rnd (w 171))) = 32)"
proof -
  let ?rnd = "\<lambda>w. (Some (replicate 16 (word_of_int (clock w))), w)"
  let ?w = "\<lambda>t. \<lparr>clock = t, logs = [], sched = (\<lambda>t. False), env = ()\<rparr>"
  have "replicate 16 (171 :: 8 word) \<noteq> replicate 16 172" by simp
  with correlation_New_unique [of ?rnd "?w 171" "replicate 16 171" "?w 171" "?w 172" "replicate 16 172" "?w 172"]
  show ?thesis by (simp add: Let_def)
qed

text \<open>
  What decoding a JSON object yields: an error exactly when some value under a matching key is
  neither a string nor null; otherwise each field holds the last string given for it under a matching
  key, or is empty.
\<close>

theorem Decode_object:
  "(case Decode (Inr (JObj kvs)) of
      Inl msg \<Rightarrow> \<not> list_all storable kvs
    | Inr r \<Rightarrow> list_all storable kvs \<and> (\<forall>f. get_field f r = last ('''' # List.map_filter (text_for f) kvs)))"
  using decode_fields_spec [of None kvs zero_claimRequest]
  by (auto simp: Decode_def split: prod.splits option.splits)

text \<open>The document of a request, as a client that uses the documented names sends it.\<close>

definition request_json :: "claimRequest \<Rightarrow> json" where
  "request_json r = JObj (map (\<lambda>f. (field_tag f, JStr (get_field f r))) claim_fields)"

lemma decode_request_json: "Decode (Inr (request_json r)) = Inr r"
proof -
  have tags: "match_field (field_tag f) = Some f" for f by (rule match_field_tag)
  note tags [of FClaimID, simplified, simp] tags [of FProduct, simplified, simp] tags [of FEventType, simplified, simp]
    tags [of FPolicyNumber, simplified, simp] tags [of FClaimantName, simplified, simp] tags [of FRawAddress, simplified, simp]
  show ?thesis
    by (cases r) (simp add: Decode_def request_json_def claim_fields_def zero_claimRequest_def)
qed

text \<open>
  Decoding gives a request back from its members in any order, repeated or not, whatever the texts of its
  fields.
\<close>

theorem Decode_any_order:
  assumes "set kvs = (\<lambda>f. (field_tag f, JStr (get_field f r))) ` set claim_fields"
  shows "Decode (Inr (JObj kvs)) = Inr r"
proof -
  have "set claim_fields = UNIV" using claim_field.exhaust by (auto simp: claim_fields_def)
  with assms have kvs: "set kvs = range (\<lambda>f. (field_tag f, JStr (get_field f r)))" by simp
  have val: "x = get_field f r" if "kv \<in> set kvs" "text_for f kv = Some x" for f kv x
    using that by (auto simp: kvs split: if_splits)
  have texts: "set (List.map_filter (text_for f) kvs) \<subseteq> {get_field f r}" for f
    using val by (auto simp: List.map_filter_def)
  have "get_field f r \<in> set (List.map_filter (text_for f) kvs)" for f
    using kvs by (force simp: List.map_filter_def image_iff)
  then have "last ('''' # List.map_filter (text_for f) kvs) = get_field f r" for f
    using texts [of f] by (metis empty_iff last.simps last_in_set list.set(1) singletonD subsetD)
  moreover have "list_all storable kvs" by (auto simp: list_all_iff kvs)
  ultimately show ?thesis
    using decode_fields_spec [of None kvs zero_claimRequest]
    by (auto simp: Decode_def claimRequest_eq_iff split: prod.splits option.splits)
qed

theorem Decode_any_order_witness:
  "Decode (Inr (JObj [(''raw_address'', JStr ''1 Main St''), (''claimant_name'', JStr ''Jane''), (''claim_id'', JStr ''clm-1''),
     (''policy_number'', JStr ''POL-1''), (''event_type'', JStr ''claim.fnol''), (''product'', JStr ''auto''), (''claim_id'', JStr ''clm-1'')])) =
   Inr \<lparr>cr_ClaimID = ''clm-1'', cr_Product = ''auto'', cr_EventType = ''claim.fnol'', cr_PolicyNumber = ''POL-1'',
        cr_ClaimantName = ''Jane'', cr_RawAddress = ''1 Main St''\<rparr>"
  by (rule Decode_any_order) (auto simp: claim_fields_def)

text \<open>
  (C38) Only the six documented keys, up to letter case, influence the answer: dropping every other
  member of the request object changes nothing, so a client cannot choose its tenant or correlation id.
\<close>

theorem SubmitClaim_ignores_other_keys:
  "SubmitClaim rand_Read h (r\<lparr>rq_Body := Inr (JObj kvs)\<rparr>) w =
     SubmitClaim rand_Read h (r\<lparr>rq_Body := Inr (JObj (filter (\<lambda>(k, j). match_field k \<noteq> None) kvs))\<rparr>) w \<and>
   match_field ''tenant_id'' = None \<and> match_field ''correlation_id'' = None"
proof -
  have "match_field ''tenant_id'' = None" "match_field ''correlation_id'' = None"
    by code_simp+
  moreover have "Decode (Inr (JObj kvs)) = Decode (Inr (JObj (filter (\<lambda>(k, j). match_field k \<noteq> None) kvs)))"
    using decode_fields_filter [of kvs zero_claimRequest None] by (simp add: Decode_def)
  ultimately show ?thesis by (simp add: SubmitClaim_def split: sum.split prod.split)
qed

text \<open>Whether a request passes the checks made before anything is called.\<close>

definition valid_request :: "http_request \<Rightarrow> bool" where
  "valid_request r \<longleftrightarrow> rq_Method r = ''POST'' \<and>
     (\<exists>req. Decode (rq_Body r) = Inr req \<and> cr_ClaimID req \<noteq> '''' \<and> cr_Product req \<noteq> '''' \<and> cr_EventType req \<noteq> '''')"

text \<open>
  (C37) A request that is not a POST, does not decode, or lacks a required field is answered with 405 or 400
  and an error body, and has no effect at all: no random bytes are drawn, nothing is logged or called.
\<close>

theorem SubmitClaim_invalid:
  assumes "\<not> valid_request r"
  shows "\<exists>resp msg. SubmitClaim rand_Read h r w = (Responded resp, w) \<and>
    hs_Status resp = (if rq_Method r = ''POST'' then 400 else 405) \<and>
    hs_Body resp = Some (JObj [(''error'', JStr msg)]) \<and>
    ((''Allow'', ''POST'') \<in> set (hs_Header resp) \<longleftrightarrow> rq_Method r \<noteq> ''POST'')"
  using assms
  by (auto simp: SubmitClaim_def valid_request_def writeError_def errorResponse_json_def writeJSON_def split: sum.splits)

definition demo_body :: "string + json" where
  "demo_body = Inr (JObj [(''claim_id'', JStr ''clm-1''), (''Product'', JStr ''auto''), (''event_type'', JStr ''claim.fnol''),
     (''tenant_id'', JStr ''beta_mutual'')])"

definition demo_request :: "string + json \<Rightarrow> http_request" where
  "demo_request body = \<lparr>rq_Method = ''POST'', rq_Body = body, rq_Context = Background\<rparr>"

definition demo_handler :: "string \<Rightarrow> 'e claims_handler" where
  "demo_handler status =
     \<lparr>h_GetTenant = (\<lambda>c t w. ((Some \<lparr>tc_TenantId = t, tc_DisplayName = ''Acme'', tc_Status = status\<rparr>, None), w)),
      h_ProcessClaim = (\<lambda>c rq w. ((Some \<lparr>ps_ClaimId = get_str ce_ClaimId (pq_Claim rq), ps_CorrelationId = CorrelationIDFrom c,
         ps_Status = ''scored'', ps_NormalizedAddress = '''', ps_FraudScore = hundredths 5, ps_ModelVersion = ''rules-v1''\<rparr>, None), w)),
      h_Logger = None\<rparr>"

definition demo_rand :: "'e rand_source" where
  "demo_rand w = (Some (replicate 16 171), w)"

theorem SubmitClaim_invalid_witness:
  "\<exists>resp. SubmitClaim demo_rand (demo_handler ''active'') (demo_request (Inl ''EOF'')) quiet_world = (Responded resp, quiet_world) \<and>
     hs_Status resp = 400"
proof -
  have "\<not> valid_request (demo_request (Inl ''EOF''))" by (simp add: valid_request_def demo_request_def Decode_def)
  from SubmitClaim_invalid [OF this, of demo_rand "demo_handler ''active''" quiet_world] show ?thesis
    by (auto simp: demo_request_def)
qed

text \<open>
  (C16) The tenant gate: while the Tenant Config Service answers the gateway's tenant with an error or with a
  status other than \<open>active\<close>, no request reaches the Orchestration Service -- the answer does not depend on
  the orchestration client at all -- and every valid request is answered with 403.
\<close>

theorem SubmitClaim_tenant_gate:
  assumes gate: "\<And>c w. case fst (h_GetTenant h c hardcodedTenantID w) of
      (tc, err) \<Rightarrow> err \<noteq> None \<or> get_str tc_Status tc \<noteq> ''active''"
  shows "SubmitClaim rand_Read h r w = SubmitClaim rand_Read (h\<lparr>h_ProcessClaim := rpc\<rparr>) r w \<and>
    (valid_request r \<longrightarrow> (\<exists>resp w'. SubmitClaim rand_Read h r w = (Responded resp, w') \<and> hs_Status resp = 403))"
proof -
  have fwd: "\<exists>resp w'. hs_Status resp = 403 \<and> forward_claim h ctx k req w1 = (Responded resp, w') \<and>
      forward_claim (h\<lparr>h_ProcessClaim := rpc\<rparr>) ctx k req w1 = (Responded resp, w')" for ctx k req w1
  proof -
    obtain tc err w2 where a: "resolveTenant h ctx k w1 = ((tc, err), w2)" by (metis prod.exhaust)
    with gate [of "WithTimeout ctx (clock w1) tenantConfigTimeout" w1]
    have "err \<noteq> None \<or> get_str tc_Status tc \<noteq> ''active''" by (simp add: resolveTenant_def)
    moreover have "resolveTenant (h\<lparr>h_ProcessClaim := rpc\<rparr>) ctx k w1 = ((tc, err), w2)"
      using a by (simp add: resolveTenant_def)
    ultimately show ?thesis using a
      by (cases err) (simp_all add: forward_claim_def handler_log_def writeError_def errorResponse_json_def writeJSON_def)
  qed
  have same: "forward_claim h ctx k req w1 = forward_claim (h\<lparr>h_ProcessClaim := rpc\<rparr>) ctx k req w1" for ctx k req w1
    using fwd [of ctx k req w1] by auto
  have "SubmitClaim rand_Read h r w = SubmitClaim rand_Read (h\<lparr>h_ProcessClaim := rpc\<rparr>) r w"
    by (simp add: SubmitClaim_def same split: sum.split prod.split)
  moreover have "\<exists>resp w'. SubmitClaim rand_Read h r w = (Responded resp, w') \<and> hs_Status resp = 403" if valid: "valid_request r"
  proof -
    obtain req where "Decode (rq_Body r) = Inr req" "rq_Method r = ''POST''" "cr_ClaimID req \<noteq> ''''"
      "cr_Product req \<noteq> ''''" "cr_EventType req \<noteq> ''''" using valid by (auto simp: valid_request_def)
    moreover obtain k w1 where "correlation_New rand_Read w = (k, w1)" by fastforce
    ultimately show ?thesis using fwd [of "WithCorrelationID (rq_Context r) k" k req w1]
      by (auto simp: SubmitClaim_def)
  qed
  ultimately show ?thesis by blast
qed

lemma demo_valid: "valid_request (demo_request demo_body)"
proof -
  have "Decode demo_body = Inr \<lparr>cr_ClaimID = ''clm-1'', cr_Product = ''auto'', cr_EventType = ''claim.fnol'',
      cr_PolicyNumber = '''', cr_ClaimantName = '''', cr_RawAddress = ''''\<rparr>"
    by code_simp
  then show ?thesis by (simp add: valid_request_def demo_request_def)
qed

theorem SubmitClaim_tenant_gate_witness:
  "\<exists>resp w'. SubmitClaim demo_rand (demo_handler ''suspended'') (demo_request demo_body) quiet_world = (Responded resp, w') \<and>
     hs_Status resp = 403"
proof -
  have "case fst (h_GetTenant (demo_handler ''suspended'') c hardcodedTenantID w) of
      (tc, err) \<Rightarrow> err \<noteq> None \<or> get_str tc_Status tc \<noteq> ''active''" for c and w :: "unit world"
    by (simp add: demo_handler_def)
  from SubmitClaim_tenant_gate [OF this] demo_valid show ?thesis by blast
qed

text \<open>The context a claim is forwarded in, and what lies behind an answer of 200.\<close>

definition forward_context :: "gcontext \<Rightarrow> string \<Rightarrow> int \<Rightarrow> gcontext" where
  "forward_context ctx k t =
     WithTimeout (WithTenantID (WithCorrelationID ctx k) hardcodedTenantID) t orchestrationTimeout"

lemma forward_context_facts:
  "node_context ''acme_insurance'' k (forward_context ctx k t)"
  "outgoing_md (forward_context ctx k t) = outgoing_md ctx"
  "\<exists>d. deadline (forward_context ctx k t) = Some d \<and> d \<le> t + 5000000000"
proof -
  have "sint orchestrationTimeout = 5000000000"
    by (simp add: orchestrationTimeout_def Second_def Millisecond_def)
  then show "\<exists>d. deadline (forward_context ctx k t) = Some d \<and> d \<le> t + 5000000000"
    unfolding forward_context_def by (metis WithTimeout_deadline_le)
qed (simp_all add: forward_context_def node_context_def hardcodedTenantID_def WithTimeout_deadline)

lemma accepted_cases:
  assumes "SubmitClaim rand_Read h r w = (Responded resp, w')" and "hs_Status resp = 200"
  obtains req k w1 tc w2 pr where "rq_Method r = ''POST''" "Decode (rq_Body r) = Inr req"
    "cr_ClaimID req \<noteq> ''''" "cr_Product req \<noteq> ''''" "cr_EventType req \<noteq> ''''"
    "correlation_New rand_Read w = (k, w1)"
    "resolveTenant h (WithCorrelationID (rq_Context r) k) k w1 = ((tc, None), w2)" "get_str tc_Status tc = ''active''"
    "h_ProcessClaim h (forward_context (rq_Context r) k (clock w2)) \<lparr>pq_Claim = Some (claim_of req k)\<rparr> w2 = ((Some pr, None), w')"
    "resp = writeJSON [] 200 (claimResponse_json pr)"
proof -
  from assms obtain req where req: "rq_Method r = ''POST''" "Decode (rq_Body r) = Inr req"
    "cr_ClaimID req \<noteq> ''''" "cr_Product req \<noteq> ''''" "cr_EventType req \<noteq> ''''"
    by (auto simp: SubmitClaim_def writeError_def errorResponse_json_def writeJSON_def split: if_splits sum.splits)
  obtain k w1 where k: "correlation_New rand_Read w = (k, w1)" by fastforce
  let ?ctx = "WithCorrelationID (rq_Context r) k"
  have fwd: "forward_claim h ?ctx k req w1 = (Responded resp, w')"
    using assms(1) req k by (simp add: SubmitClaim_def)
  obtain tc err w2 where t: "resolveTenant h ?ctx k w1 = ((tc, err), w2)" by (metis prod.exhaust)
  have gate: "err = None" "get_str tc_Status tc = ''active''"
    using fwd t assms(2) by (auto simp: forward_claim_def writeError_def errorResponse_json_def writeJSON_def split: option.splits if_splits)
  obtain pr where "h_ProcessClaim h (forward_context (rq_Context r) k (clock w2)) \<lparr>pq_Claim = Some (claim_of req k)\<rparr> w2 =
      ((Some pr, None), w')" "resp = writeJSON [] 200 (claimResponse_json pr)"
    using fwd t gate assms(2)
    by (auto simp: forward_claim_def writeError_def errorResponse_json_def writeJSON_def Let_def forward_context_def
        split: option.splits prod.splits)
  with req k t gate that show ?thesis by blast
qed

text \<open>
  (C15) A request answered with 200 was a valid claim, passed the tenant gate, and was forwarded once, with all
  its fields and the new correlation id, in a context that carries this id and the gateway's own tenant
  and expires within 5 seconds; the body repeats the orchestration response field by field. A response whose
  score is not finite is answered with 200 and no body.
\<close>

theorem SubmitClaim_accepted:
  assumes "SubmitClaim rand_Read h r w = (Responded resp, w')" and "hs_Status resp = 200"
  shows "\<exists>req k w1 tc w2 c d pr.
    rq_Method r = ''POST'' \<and> Decode (rq_Body r) = Inr req \<and>
    cr_ClaimID req \<noteq> '''' \<and> cr_Product req \<noteq> '''' \<and> cr_EventType req \<noteq> '''' \<and>
    correlation_New rand_Read w = (k, w1) \<and>
    resolveTenant h (WithCorrelationID (rq_Context r) k) k w1 = ((tc, None), w2) \<and> get_str tc_Status tc = ''active'' \<and>
    node_context ''acme_insurance'' k c \<and> deadline c = Some d \<and> d \<le> clock w2 + 5000000000 \<and>
    h_ProcessClaim h c \<lparr>pq_Claim = Some (claim_of req k)\<rparr> w2 = ((Some pr, None), w') \<and>
    hs_Body resp = (if is_finite (ps_FraudScore pr) then Some (claimResponse_json pr) else None)"
proof -
  from accepted_cases [OF assms] obtain req k w1 tc w2 pr where facts: "rq_Method r = ''POST''" "Decode (rq_Body r) = Inr req"
    "cr_ClaimID req \<noteq> ''''" "cr_Product req \<noteq> ''''" "cr_EventType req \<noteq> ''''" "correlation_New rand_Read w = (k, w1)"
    "resolveTenant h (WithCorrelationID (rq_Context r) k) k w1 = ((tc, None), w2)" "get_str tc_Status tc = ''active''"
    "h_ProcessClaim h (forward_context (rq_Context r) k (clock w2)) \<lparr>pq_Claim = Some (claim_of req k)\<rparr> w2 = ((Some pr, None), w')"
    and resp: "resp = writeJSON [] 200 (claimResponse_json pr)" .
  have "hs_Body resp = (if is_finite (ps_FraudScore pr) then Some (claimResponse_json pr) else None)"
    by (simp add: resp writeJSON_def claimResponse_json_def)
  moreover obtain d where "deadline (forward_context (rq_Context r) k (clock w2)) = Some d" "d \<le> clock w2 + 5000000000"
    using forward_context_facts(3) by blast
  ultimately show ?thesis
    using facts forward_context_facts(1) [of k "rq_Context r" "clock w2"]
    by (intro exI [of _ req] exI [of _ k] exI [of _ w1] exI [of _ tc] exI [of _ w2]
        exI [of _ "forward_context (rq_Context r) k (clock w2)"] exI [of _ d] exI [of _ pr]) simp
qed

theorem SubmitClaim_accepted_witness:
  "\<exists>resp w' k c. SubmitClaim demo_rand (demo_handler ''active'') (demo_request demo_body) quiet_world = (Responded resp, w') \<and>
     hs_Status resp = 200 \<and> node_context ''acme_insurance'' k c \<and> length k = 32"
proof -
  obtain resp w' where s: "SubmitClaim demo_rand (demo_handler ''active'') (demo_request demo_body) quiet_world = (Responded resp, w')"
    and ok: "hs_Status resp = 200"
    using demo_valid
    by (auto simp: SubmitClaim_def valid_request_def demo_rand_def correlation_New_def forward_claim_def resolveTenant_def
        demo_handler_def writeJSON_def Let_def)
  have "length (fst (correlation_New demo_rand quiet_world)) = 32"
    by (simp add: correlation_New_def demo_rand_def hex_length)
  with SubmitClaim_accepted [OF s ok] s ok show ?thesis by (metis fst_conv)
qed

text \<open>The documents the gateway answers with.\<close>

definition json_shape :: "json \<Rightarrow> (string \<times> string) list option" where
  "json_shape j = (case j of JObj kvs \<Rightarrow> Some (map (\<lambda>(k, v). (k, json_kind v)) kvs) | _ \<Rightarrow> None)"

definition claim_body :: "json \<Rightarrow> bool" where
  "claim_body j \<longleftrightarrow> json_finite j \<and>
     json_shape j = Some [(''claim_id'', ''string''), (''correlation_id'', ''string''), (''status'', ''string''),
       (''normalized_address'', ''string''), (''fraud_score'', ''number''), (''model_version'', ''string'')]"

definition error_body :: "json \<Rightarrow> bool" where
  "error_body j \<longleftrightarrow> json_shape j = Some [(''error'', ''string'')]"

definition typed_response :: "http_response \<Rightarrow> bool" where
  "typed_response resp \<longleftrightarrow>
     hs_Status resp \<in> {200, 400, 403, 405, 502} \<and>
     (''Content-Type'', ''application/json'') \<in> set (hs_Header resp) \<and>
     (case hs_Body resp of
        None \<Rightarrow> hs_Status resp = 200
      | Some body \<Rightarrow> if hs_Status resp = 200 then claim_body body else error_body body)"

text \<open>
  The type of the endpoint: whatever the request, the claim body and the services, the answer has status
  200, 400, 403, 405 or 502 and the JSON content type; a body of status 200 is the claim object with its six
  typed fields and a finite score, a body of any other status the error object, which is never missing. The
  handler panics only if the orchestration client returns neither a response nor an error.
\<close>

lemma SubmitClaim_typed:
  "case SubmitClaim rand_Read h r w of
     (Panicked, w') \<Rightarrow> (\<exists>c q w1. h_ProcessClaim h c q w1 = ((None, None), w'))
   | (Responded resp, w') \<Rightarrow> typed_response resp"
proof -
  have fwd: "case forward_claim h ctx k req w1 of
      (Panicked, w') \<Rightarrow> (\<exists>c q w1. h_ProcessClaim h c q w1 = ((None, None), w'))
    | (Responded resp, w') \<Rightarrow> typed_response resp" for ctx k req w1
    by (auto simp: forward_claim_def writeError_def errorResponse_json_def writeJSON_def typed_response_def Let_def claimResponse_json_def claim_body_def error_body_def json_shape_def
        split: prod.split option.split)
  obtain k w1 where k: "correlation_New rand_Read w = (k, w1)" by fastforce
  have "typed_response (writeError hd st msg)" if "st \<in> {400, 405}" for hd st msg
    using that by (auto simp: writeError_def errorResponse_json_def writeJSON_def typed_response_def error_body_def json_shape_def)
  then show ?thesis by (simp add: SubmitClaim_def k fwd split: sum.split)
qed

end
