(* ===== verification/Enrichment.thy ===== *)
theory Enrichment
  imports Orchestration Hex
begin

text \<open>
  The three Java enrichment services: \<open>AddressNormalizer\<close>, \<open>ClaimantIdHasher\<close>, \<open>PolicyLookup\<close> and the gRPC
  adapters over them. Strings are their UTF-8 bytes: the separators, the control characters \<open>trim\<close> removes
  and the class \<open>\s\<close> of regular expressions are ASCII, and the white space of \<open>isBlank\<close> is listed by its
  encodings. The case mappings of \<open>toUpperCase\<close> and \<open>toLowerCase\<close> and the SHA-256 digest are parameters.
\<close>

section \<open>Java strings\<close>

text \<open>The code points for which \<open>Character.isWhitespace\<close> holds, in UTF-8.\<close>

definition java_whitespace :: "string list" where
  "java_whitespace =
     map (\<lambda>c. [c]) [CHR 0x09, CHR 0x0A, CHR 0x0B, CHR 0x0C, CHR 0x0D, CHR 0x1C, CHR 0x1D, CHR 0x1E, CHR 0x1F, CHR 0x20] @
     [[CHR 0xE1, CHR 0x9A, CHR 0x80]] @
     map (\<lambda>c. [CHR 0xE2, CHR 0x80, c])
       [CHR 0x80, CHR 0x81, CHR 0x82, CHR 0x83, CHR 0x84, CHR 0x85, CHR 0x86, CHR 0x88, CHR 0x89, CHR 0x8A,
        CHR 0xA8, CHR 0xA9] @
     [[CHR 0xE2, CHR 0x81, CHR 0x9F], [CHR 0xE3, CHR 0x80, CHR 0x80]]"

lemma java_whitespace_nonempty: "p \<in> set java_whitespace \<Longrightarrow> p \<noteq> []"
  by (auto simp: java_whitespace_def)

definition leading_whitespace :: "string \<Rightarrow> string option" where
  "leading_whitespace s = find (\<lambda>p. take (length p) s = p) java_whitespace"

function isBlank :: "string \<Rightarrow> bool" where
  "isBlank s =
     (if s = [] then True
      else (case leading_whitespace s of
              None \<Rightarrow> False
            | Some p \<Rightarrow> isBlank (drop (length p) s)))"
  by pat_completeness auto
termination
proof (relation "measure length")
  fix s p
  assume "s \<noteq> []" "leading_whitespace s = Some p"
  then have "p \<in> set java_whitespace" by (auto simp: leading_whitespace_def find_Some_iff)
  then have "p \<noteq> []" by (rule java_whitespace_nonempty)
  with \<open>s \<noteq> []\<close> show "(drop (length p) s, s) \<in> measure length" by simp
qed simp

declare isBlank.simps [simp del]

text \<open>\<open>trim\<close> removes characters up to U+0020 from both ends.\<close>

definition control_or_space :: "char \<Rightarrow> bool" where
  "control_or_space c \<longleftrightarrow> (of_char c :: nat) \<le> 32"

definition trim :: "string \<Rightarrow> string" where
  "trim s = rev (dropWhile control_or_space (rev (dropWhile control_or_space s)))"

text \<open>
  \<open>split\<close> with limit 0: the pieces between the matches, without empty pieces at the end; a text without a
  match is returned whole. The two regular expressions of the sources are a comma and \<open>\s+\<close>.
\<close>

fun pieces_at_comma :: "string \<Rightarrow> string list" where
  "pieces_at_comma [] = [[]]"
| "pieces_at_comma (c # s) =
     (if c = CHR '','' then [] # pieces_at_comma s
      else (case pieces_at_comma s of p # ps \<Rightarrow> (c # p) # ps | [] \<Rightarrow> [[c]]))"

definition regex_space :: "char \<Rightarrow> bool" where
  "regex_space c \<longleftrightarrow> c \<in> {CHR '' '', CHR 0x09, CHR 0x0A, CHR 0x0B, CHR 0x0C, CHR 0x0D}"

function pieces_at_spaces :: "string \<Rightarrow> string list" where
  "pieces_at_spaces s =
     (let piece = takeWhile (\<lambda>c. \<not> regex_space c) s; rest = dropWhile (\<lambda>c. \<not> regex_space c) s
      in if rest = [] then [piece] else piece # pieces_at_spaces (dropWhile regex_space rest))"
  by pat_completeness auto
termination
proof (relation "measure length")
  fix s piece rest
  assume rest: "rest = dropWhile (\<lambda>c. \<not> regex_space c) s" and "rest \<noteq> []"
  obtain c cs where cs: "rest = c # cs" using \<open>rest \<noteq> []\<close> by (auto simp: neq_Nil_conv)
  then have "regex_space c"
    using rest \<open>rest \<noteq> []\<close> hd_dropWhile [of "\<lambda>c. \<not> regex_space c" s] by (metis list.sel(1))
  with cs have "length (dropWhile regex_space rest) \<le> length cs" by (simp add: length_dropWhile_le)
  moreover have "length rest \<le> length s" unfolding rest by (rule length_dropWhile_le)
  ultimately show "(dropWhile regex_space rest, s) \<in> measure length" by (simp add: cs)
qed simp

declare pieces_at_spaces.simps [simp del]

definition split_result :: "string list \<Rightarrow> string list" where
  "split_result ps = (if length ps = 1 then ps else rev (dropWhile (\<lambda>p. p = []) (rev ps)))"

fun join_with :: "string \<Rightarrow> string list \<Rightarrow> string" where
  "join_with sep [] = []"
| "join_with sep [x] = x"
| "join_with sep (x # xs) = x @ sep @ join_with sep xs"

section \<open>Address normalisation\<close>

record Normalized =
  nm_normalizedAddress :: string
  nm_line1 :: string
  nm_city :: string
  nm_state :: string
  nm_postalCode :: string
  nm_country :: string
  nm_valid :: bool

definition DEFAULT_COUNTRY :: string where
  "DEFAULT_COUNTRY = ''US''"

text \<open>A reference argument may be null, so it is an option.\<close>

definition AddressNormalizer_normalize :: "(string \<Rightarrow> string) \<Rightarrow> string option \<Rightarrow> Normalized" where
  "AddressNormalizer_normalize toUpperCase rawAddress =
     (case rawAddress of
        None \<Rightarrow> \<lparr>nm_normalizedAddress = '''', nm_line1 = '''', nm_city = '''', nm_state = '''', nm_postalCode = '''',
                 nm_country = '''', nm_valid = False\<rparr>
      | Some raw \<Rightarrow>
          if isBlank raw then
            \<lparr>nm_normalizedAddress = '''', nm_line1 = '''', nm_city = '''', nm_state = '''', nm_postalCode = '''',
             nm_country = '''', nm_valid = False\<rparr>
          else
            (let parts = split_result (pieces_at_comma raw) in
             if length parts < 3 then
               (let cleaned = toUpperCase (trim raw)
                in \<lparr>nm_normalizedAddress = cleaned, nm_line1 = cleaned, nm_city = '''', nm_state = '''',
                    nm_postalCode = '''', nm_country = '''', nm_valid = False\<rparr>)
             else
               (let line1 = toUpperCase (trim (parts ! 0));
                    city = toUpperCase (trim (parts ! 1));
                    stateZip = split_result (pieces_at_spaces (trim (parts ! 2)));
                    postalCode = (if length stateZip > 0 then toUpperCase (stateZip ! (length stateZip - 1)) else '''');
                    state = (if length stateZip > 1
                             then toUpperCase (join_with '' '' (take (length stateZip - 1) stateZip)) else '''');
                    fields = [line1, city] @ (if \<not> isBlank state then [state] else []) @
                             (if \<not> isBlank postalCode then [postalCode] else []) @ [DEFAULT_COUNTRY]
                in \<lparr>nm_normalizedAddress = join_with '', '' fields, nm_line1 = line1, nm_city = city, nm_state = state,
                    nm_postalCode = postalCode, nm_country = DEFAULT_COUNTRY,
                    nm_valid = (\<not> isBlank line1 \<and> \<not> isBlank city \<and> \<not> isBlank state \<and> \<not> isBlank postalCode)\<rparr>)))"

section \<open>Claimant id hashing\<close>

definition STATIC_SALT :: string where
  "STATIC_SALT = ''claim-fraud-platform-dev-salt-v1''"

definition ClaimantIdHasher_hash :: "(string \<Rightarrow> string) \<Rightarrow> (string \<Rightarrow> 8 word list) \<Rightarrow> string option \<Rightarrow> string" where
  "ClaimantIdHasher_hash toLowerCase sha256 claimantName =
     (case claimantName of
        None \<Rightarrow> ''''
      | Some name \<Rightarrow>
          if isBlank name then ''''
          else hex_EncodeToString (sha256 (STATIC_SALT @ toLowerCase (trim name))))"

section \<open>Policy lookup\<close>

record policy_result =
  pl_found :: bool
  pl_status :: string
  pl_coverageType :: string

definition policy_notFound :: policy_result where
  "policy_notFound = \<lparr>pl_found = False, pl_status = ''unknown'', pl_coverageType = ''''\<rparr>"

definition KNOWN_POLICIES :: "string \<rightharpoonup> policy_result" where
  "KNOWN_POLICIES =
     [''POL-123456'' \<mapsto> \<lparr>pl_found = True, pl_status = ''active'', pl_coverageType = ''full''\<rparr>,
      ''POL-654321'' \<mapsto> \<lparr>pl_found = True, pl_status = ''lapsed'', pl_coverageType = ''liability_only''\<rparr>,
      ''POL-000000'' \<mapsto> \<lparr>pl_found = True, pl_status = ''cancelled'', pl_coverageType = ''full''\<rparr>]"

definition PolicyLookup_lookup :: "(string \<Rightarrow> string) \<Rightarrow> string option \<Rightarrow> policy_result" where
  "PolicyLookup_lookup toUpperCase policyNumber =
     (case policyNumber of
        None \<Rightarrow> policy_notFound
      | Some n \<Rightarrow>
          if isBlank n then policy_notFound
          else (case KNOWN_POLICIES (toUpperCase (trim n)) of None \<Rightarrow> policy_notFound | Some r \<Rightarrow> r))"

section \<open>The gRPC adapters\<close>

text \<open>The strings of a protobuf message are never null. \<open>MDC\<close> tags the log entries of a request.\<close>

definition AddressNormalizationGrpcService_normalize ::
  "(string \<Rightarrow> string) \<Rightarrow> (NormalizeRequest, NormalizeResponse, 'e) rpc"
where
  "AddressNormalizationGrpcService_normalize toUpperCase ctx request w =
     (let mdc = [(''correlation_id'', LStr (nq_CorrelationId request))];
          w1 = log_at Info mdc ''normalize request received'' [] w;
          result = AddressNormalizer_normalize toUpperCase (Some (nq_RawAddress request));
          resp = \<lparr>nr_NormalizedAddress = nm_normalizedAddress result, nr_Line1 = nm_line1 result, nr_City = nm_city result,
                  nr_State = nm_state result, nr_PostalCode = nm_postalCode result, nr_Country = nm_country result,
                  nr_Valid = nm_valid result\<rparr>
      in ((Some resp, None),
          log_at Info mdc (''normalize request completed, valid='' @ FormatBool (nm_valid result)) [] w1))"

definition ClaimantIdHashingGrpcService_hashClaimantId ::
  "(string \<Rightarrow> string) \<Rightarrow> (string \<Rightarrow> 8 word list) \<Rightarrow> (HashClaimantIdRequest, HashClaimantIdResponse, 'e) rpc"
where
  "ClaimantIdHashingGrpcService_hashClaimantId toLowerCase sha256 ctx request w =
     (let mdc = [(''correlation_id'', LStr (hq_CorrelationId request))];
          w1 = log_at Info mdc ''hashClaimantId request received'' [] w;
          h = ClaimantIdHasher_hash toLowerCase sha256 (Some (hq_ClaimantName request))
      in ((Some \<lparr>hr_ClaimantIdHash = h\<rparr>, None), log_at Info mdc ''hashClaimantId request completed'' [] w1))"

definition PolicyLookupGrpcService_lookupPolicy ::
  "(string \<Rightarrow> string) \<Rightarrow> (LookupPolicyRequest, LookupPolicyResponse, 'e) rpc"
where
  "PolicyLookupGrpcService_lookupPolicy toUpperCase ctx request w =
     (let mdc = [(''correlation_id'', LStr (lq_CorrelationId request))];
          w1 = log_at Info mdc ''lookupPolicy request received'' [] w;
          result = PolicyLookup_lookup toUpperCase (Some (lq_PolicyNumber request))
      in ((Some \<lparr>lr_Found = pl_found result, lr_Status = pl_status result, lr_CoverageType = pl_coverageType result\<rparr>, None),
          log_at Info mdc
            (''lookupPolicy request completed, found='' @ FormatBool (pl_found result) @ '', status='' @ pl_status result)
            [] w1))"

section \<open>Lemmas on Java strings\<close>

lemma leading_whitespace_split:
  "leading_whitespace s = Some p \<Longrightarrow> p \<in> set java_whitespace \<and> s = p @ drop (length p) s"
  by (auto simp: leading_whitespace_def find_Some_iff) (metis append_take_drop_id)

lemma whitespace_hd: "p \<in> set java_whitespace \<Longrightarrow> (of_char (hd p) :: nat) \<le> 32 \<or> 225 \<le> (of_char (hd p) :: nat)"
  by (auto simp: java_whitespace_def)

lemma printable_not_blank: "32 < (of_char c :: nat) \<Longrightarrow> (of_char c :: nat) < 225 \<Longrightarrow> \<not> isBlank (c # s)"
proof -
  assume c: "32 < (of_char c :: nat)" "(of_char c :: nat) < 225"
  have "hd p = c" if "p \<in> set java_whitespace" "take (length p) (c # s) = p" for p
    using that(2) java_whitespace_nonempty [OF that(1)] by (cases p) simp_all
  then have "leading_whitespace (c # s) = None"
    using c whitespace_hd by (fastforce simp: leading_whitespace_def find_None_iff)
  then show ?thesis by (simp add: isBlank.simps [of "c # s"])
qed

lemma space_then_printable:
  "32 < (of_char c :: nat) \<Longrightarrow> (of_char c :: nat) < 225 \<Longrightarrow> \<not> isBlank (CHR '' '' # c # s)"
  by (simp add: isBlank.simps [of "CHR '' '' # c # s"] leading_whitespace_def java_whitespace_def printable_not_blank)

lemma comma_not_blank: "CHR '','' \<in> set s \<Longrightarrow> \<not> isBlank s"
proof (induction s rule: isBlank.induct)
  case (1 s)
  show ?case
  proof (cases "leading_whitespace s")
    case (Some p)
    have "CHR '','' \<notin> set p" using leading_whitespace_split [OF Some] by (auto simp: java_whitespace_def)
    then have "CHR '','' \<in> set (drop (length p) s)"
      using leading_whitespace_split [OF Some] "1.prems" by (metis Un_iff set_append)
    then show ?thesis using "1.IH" [OF _ Some] "1.prems" Some by (auto simp: isBlank.simps [of s])
  qed (use "1.prems" in \<open>auto simp: isBlank.simps [of s]\<close>)
qed

lemma pieces_at_comma_piece:
  "CHR '','' \<notin> set a \<Longrightarrow> pieces_at_comma (a @ CHR '','' # s) = a # pieces_at_comma s"
  by (induction a) auto

lemma pieces_at_comma_single: "CHR '','' \<notin> set a \<Longrightarrow> pieces_at_comma a = [a]"
  by (induction a) auto

lemma pieces_at_comma_not_Nil: "pieces_at_comma s \<noteq> []"
  by (induction s) (auto split: list.splits)

lemma trim_padding:
  assumes "list_all control_or_space pre" "list_all control_or_space post"
  shows "trim (pre @ s @ post) = trim s"
proof -
  have "dropWhile control_or_space (pre @ s @ post) = dropWhile control_or_space (s @ post)"
    using assms(1) by (simp add: dropWhile_append2 list_all_iff)
  moreover have "trim (s @ post) = trim s"
  proof (cases "list_all control_or_space s")
    case True
    with assms(2) have "\<forall>x\<in>set (s @ post). control_or_space x" "\<forall>x\<in>set s. control_or_space x"
      by (auto simp: list_all_iff)
    then have "dropWhile control_or_space (s @ post) = []" "dropWhile control_or_space s = []"
      unfolding dropWhile_eq_Nil_conv by blast+
    then show ?thesis unfolding trim_def by metis
  next
    case False
    then have "dropWhile control_or_space (s @ post) = dropWhile control_or_space s @ post"
      by (auto simp: dropWhile_append list_all_iff)
    moreover have "dropWhile control_or_space (rev post @ xs) = dropWhile control_or_space xs" for xs
      using assms(2) by (intro dropWhile_append2) (simp add: list_all_iff)
    ultimately show ?thesis by (simp add: trim_def)
  qed
  ultimately show ?thesis by (simp add: trim_def)
qed

lemma trim_id:
  assumes "s \<noteq> []" "\<not> control_or_space (hd s)" "\<not> control_or_space (last s)"
  shows "trim s = s"
proof -
  have "dropWhile control_or_space s = s" using assms(1,2) by (cases s) simp_all
  moreover have "dropWhile control_or_space (rev s) = rev s"
    using assms(1,3) by (cases s rule: rev_cases) simp_all
  ultimately show ?thesis by (simp add: trim_def)
qed

text \<open>A word is a piece that neither \<open>trim\<close> nor a split at white space takes apart.\<close>

definition word_of :: "string \<Rightarrow> bool" where
  "word_of w \<longleftrightarrow> w \<noteq> [] \<and> list_all (\<lambda>c. \<not> control_or_space c) w"

lemma regex_space_control: "regex_space c \<Longrightarrow> control_or_space c"
  by (auto simp: regex_space_def control_or_space_def)

lemma word_of_no_space: "word_of w \<Longrightarrow> c \<in> set w \<Longrightarrow> \<not> regex_space c"
  by (auto simp: word_of_def list_all_iff dest: regex_space_control)

lemma join_with_Cons: "ws \<noteq> [] \<Longrightarrow> join_with sep (w # ws) = w @ sep @ join_with sep ws"
  by (cases ws) simp_all

lemma join_words_ends:
  assumes "ws \<noteq> []" "list_all word_of ws"
  shows "join_with sep ws \<noteq> [] \<and> hd (join_with sep ws) = hd (hd ws) \<and> last (join_with sep ws) = last (last ws)"
  using assms
proof (induction ws)
  case (Cons w ws)
  then show ?case by (cases "ws = []") (auto simp: join_with_Cons word_of_def)
qed simp

lemma pieces_at_spaces_join:
  assumes "ws \<noteq> []" "list_all word_of ws" "sep \<noteq> []" "list_all regex_space sep"
  shows "pieces_at_spaces (join_with sep ws) = ws"
  using assms(1,2)
proof (induction ws)
  case (Cons w ws)
  then have w: "\<forall>c\<in>set w. \<not> regex_space c" by (auto dest: word_of_no_space)
  show ?case
  proof (cases "ws = []")
    case True
    with w show ?thesis by (simp add: pieces_at_spaces.simps [of w] takeWhile_eq_all_conv [THEN iffD2])
  next
    case False
    let ?r = "join_with sep ws"
    have ends: "?r \<noteq> []" "hd ?r = hd (hd ws)" using join_words_ends [OF False] Cons.prems by simp_all
    moreover have "word_of (hd ws)" using False Cons.prems by (cases ws) simp_all
    ultimately have r: "dropWhile regex_space ?r = ?r"
      by (metis dropWhile_eq_self_iff hd_in_set word_of_def word_of_no_space)
    obtain c cs where sep: "sep = c # cs" "regex_space c" "list_all regex_space cs"
      using assms(3,4) by (cases sep) simp_all
    have "takeWhile (\<lambda>c. \<not> regex_space c) (w @ sep @ ?r) = w" "dropWhile (\<lambda>c. \<not> regex_space c) (w @ sep @ ?r) = sep @ ?r"
      using w sep by (simp_all add: takeWhile_append2 dropWhile_append2)
    moreover have "dropWhile regex_space (sep @ ?r) = ?r"
      using assms(4) r by (simp add: dropWhile_append2 list_all_iff)
    ultimately show ?thesis
      using Cons.IH [OF False] Cons.prems assms(3)
      by (simp add: join_with_Cons [OF False] pieces_at_spaces.simps [of "w @ sep @ ?r"] Let_def)
  qed
qed simp

lemma split_result_last: "ps \<noteq> [] \<Longrightarrow> last ps \<noteq> [] \<Longrightarrow> split_result ps = ps"
  by (cases ps rule: rev_cases) (simp_all add: split_result_def)

text \<open>Pieces up to a non-empty one survive the removal of empty pieces at the end.\<close>

lemma split_result_prefix:
  assumes "p \<noteq> []"
  shows "\<exists>rest. split_result (a # b # p # ps) = a # b # p # rest"
proof -
  have "dropWhile (\<lambda>p. p = []) (rev ps @ p # xs) = dropWhile (\<lambda>p. p = []) (rev ps) @ p # xs" for xs
    using assms by (simp add: dropWhile_append)
  then show ?thesis by (simp add: split_result_def)
qed

section \<open>Properties\<close>

text \<open>
  (C20) The normaliser reads every address of the form \<open>line, city, state words and postal code\<close>, whatever
  white space surrounds the parts or separates the words and whatever follows a third comma: it answers with
  the five fields in upper case, the words of the state joined by single spaces, and the normalised address
  is those fields joined by commas; the address is valid. \<open>upper\<close> is the case mapping, of which only that it
  keeps blank texts blank and others not is used.
\<close>

theorem normalize_well_formed:
  assumes upper: "\<And>s. isBlank (upper s) \<longleftrightarrow> isBlank s"
    and commas: "list_all (\<lambda>s. CHR '','' \<notin> set s) [l, c, pre, join_with sep (ws @ [z]), post]"
    and words: "ws \<noteq> []" "list_all word_of (ws @ [z])"
    and spaces: "sep \<noteq> []" "list_all regex_space sep" "list_all control_or_space pre" "list_all control_or_space post"
    and shown: "\<not> isBlank (trim l)" "\<not> isBlank (trim c)" "\<not> isBlank (join_with '' '' ws)" "\<not> isBlank z"
    and raw: "raw = l @ '','' @ c @ '','' @ pre @ join_with sep (ws @ [z]) @ post @ (if extra then '','' @ tail else [])"
  shows "AddressNormalizer_normalize upper (Some raw) =
    \<lparr>nm_normalizedAddress = join_with '', '' [upper (trim l), upper (trim c), upper (join_with '' '' ws), upper z, ''US''],
     nm_line1 = upper (trim l), nm_city = upper (trim c), nm_state = upper (join_with '' '' ws),
     nm_postalCode = upper z, nm_country = ''US'', nm_valid = True\<rparr>"
proof -
  let ?j = "join_with sep (ws @ [z])"
  have j: "?j \<noteq> []" "hd ?j = hd (hd ws)" "last ?j = last z"
    using join_words_ends [of "ws @ [z]" sep] words by simp_all
  have "word_of (hd ws)" "word_of z" using words by (cases ws; simp)+
  then have ends: "\<not> control_or_space (hd ?j)" "\<not> control_or_space (last ?j)"
    using j by (auto simp: word_of_def list_all_iff)
  then have trimmed: "trim (pre @ ?j @ post) = ?j"
    using trim_padding [OF spaces(3,4)] trim_id j(1) by simp
  have stateZip: "split_result (pieces_at_spaces ?j) = ws @ [z]"
    using pieces_at_spaces_join [of "ws @ [z]" sep] words spaces \<open>word_of z\<close>
    by (simp add: split_result_last word_of_def)
  have "\<exists>ps. pieces_at_comma raw = l # c # (pre @ ?j @ post) # ps"
    using commas pieces_at_comma_single [of "pre @ ?j @ post"] pieces_at_comma_piece [of "pre @ ?j @ post" tail]
    by (cases extra) (simp_all add: raw pieces_at_comma_piece)
  then obtain rest where "split_result (pieces_at_comma raw) = l # c # (pre @ ?j @ post) # rest"
    using split_result_prefix [of "pre @ ?j @ post"] j(1) by fastforce
  then show ?thesis
    using comma_not_blank [of raw] raw trimmed stateZip words(1) shown
    by (simp add: AddressNormalizer_normalize_def upper DEFAULT_COUNTRY_def Let_def nth_append)
qed

text \<open>The case mapping on ASCII letters is an instance of \<open>upper\<close>.\<close>

lemma upper_ascii_code:
  "(of_char (upper_ascii c) :: nat) =
     (if 97 \<le> (of_char c :: nat) \<and> (of_char c :: nat) \<le> 122 then of_char c - 32 else of_char c)"
proof -
  have "(n - 32) mod 256 = n - 32" if "n \<le> 122" for n :: nat using that by simp
  then show ?thesis by (auto simp: upper_ascii_def Let_def)
qed

lemma upper_ascii_fixed:
  assumes "(of_char d :: nat) < 65 \<or> 122 < (of_char d :: nat)"
  shows "upper_ascii c = d \<longleftrightarrow> c = d"
proof -
  have "(of_char (upper_ascii c) :: nat) = of_char d \<longleftrightarrow> (of_char c :: nat) = of_char d"
    using assms unfolding upper_ascii_code by auto
  then show ?thesis by simp
qed

lemma whitespace_no_letter:
  "p \<in> set java_whitespace \<Longrightarrow> c \<in> set p \<Longrightarrow> (of_char c :: nat) < 65 \<or> 122 < (of_char c :: nat)"
  by (auto simp: java_whitespace_def)

lemma leading_whitespace_upper: "leading_whitespace (map upper_ascii s) = leading_whitespace s"
proof -
  have "map upper_ascii xs = p \<longleftrightarrow> xs = p" if "\<forall>c\<in>set p. (of_char c :: nat) < 65 \<or> 122 < (of_char c :: nat)" for xs p
    using that by (induction p arbitrary: xs) (auto simp: upper_ascii_fixed map_eq_Cons_conv)
  then have "take (length p) (map upper_ascii s) = p \<longleftrightarrow> take (length p) s = p" if "p \<in> set java_whitespace" for p
    using whitespace_no_letter [OF that] by (simp add: take_map)
  then show ?thesis unfolding leading_whitespace_def by (intro find_cong) simp_all
qed

lemma isBlank_upper: "isBlank (map upper_ascii s) = isBlank s"
proof (induction s rule: isBlank.induct)
  case (1 s)
  then show ?case
    by (cases "leading_whitespace s")
      (auto simp: isBlank.simps [of s] isBlank.simps [of "map upper_ascii s"] leading_whitespace_upper drop_map)
qed

theorem normalize_well_formed_witness:
  "AddressNormalizer_normalize (map upper_ascii) (Some ''1 Wall St, New York , New  York  10005,USA'') =
    \<lparr>nm_normalizedAddress = ''1 WALL ST, NEW YORK, NEW YORK, 10005, US'', nm_line1 = ''1 WALL ST'',
     nm_city = ''NEW YORK'', nm_state = ''NEW YORK'', nm_postalCode = ''10005'', nm_country = ''US'', nm_valid = True\<rparr>"
  using normalize_well_formed [of "map upper_ascii" "''1 Wall St''" "'' New York ''" "'' ''" "''  ''"
    "[''New'', ''York'']" "''10005''" "''''" "''1 Wall St, New York , New  York  10005,USA''" True "''USA''"]
  by (simp add: isBlank_upper upper_ascii_def word_of_def regex_space_def control_or_space_def trim_def printable_not_blank
      char_of_def bit_numeral_rec bit_0)

text \<open>
  (C21) The claimant hash is a pseudonym that matches the same claimant across differently formatted
  submissions. It is empty exactly for a blank name and otherwise 64 hexadecimal digits; two names get the
  same hash exactly when they agree after trimming and lower-casing, so control characters and spaces around
  a name do not change its hash. The digest is only assumed to have 32 bytes and not to collide on the two
  salted names.
\<close>

theorem hash_matches_claimants:
  assumes digest: "\<And>b. length (sha256 b) = 32"
    and no_collision: "sha256 (STATIC_SALT @ lower (trim n)) = sha256 (STATIC_SALT @ lower (trim m)) \<Longrightarrow>
      STATIC_SALT @ lower (trim n) = STATIC_SALT @ lower (trim m)"
    and names: "\<not> isBlank n" "\<not> isBlank m"
    and padding: "list_all control_or_space pre" "list_all control_or_space post" "\<not> isBlank (pre @ n @ post)"
  shows "(ClaimantIdHasher_hash lower sha256 (Some n) = ClaimantIdHasher_hash lower sha256 (Some m) \<longleftrightarrow>
        lower (trim n) = lower (trim m)) \<and>
    ClaimantIdHasher_hash lower sha256 (Some (pre @ n @ post)) = ClaimantIdHasher_hash lower sha256 (Some n) \<and>
    length (ClaimantIdHasher_hash lower sha256 (Some n)) = 64 \<and>
    set (ClaimantIdHasher_hash lower sha256 (Some n)) \<subseteq> set hextable \<and>
    (\<forall>b. ClaimantIdHasher_hash lower sha256 (Some b) = '''' \<longleftrightarrow> isBlank b)"
proof -
  have h: "ClaimantIdHasher_hash lower sha256 (Some b) =
    (if isBlank b then '''' else hex_EncodeToString (sha256 (STATIC_SALT @ lower (trim b))))" for b
    by (simp add: ClaimantIdHasher_hash_def)
  have len: "length (hex_EncodeToString (sha256 b)) = 64" for b by (simp add: hex_length digest)
  then have "hex_EncodeToString (sha256 b) \<noteq> ''''" for b by (metis list.size(3) zero_neq_numeral)
  then show ?thesis
    using names padding no_collision trim_padding [OF padding(1,2), of n] len hex_chars by (auto simp: h hex_inject)
qed

text \<open>A case mapping and a digest for the witness: the length and the last byte of the text.\<close>

definition lower_ascii :: "char \<Rightarrow> char" where
  "lower_ascii c = (let n = of_char c :: nat in if 65 \<le> n \<and> n \<le> 90 then char_of (n + 32) else c)"

definition toy_digest :: "string \<Rightarrow> 8 word list" where
  "toy_digest s = replicate 30 0 @ [of_nat (length s), of_char (last s)]"

theorem hash_matches_claimants_witness:
  "let h = (\<lambda>n. ClaimantIdHasher_hash (map lower_ascii) toy_digest (Some n))
   in h ''Jane Doe'' \<noteq> h ''John Smith'' \<and> h '' Jane Doe '' = h ''Jane Doe'' \<and> length (h ''Jane Doe'') = 64"
  using hash_matches_claimants [of toy_digest "map lower_ascii" "''Jane Doe''" "''John Smith''" "'' ''" "'' ''"]
  by (simp add: toy_digest_def printable_not_blank lower_ascii_def trim_def control_or_space_def
      STATIC_SALT_def space_then_printable)

text \<open>The policy lookup: the three fixtures, by trimmed upper-cased number, and \<open>unknown\<close> for anything else.\<close>

lemma PolicyLookup_status:
  "pl_status (PolicyLookup_lookup upper n) \<in> {''active'', ''lapsed'', ''cancelled'', ''unknown''} \<and>
   (pl_found (PolicyLookup_lookup upper n) \<longleftrightarrow> pl_status (PolicyLookup_lookup upper n) \<noteq> ''unknown'')"
  by (auto simp: PolicyLookup_lookup_def policy_notFound_def KNOWN_POLICIES_def split: option.splits)

end
