(* ===== verification/Platform.thy ===== *)
theory Platform
  imports Gateway Enrichment
begin

text \<open>
  How the services are linked. The locale \<open>grpc_transport\<close> is what a client relies on from the gRPC runtime
  below its interceptor: the outgoing metadata arrive as incoming metadata, the deadline is propagated, the
  values of the caller's context are not, and answer and status come back unchanged. The locale \<open>rpc_link\<close>
  adds the server interceptor of the Go services. Their lemmas hold for every such link. They describe the ideal link; the
  contracts of a link that is slow, loses answers and keeps deadlines are in \<open>Network\<close>.
\<close>

section \<open>Links\<close>

text \<open>The context in which a server receives a call.\<close>

definition received :: "gcontext \<Rightarrow> gcontext" where
  "received ctx = \<lparr>ctx_values = [], incoming_md = Some (outgoing_md ctx), outgoing_md = [],
                   deadline = deadline ctx, cancelled_at = cancelled_at ctx\<rparr>"

text \<open>A call that leaves time and the outside world as another one does, and logs at least as much.\<close>

definition logs_more :: "'e world \<Rightarrow> 'e world \<Rightarrow> bool" where
  "logs_more w w' \<longleftrightarrow> clock w' = clock w \<and> env w' = env w \<and> (\<exists>ls. logs w' = logs w @ ls)"

lemma logs_more_refl [simp]: "logs_more w w"
  by (simp add: logs_more_def)

lemma logs_more_log [simp]: "logs_more w w' \<Longrightarrow> logs_more w (log_at lvl l msg as w')"
  by (auto simp: logs_more_def)

lemma logs_more_trans: "logs_more w1 w2 \<Longrightarrow> logs_more w2 w3 \<Longrightarrow> logs_more w1 w3"
  by (auto simp: logs_more_def)

locale grpc_transport =
  fixes invoker :: "gcontext \<Rightarrow> string \<Rightarrow> 'req \<Rightarrow> ('resp option, 'e) go_call"
    and serve :: "string \<Rightarrow> gcontext \<Rightarrow> 'req \<Rightarrow> ('resp option, 'e) go_call"
  assumes transports: "invoker ctx m req w = serve m (received ctx) req w"
begin

text \<open>A call through the client interceptor returns the server's answer in the received context.\<close>

lemma call_answer:
  "\<exists>w2. stub lc invoker m ctx req w = (fst (serve m (received (client_context ctx)) req w), w2) \<and>
     logs_more (snd (serve m (received (client_context ctx)) req w)) w2"
proof -
  obtain resp err w1 where "serve m (received (client_context ctx)) req w = ((resp, err), w1)"
    by (metis prod.exhaust)
  then show ?thesis
    by (cases err) (simp_all add: stub_def UnaryClientInterceptor_def transports Let_def)
qed

lemma call_fst: "fst (stub lc invoker m ctx req w) = fst (serve m (received (client_context ctx)) req w)"
  using call_answer [of lc m ctx req w] by auto

lemma call_quiet:
  "logs_more w (snd (serve m (received (client_context ctx)) req w)) \<Longrightarrow> logs_more w (snd (stub lc invoker m ctx req w))"
  using call_answer [of lc m ctx req w] by (auto intro: logs_more_trans)

end

locale rpc_link =
  fixes invoker :: "gcontext \<Rightarrow> string \<Rightarrow> 'req \<Rightarrow> ('resp option, 'e) go_call"
    and l :: logger
    and handler :: "gcontext \<Rightarrow> 'req \<Rightarrow> ('resp option, 'e) go_call"
  assumes delivers: "invoker ctx m req w = UnaryServerInterceptor (Some l) m handler (received ctx) req w"

sublocale rpc_link \<subseteq> transport: grpc_transport invoker "\<lambda>m. UnaryServerInterceptor (Some l) m handler"
  by unfold_locales (rule delivers)

context rpc_link
begin

text \<open>Through both interceptors, a call returns the answer of the handler, run in the received context.\<close>

lemma served:
  "\<exists>w2. UnaryServerInterceptor (Some l) m handler ctx req w = (fst (handler (server_context ctx) req w), w2) \<and>
     logs_more (snd (handler (server_context ctx) req w)) w2"
proof -
  obtain resp err w1 where "handler (server_context ctx) req w = ((resp, err), w1)" by (metis prod.exhaust)
  then show ?thesis by (cases err) (simp_all add: UnaryServerInterceptor_def Let_def)
qed

lemma stub_call:
  "\<exists>w2. stub lc invoker m ctx req w = (fst (handler (server_context (received (client_context ctx))) req w), w2) \<and>
     logs_more (snd (handler (server_context (received (client_context ctx))) req w)) w2"
  using transport.call_answer [of lc m ctx req w] served [of m "received (client_context ctx)" req w]
  by (metis fst_conv snd_conv logs_more_trans)

lemma stub_answer:
  "\<exists>ls w2. stub lc invoker m ctx req w = (fst (handler (server_context (received (client_context ctx))) req w), w2) \<and>
     clock w2 = clock (snd (handler (server_context (received (client_context ctx))) req w)) \<and>
     env w2 = env (snd (handler (server_context (received (client_context ctx))) req w)) \<and>
     logs w2 = logs (snd (handler (server_context (received (client_context ctx))) req w)) @ ls"
  using stub_call [of lc m ctx req w] unfolding logs_more_def by blast

lemma stub_fst:
  "fst (stub lc invoker m ctx req w) = fst (handler (server_context (received (client_context ctx))) req w)"
  using stub_call [of lc m ctx req w] by auto

lemma stub_quiet:
  "logs_more w (snd (handler (server_context (received (client_context ctx))) req w)) \<Longrightarrow>
   logs_more w (snd (stub lc invoker m ctx req w))"
  using stub_call [of lc m ctx req w] by (auto intro: logs_more_trans)

text \<open>The handler sees the identity and the deadline of the caller's context.\<close>

lemma handler_identity:
  assumes "outgoing_md ctx = []"
  shows "TenantIDFrom (server_context (received (client_context ctx))) = TenantIDFrom ctx"
    and "CorrelationIDFrom (server_context (received (client_context ctx))) = CorrelationIDFrom ctx"
    and "deadline (server_context (received (client_context ctx))) = deadline ctx"
proof -
  let ?r = "received (client_context ctx)"
  have none: "TenantIDFrom ?r = ''''" "CorrelationIDFrom ?r = ''''"
    by (simp_all add: received_def TenantIDFrom_def CorrelationIDFrom_def ctx_Value_def)
  have fv: "firstValue (outgoing_md (client_context ctx)) metadataTenantID = TenantIDFrom ctx"
    "firstValue (outgoing_md (client_context ctx)) metadataCorrelationID = CorrelationIDFrom ctx"
    using client_context_firstValue [of ctx] assms by simp_all
  have inc: "incoming_md ?r = Some (outgoing_md (client_context ctx))" by (simp add: received_def)
  show "TenantIDFrom (server_context ?r) = TenantIDFrom ctx"
    "CorrelationIDFrom (server_context ?r) = CorrelationIDFrom ctx"
    using none fv inc by (auto simp: server_context_def Let_def)
  show "deadline (server_context ?r) = deadline ctx"
    by (simp add: server_context_def inc Let_def) (simp add: received_def client_context_def)
qed

end

text \<open>The simplest link that meets the contract, and Go servers behind it. Only examples use it.\<close>

definition in_process ::
  "logger \<Rightarrow> (gcontext \<Rightarrow> 'req \<Rightarrow> ('resp option, 'e) go_call) \<Rightarrow> gcontext \<Rightarrow> string \<Rightarrow> 'req \<Rightarrow> ('resp option, 'e) go_call"
where
  "in_process l handler ctx m req w = UnaryServerInterceptor (Some l) m handler (received ctx) req w"

interpretation model_link: rpc_link "in_process l (ModelServer_Score (Some l))" l "ModelServer_Score (Some l)" for l
  by unfold_locales (simp add: in_process_def)

interpretation version_link: rpc_link "in_process l (Server_GetDagVersion st (Some l))" l "Server_GetDagVersion st (Some l)"
  for st l
  by unfold_locales (simp add: in_process_def)

interpretation orchestration_link: rpc_link "in_process l (ProcessClaim e)" l "ProcessClaim e" for e l
  by unfold_locales (simp add: in_process_def)

section \<open>The model service as a downstream call\<close>

text \<open>The scoring handler answers at once, so it honours every deadline.\<close>

interpretation score_handler: punctual "\<lambda>c. ModelServer_Score l c req" for l req
  by unfold_locales (auto simp: ModelServer_Score_eq)

end
