(* ===== verification/Startup.thy ===== *)
theory Startup
  imports Platform
begin

text \<open>
  The entry points of the four Go services (\<open>cmd/*/main.go\<close>): configuration from the environment, dialling with
  warm-up, the server each process runs, its fatal exits and its deferred calls. A process is given the environment,
  \<open>grpc.NewClient\<close>, \<open>net.Listen\<close> and the blocking call that serves; \<open>None\<close> is a call that never returns.
\<close>

section \<open>Processes\<close>

record ('l, 'h, 'e) process =
  p_Environ :: "string \<rightharpoonup> string"
  p_NewClient :: "string \<Rightarrow> gerror + 'e client_conn"
  p_Listen :: "string \<Rightarrow> 'e world \<Rightarrow> (gerror + 'l) \<times> 'e world"
  p_Serve :: "'l \<Rightarrow> 'h \<Rightarrow> 'e world \<Rightarrow> (gerror option \<times> 'e world) option"

text \<open>
  \<open>log.Fatalf("\<dots>: %v", err)\<close> ends the process without running deferred calls; otherwise \<open>main\<close> returns
  after running them, the last deferred first, ignoring their errors.
\<close>

datatype main_end = Fatalf string gerror | Returned

type_synonym 'e deferred = "'e world \<Rightarrow> gerror option \<times> 'e world"

definition run_deferred :: "'e deferred list \<Rightarrow> 'e world \<Rightarrow> 'e world" where
  "run_deferred cs w = foldl (\<lambda>w c. snd (c w)) w (rev cs)"

text \<open>What a process has set up when it starts serving, in the order of its \<open>defer\<close> statements.\<close>

datatype ('l, 'h, 'e) startup = Failed string gerror | Listening 'l 'h "'e deferred list"

type_synonym ('l, 'h, 'e) start = "'e world \<Rightarrow> (('l, 'h, 'e) startup \<times> 'e world) option"

definition dialled ::
  "string \<Rightarrow> 'e dial \<Rightarrow> string \<Rightarrow> logger \<Rightarrow> ('e client_conn \<Rightarrow> ('l, 'h, 'e) start) \<Rightarrow> ('l, 'h, 'e) start"
where
  "dialled name dial addr l continue w =
     (case dial addr l w of
        None \<Rightarrow> None
      | Some (Inl err, w1) \<Rightarrow> Some (Failed (''dial '' @ name @ '' at '' @ addr) err, w1)
      | Some (Inr conn, w1) \<Rightarrow> continue conn w1)"

definition listening ::
  "('l, 'h, 'e) process \<Rightarrow> string \<Rightarrow> 'h \<Rightarrow> 'e deferred list \<Rightarrow> ('e world \<Rightarrow> 'e world) \<Rightarrow> ('l, 'h, 'e) start"
where
  "listening p addr handler defers log_start w =
     (case p_Listen p addr w of
        (Inl err, w1) \<Rightarrow> Some (Failed (''listen on '' @ addr) err, w1)
      | (Inr lis, w1) \<Rightarrow> Some (Listening lis handler defers, log_start w1))"

definition serving :: "('l, 'h, 'e) process \<Rightarrow> string \<Rightarrow> ('l, 'h, 'e) start \<Rightarrow> 'e world \<Rightarrow> (main_end \<times> 'e world) option" where
  "serving p name start w =
     (case start w of
        None \<Rightarrow> None
      | Some (Failed msg err, w1) \<Rightarrow> Some (Fatalf msg err, w1)
      | Some (Listening lis handler defers, w1) \<Rightarrow>
          (case p_Serve p lis handler w1 of
             None \<Rightarrow> None
           | Some (Some err, w2) \<Rightarrow> Some (Fatalf (name @ '' server failed'') err, w2)
           | Some (None, w2) \<Rightarrow> Some (Returned, run_deferred defers w2)))"

section \<open>Model Service\<close>

definition model_start :: "('l, string \<Rightarrow> (ScoreRequest, ScoreResponse, 'e) rpc, 'e) process \<Rightarrow> ('l, string \<Rightarrow> (ScoreRequest, ScoreResponse, 'e) rpc, 'e) start" where
  "model_start p =
     (let grpcAddr = getenv (p_Environ p) ''MODEL_GRPC_ADDR'' '':9093'';
          l = NewLogger ''model-service''
      in listening p grpcAddr (\<lambda>m. UnaryServerInterceptor (Some l) m (ModelServer_Score (Some l))) []
           (log_at Info l ''model-service starting'' [(''grpc_addr'', LStr grpcAddr), (''scoring_mode'', LStr ''rules-based'')]))"

definition model_main :: "('l, string \<Rightarrow> (ScoreRequest, ScoreResponse, 'e) rpc, 'e) process \<Rightarrow> 'e world \<Rightarrow> (main_end \<times> 'e world) option" where
  "model_main p = serving p ''model-service'' (model_start p)"

section \<open>Tenant Config Service\<close>

record 'e tenant_handlers =
  th_GetTenant :: "string \<Rightarrow> (GetTenantRequest, TenantContext, 'e) rpc"
  th_GetDagVersion :: "string \<Rightarrow> (GetDagVersionRequest, GetDagVersionResponse, 'e) rpc"

definition tenantconfig_start ::
  "(string \<Rightarrow> gerror + string) \<Rightarrow> (string \<Rightarrow> gerror + tenantsFile) \<Rightarrow> ('l, 'e tenant_handlers, 'e) process \<Rightarrow>
     ('l, 'e tenant_handlers, 'e) start"
where
  "tenantconfig_start ReadFile Unmarshal p w =
     (let grpcAddr = getenv (p_Environ p) ''TENANT_CONFIG_GRPC_ADDR'' '':9094'';
          tenantsFile = getenv (p_Environ p) ''TENANTS_FILE'' ''../../config/tenants.yaml'';
          l = NewLogger ''tenant-config-svc''
      in case Store_Load ReadFile Unmarshal tenantsFile of
           Inl err \<Rightarrow> Some (Failed (''load tenants file '' @ tenantsFile) err, w)
         | Inr st \<Rightarrow>
             listening p grpcAddr
               \<lparr>th_GetTenant = (\<lambda>m. UnaryServerInterceptor (Some l) m (Server_GetTenant st (Some l))),
                th_GetDagVersion = (\<lambda>m. UnaryServerInterceptor (Some l) m (Server_GetDagVersion st (Some l)))\<rparr> []
               (log_at Info l ''tenant-config-svc starting'' [(''grpc_addr'', LStr grpcAddr), (''tenants_file'', LStr tenantsFile)]) w)"

definition tenantconfig_main ::
  "(string \<Rightarrow> gerror + string) \<Rightarrow> (string \<Rightarrow> gerror + tenantsFile) \<Rightarrow> ('l, 'e tenant_handlers, 'e) process \<Rightarrow>
     'e world \<Rightarrow> (main_end \<times> 'e world) option"
where
  "tenantconfig_main ReadFile Unmarshal p = serving p ''tenant-config-svc'' (tenantconfig_start ReadFile Unmarshal p)"

section \<open>Orchestration Service\<close>

text \<open>
  \<open>wire\<close> makes the generated stubs of the five connections, and with the Kafka writer, file system and YAML library
  the backends; \<open>writer_Close\<close> is the writer's own \<open>Close\<close>.
\<close>

type_synonym 'e wire =
  "'e client_conn \<Rightarrow> 'e client_conn \<Rightarrow> 'e client_conn \<Rightarrow> 'e client_conn \<Rightarrow> 'e client_conn \<Rightarrow> 'e backends"

type_synonym 'e claim_handler = "string \<Rightarrow> (ProcessClaimRequest, ProcessClaimResponse, 'e) rpc"

definition orchestration_handler :: "'e backends \<Rightarrow> string \<Rightarrow> string \<Rightarrow> 'e claim_handler" where
  "orchestration_handler b kafkaBrokerAddr dagConfigDir m =
     UnaryServerInterceptor (Some (NewLogger ''orchestration-service'')) m
       (ProcessClaim (orchestration_executor b kafkaBrokerAddr dagConfigDir))"

text \<open>The settings \<open>main\<close> reads from the environment.\<close>

record orchestration_settings =
  os_grpcAddr :: string
  os_addressNormAddr :: string
  os_modelAddr :: string
  os_tenantConfigAddr :: string
  os_claimantIDHashAddr :: string
  os_policyLookupAddr :: string
  os_kafkaBrokerAddr :: string
  os_dagConfigDir :: string

definition orchestration_env :: "(string \<rightharpoonup> string) \<Rightarrow> orchestration_settings" where
  "orchestration_env environ =
     \<lparr>os_grpcAddr = getenv environ ''ORCHESTRATION_GRPC_ADDR'' '':9091'',
      os_addressNormAddr = getenv environ ''ADDRESS_NORMALIZATION_ADDR'' ''localhost:9092'',
      os_modelAddr = getenv environ ''MODEL_SERVICE_ADDR'' ''localhost:9093'',
      os_tenantConfigAddr = getenv environ ''TENANT_CONFIG_ADDR'' ''localhost:9094'',
      os_claimantIDHashAddr = getenv environ ''CLAIMANT_ID_HASHING_ADDR'' ''localhost:9095'',
      os_policyLookupAddr = getenv environ ''POLICY_LOOKUP_ADDR'' ''localhost:9096'',
      os_kafkaBrokerAddr = getenv environ ''KAFKA_BROKER_ADDR'' ''localhost:19092'',
      os_dagConfigDir = getenv environ ''DAG_CONFIG_DIR'' ''../../config/dag''\<rparr>"

definition orchestration_start ::
  "'e wire \<Rightarrow> (kafka_writer \<Rightarrow> 'e deferred) \<Rightarrow> ('l, 'e claim_handler, 'e) process \<Rightarrow> ('l, 'e claim_handler, 'e) start"
where
  "orchestration_start wire writer_Close p =
     (let s = orchestration_env (p_Environ p); l = NewLogger ''orchestration-service''; nc = p_NewClient p
      in dialled ''tenant-config-svc'' (DialTenantConfig nc) (os_tenantConfigAddr s) l (\<lambda>tenantConfig.
         dialled ''address-normalization-svc'' (DialAddressNorm nc) (os_addressNormAddr s) l (\<lambda>addressNorm.
         dialled ''claimant-id-hashing-svc'' (DialClaimantIDHash nc) (os_claimantIDHashAddr s) l (\<lambda>claimantIDHash.
         dialled ''policy-lookup-svc'' (DialPolicyLookup nc) (os_policyLookupAddr s) l (\<lambda>policyLookup.
         dialled ''model-service'' (DialModel nc) (os_modelAddr s) l (\<lambda>model.
           listening p (os_grpcAddr s)
             (orchestration_handler (wire tenantConfig addressNorm claimantIDHash policyLookup model)
                (os_kafkaBrokerAddr s) (os_dagConfigDir s))
             [TenantConfigClient_Close tenantConfig, AddressNormClient_Close addressNorm, ClaimantIDHashClient_Close claimantIDHash,
              PolicyLookupClient_Close policyLookup, ModelClient_Close model,
              Publisher_Close writer_Close (NewPublisher (os_kafkaBrokerAddr s))]
             (log_at Info l ''orchestration-service starting''
                [(''grpc_addr'', LStr (os_grpcAddr s)), (''address_norm_addr'', LStr (os_addressNormAddr s)),
                 (''claimant_id_hash_addr'', LStr (os_claimantIDHashAddr s)), (''policy_lookup_addr'', LStr (os_policyLookupAddr s)),
                 (''model_addr'', LStr (os_modelAddr s)), (''tenant_config_addr'', LStr (os_tenantConfigAddr s)),
                 (''kafka_broker_addr'', LStr (os_kafkaBrokerAddr s)), (''dag_config_dir'', LStr (os_dagConfigDir s))])))))))"

definition orchestration_main ::
  "'e wire \<Rightarrow> (kafka_writer \<Rightarrow> 'e deferred) \<Rightarrow> ('l, 'e claim_handler, 'e) process \<Rightarrow> 'e world \<Rightarrow> (main_end \<times> 'e world) option"
where
  "orchestration_main wire writer_Close p = serving p ''orchestration-service'' (orchestration_start wire writer_Close p)"

section \<open>Claims gateway\<close>

text \<open>A \<open>ServeMux\<close> is the list of its patterns and handlers, in the order of registration.\<close>

type_synonym 'e mux = "(string \<times> (http_request \<Rightarrow> 'e world \<Rightarrow> http_result \<times> 'e world)) list"

definition HandleFunc :: "'e mux \<Rightarrow> string \<Rightarrow> (http_request \<Rightarrow> 'e world \<Rightarrow> http_result \<times> 'e world) \<Rightarrow> 'e mux" where
  "HandleFunc mux pattern handler = mux @ [(pattern, handler)]"

definition gateway_mux :: "'e rand_source \<Rightarrow> 'e claims_handler \<Rightarrow> 'e mux" where
  "gateway_mux rand_Read h =
     (let mux = HandleFunc [] ''/v1/claims'' (SubmitClaim rand_Read h)
      in HandleFunc mux ''/healthz'' (\<lambda>r w. (Responded (Healthz r), w)))"

text \<open>\<open>http.ListenAndServe\<close> listens on the address it is given, so the listener of this process is the address.\<close>

definition gateway_start ::
  "('e client_conn \<Rightarrow> (GetTenantRequest, TenantContext, 'e) rpc) \<Rightarrow>
   ('e client_conn \<Rightarrow> (ProcessClaimRequest, ProcessClaimResponse, 'e) rpc) \<Rightarrow> 'e rand_source \<Rightarrow>
   (string, 'e mux, 'e) process \<Rightarrow> (string, 'e mux, 'e) start"
where
  "gateway_start tenant_stub orchestration_stub rand_Read p =
     (let getvar = getenv (p_Environ p);
          httpAddr = getvar ''GATEWAY_HTTP_ADDR'' '':8080'';
          orchestrationAddr = getvar ''ORCHESTRATION_ADDR'' ''localhost:9091'';
          tenantConfigAddr = getvar ''TENANT_CONFIG_ADDR'' ''localhost:9094'';
          l = NewLogger ''claims-gateway''; nc = p_NewClient p
      in dialled ''tenant-config-svc'' (gateway_DialTenantConfig nc) tenantConfigAddr l (\<lambda>tenantConfig.
         dialled ''orchestration service'' (DialOrchestration nc) orchestrationAddr l (\<lambda>orchestration w.
           let h = \<lparr>h_GetTenant = TenantConfigClient_GetTenant (tenant_stub tenantConfig),
                    h_ProcessClaim = OrchestrationClient_ProcessClaim (orchestration_stub orchestration), h_Logger = Some l\<rparr>
           in Some (Listening httpAddr (gateway_mux rand_Read h)
                [gateway_TenantConfigClient_Close tenantConfig, OrchestrationClient_Close orchestration],
              log_at Info l ''claims-gateway starting''
                [(''http_addr'', LStr httpAddr), (''orchestration_addr'', LStr orchestrationAddr),
                 (''tenant_config_addr'', LStr tenantConfigAddr)] w))))"

definition gateway_main ::
  "('e client_conn \<Rightarrow> (GetTenantRequest, TenantContext, 'e) rpc) \<Rightarrow>
   ('e client_conn \<Rightarrow> (ProcessClaimRequest, ProcessClaimResponse, 'e) rpc) \<Rightarrow> 'e rand_source \<Rightarrow>
   (string, 'e mux, 'e) process \<Rightarrow> 'e world \<Rightarrow> (main_end \<times> 'e world) option"
where
  "gateway_main tenant_stub orchestration_stub rand_Read p =
     serving p ''claims-gateway'' (gateway_start tenant_stub orchestration_stub rand_Read p)"

section \<open>Dialling\<close>

lemmas dial_defs = DialTenantConfig_def DialAddressNorm_def DialClaimantIDHash_def DialPolicyLookup_def DialModel_def
  DialOrchestration_def gateway_DialTenantConfig_def

text \<open>
  What is relied on from a connection at start-up: it waits as documented, and starting it does not block. Whether the
  service behind it is up is left open.
\<close>

definition dials :: "(string \<Rightarrow> gerror + 'e client_conn) \<Rightarrow> (string \<Rightarrow> 'e client_conn) \<Rightarrow> bool" where
  "dials NewClient conn \<longleftrightarrow>
     (\<forall>addr. NewClient addr = Inr (conn addr) \<and> waits_until_deadline (conn addr) \<and>
        (\<forall>w. clock (conn_Connect (conn addr) w) = clock w))"

lemma dial_client_returns:
  assumes "dials nc conn"
  shows "\<exists>w1. dial_client nc addr l w = Some (Inr (conn addr), w1) \<and> clock w1 \<le> clock w + 5000000000"
proof -
  let ?w = "conn_Connect (conn addr) w"
  let ?ctx = "WithTimeout Background (clock ?w) (5 * Second)"
  have c: "nc addr = Inr (conn addr)" "waits_until_deadline (conn addr)" "clock ?w = clock w"
    using assms by (simp_all add: dials_def)
  have "sint (5 * Second) = 5000000000" by (simp add: Second_def Millisecond_def)
  then have "deadline ?ctx = Some (clock w + 5000000000)" by (simp add: WithTimeout_deadline Background_def c)
  from warm_up_loop_returns [OF c(2) this, of l addr ?w] c show ?thesis
    by (auto simp: dial_client_def WarmUp_def Let_def)
qed

lemma dialled_bound:
  assumes "dials nc conn" and "\<And>w1. clock w1 \<le> clock w + 5000000000 \<Longrightarrow> P (continue (conn addr) w1)"
  shows "P (dialled name (dial_client nc) addr l continue w)"
  using dial_client_returns [OF assms(1), of addr l w] assms(2) by (auto simp: dialled_def)

lemma dial_eta:
  "DialTenantConfig nc = dial_client nc" "DialAddressNorm nc = dial_client nc" "DialClaimantIDHash nc = dial_client nc"
  "DialPolicyLookup nc = dial_client nc" "DialModel nc = dial_client nc" "DialOrchestration nc = dial_client nc"
  "gateway_DialTenantConfig nc = dial_client nc"
  by (simp_all add: dial_defs fun_eq_iff)

text \<open>
  With connections that can be dialled, the Orchestration Service gets to listening. \<open>quiet\<close> is any relation
  between worlds that dialling and logging respect; it is used for the time taken and for what has been closed.
\<close>

definition orchestration_defers :: "(string \<Rightarrow> 'e client_conn) \<Rightarrow> (kafka_writer \<Rightarrow> 'e deferred) \<Rightarrow> orchestration_settings \<Rightarrow> 'e deferred list" where
  "orchestration_defers conn writer_Close s =
     map (\<lambda>addr. conn_Close (conn addr))
       [os_tenantConfigAddr s, os_addressNormAddr s, os_claimantIDHashAddr s, os_policyLookupAddr s, os_modelAddr s] @
     [writer_Close (NewPublisher (os_kafkaBrokerAddr s))]"

definition orchestration_service :: "'e wire \<Rightarrow> (string \<Rightarrow> 'e client_conn) \<Rightarrow> orchestration_settings \<Rightarrow> 'e claim_handler" where
  "orchestration_service wire conn s =
     orchestration_handler (wire (conn (os_tenantConfigAddr s)) (conn (os_addressNormAddr s)) (conn (os_claimantIDHashAddr s))
       (conn (os_policyLookupAddr s)) (conn (os_modelAddr s))) (os_kafkaBrokerAddr s) (os_dagConfigDir s)"

lemma close_eta:
  "TenantConfigClient_Close = conn_Close" "AddressNormClient_Close = conn_Close" "ClaimantIDHashClient_Close = conn_Close"
  "PolicyLookupClient_Close = conn_Close" "ModelClient_Close = conn_Close" "Publisher_Close = (\<lambda>c p. c p)"
  by (simp_all add: fun_eq_iff TenantConfigClient_Close_def AddressNormClient_Close_def ClaimantIDHashClient_Close_def
      PolicyLookupClient_Close_def ModelClient_Close_def Publisher_Close_def)

lemma orchestration_reaches_listen:
  assumes "dials (p_NewClient p) conn"
  defines "s \<equiv> orchestration_env (p_Environ p)"
  shows "\<exists>w1 as. clock w1 \<le> clock w + 25000000000 \<and>
    orchestration_start wire writer_Close p w =
      listening p (os_grpcAddr s) (orchestration_service wire conn s) (orchestration_defers conn writer_Close s)
        (log_at Info (NewLogger ''orchestration-service'') ''orchestration-service starting'' as) w1"
proof -
  let ?P = "\<lambda>x. \<exists>w1 as. clock w1 \<le> clock w + 25000000000 \<and>
    x = listening p (os_grpcAddr s) (orchestration_service wire conn s) (orchestration_defers conn writer_Close s)
      (log_at Info (NewLogger ''orchestration-service'') ''orchestration-service starting'' as) w1"
  show ?thesis
    unfolding orchestration_start_def Let_def dial_eta close_eta s_def [symmetric]
    by (intro dialled_bound [where P = ?P, OF assms(1)], rule exI, rule exI, rule conjI [rotated])
      (simp add: orchestration_service_def orchestration_defers_def, linarith)
qed

section \<open>Shutdown\<close>

text \<open>
  A view \<open>f\<close> of the outside world that start-up and serving leave alone. Whether an address can be dialled is left open.
\<close>

definition startup_keeps :: "('e \<Rightarrow> 'a) \<Rightarrow> ('l, 'h, 'e) process \<Rightarrow> bool" where
  "startup_keeps f p \<longleftrightarrow>
     (\<forall>a c w. p_NewClient p a = Inr c \<longrightarrow> f (env (conn_Connect c w)) = f (env w)) \<and>
     (\<forall>a c x st w. p_NewClient p a = Inr c \<longrightarrow> f (env (snd (conn_WaitForStateChange c x st w))) = f (env w)) \<and>
     (\<forall>a w. f (env (snd (p_Listen p a w))) = f (env w)) \<and>
     (\<forall>lis h w r w'. p_Serve p lis h w = Some (r, w') \<longrightarrow> f (env w') = f (env w))"

lemma warm_up_loop_keeps:
  assumes "warm_up_loop conn l target ctx w = Some w'"
    and "\<And>c st w. f (env (snd (conn_WaitForStateChange conn c st w))) = f (env w)"
  shows "f (env w') = f (env w)"
  using assms
proof (induction rule: warm_up_loop.raw_induct [rotated, consumes 1, case_names loop])
  case (loop rec conn l target ctx w y)
  obtain ch w1 where "conn_WaitForStateChange conn ctx (conn_GetState conn w) w = (ch, w1)" by fastforce
  with loop.prems [of ctx "conn_GetState conn w" w] loop.hyps loop.IH [OF _ loop.prems, of l target ctx w1 y] show ?case
    by (auto simp: Let_def split: if_splits)
qed

text \<open>The connections \<open>main\<close> dials, in order, and where a chain of dials ends.\<close>

definition orchestration_dials :: "orchestration_settings \<Rightarrow> (string \<times> string) list" where
  "orchestration_dials s =
     [(''tenant-config-svc'', os_tenantConfigAddr s), (''address-normalization-svc'', os_addressNormAddr s),
      (''claimant-id-hashing-svc'', os_claimantIDHashAddr s), (''policy-lookup-svc'', os_policyLookupAddr s),
      (''model-service'', os_modelAddr s)]"

fun dials_end ::
  "('e \<Rightarrow> 'a) \<Rightarrow> ('l, 'h, 'e) process \<Rightarrow> (string \<times> string) list \<Rightarrow> ('l, 'h, 'e) start \<Rightarrow> 'e world \<Rightarrow> ('l, 'h, 'e) startup \<times> 'e world \<Rightarrow> bool"
where
  "dials_end f p [] continue w y \<longleftrightarrow> (\<exists>w1. f (env w1) = f (env w) \<and> continue w1 = Some y)"
| "dials_end f p ((name, addr) # ds) continue w y \<longleftrightarrow>
     (case p_NewClient p addr of
        Inl err \<Rightarrow> \<exists>w1. f (env w1) = f (env w) \<and> y = (Failed (''dial '' @ name @ '' at '' @ addr) err, w1)
      | Inr conn \<Rightarrow> dials_end f p ds continue w y)"

lemma dials_end_cong: "f (env w1) = f (env w) \<Longrightarrow> dials_end f p ds continue w1 y = dials_end f p ds continue w y"
  by (induction ds) (auto split: sum.split)

lemma dialled_end:
  assumes keep: "startup_keeps f p"
    and "dialled name (dial_client (p_NewClient p)) addr l continue w = Some y"
    and rest: "\<And>w1. continue (projr (p_NewClient p addr)) w1 = Some y \<Longrightarrow> dials_end f p ds k w1 y"
  shows "dials_end f p ((name, addr) # ds) k w y"
proof (cases "p_NewClient p addr")
  case (Inl err)
  with assms(2) show ?thesis by (auto simp: dialled_def dial_client_def)
next
  case (Inr conn)
  then obtain w1 where w1: "WarmUp conn l addr (5 * Second) w = Some w1" "continue conn w1 = Some y"
    using assms(2) by (auto simp: dialled_def dial_client_def split: option.splits)
  have "f (env w1) = f (env (conn_Connect conn w))"
    by (rule warm_up_loop_keeps [OF w1(1) [unfolded WarmUp_def Let_def]]) (use keep Inr in \<open>auto simp: startup_keeps_def\<close>)
  also have "\<dots> = f (env w)" using keep Inr unfolding startup_keeps_def by blast
  finally show ?thesis using rest [of w1] w1(2) Inr dials_end_cong [of f w1 w p ds k y] by simp
qed

lemma orchestration_start_end:
  assumes keep: "startup_keeps f p" and start: "orchestration_start wire writer_Close p w = Some y"
  defines "s \<equiv> orchestration_env (p_Environ p)" and "conn \<equiv> \<lambda>addr. projr (p_NewClient p addr)"
  shows "\<exists>as. dials_end f p (orchestration_dials s)
    (listening p (os_grpcAddr s) (orchestration_service wire conn s) (orchestration_defers conn writer_Close s)
      (log_at Info (NewLogger ''orchestration-service'') ''orchestration-service starting'' as)) w y"
  unfolding orchestration_dials_def
  by (rule exI, rule dialled_end [OF keep start [unfolded orchestration_start_def Let_def dial_eta close_eta s_def [symmetric]]],
      (rule dialled_end [OF keep], assumption)+)
    (auto simp: orchestration_service_def orchestration_defers_def conn_def)

lemma dials_end_cases:
  assumes "dials_end f p ds continue w y"
  obtains (refused) name addr err w1 where
    "find (\<lambda>(name, addr). isl (p_NewClient p addr)) ds = Some (name, addr)" "p_NewClient p addr = Inl err"
    "f (env w1) = f (env w)" "y = (Failed (''dial '' @ name @ '' at '' @ addr) err, w1)"
  | (opened) w1 where "find (\<lambda>(name, addr). isl (p_NewClient p addr)) ds = None" "f (env w1) = f (env w)" "continue w1 = Some y"
  using assms by (induction ds) (auto split: sum.splits)

section \<open>The other services\<close>

text \<open>What the entry points register is what clients are linked to.\<close>

interpretation orchestration_registered: rpc_link "\<lambda>ctx m. orchestration_handler b broker dir m (received ctx)"
    "NewLogger ''orchestration-service''" "ProcessClaim (orchestration_executor b broker dir)" for b broker dir
  by unfold_locales (simp add: orchestration_handler_def)

lemma model_start_registers:
  assumes "p_Listen p = (\<lambda>addr w. (Inr (lis addr), w))"
  shows "\<exists>h w1. model_start p w = Some (Listening (lis (getenv (p_Environ p) ''MODEL_GRPC_ADDR'' '':9093'')) h [], w1) \<and>
    clock w1 = clock w \<and> rpc_link (\<lambda>ctx m. h m (received ctx)) (NewLogger ''model-service'') (ModelServer_Score (Some (NewLogger ''model-service'')))"
  by (simp add: model_start_def listening_def assms rpc_link_def Let_def)

lemma tenantconfig_bad_file:
  assumes "Store_Load ReadFile Unmarshal (getenv (p_Environ p) ''TENANTS_FILE'' ''../../config/tenants.yaml'') = Inl err"
  shows "tenantconfig_main ReadFile Unmarshal p w =
    Some (Fatalf (''load tenants file '' @ getenv (p_Environ p) ''TENANTS_FILE'' ''../../config/tenants.yaml'') err, w)"
  using assms by (simp add: tenantconfig_main_def tenantconfig_start_def serving_def Let_def)

lemma gateway_mux_routes:
  "map fst (gateway_mux rand_Read h) = [''/v1/claims'', ''/healthz'']"
  "map_of (gateway_mux rand_Read h) ''/v1/claims'' = Some (SubmitClaim rand_Read h)"
  "map_of (gateway_mux rand_Read h) ''/healthz'' = Some (\<lambda>r w. (Responded (Healthz r), w))"
  by (simp_all add: gateway_mux_def HandleFunc_def Let_def)

lemma gateway_starts_serving:
  assumes "dials (p_NewClient p) conn"
  shows "\<exists>h ds w1. gateway_start tenant_stub orchestration_stub rand_Read p w =
      Some (Listening (getenv (p_Environ p) ''GATEWAY_HTTP_ADDR'' '':8080'') (gateway_mux rand_Read h) ds, w1) \<and>
    clock w1 \<le> clock w + 10000000000 \<and>
    h_ProcessClaim h = orchestration_stub (conn (getenv (p_Environ p) ''ORCHESTRATION_ADDR'' ''localhost:9091'')) \<and>
    h_GetTenant h = TenantConfigClient_GetTenant (tenant_stub (conn (getenv (p_Environ p) ''TENANT_CONFIG_ADDR'' ''localhost:9094'')))"
proof -
  let ?P = "\<lambda>x. \<exists>h ds w1. x =
      Some (Listening (getenv (p_Environ p) ''GATEWAY_HTTP_ADDR'' '':8080'') (gateway_mux rand_Read h) ds, w1) \<and>
    clock w1 \<le> clock w + 10000000000 \<and>
    h_ProcessClaim h = orchestration_stub (conn (getenv (p_Environ p) ''ORCHESTRATION_ADDR'' ''localhost:9091'')) \<and>
    h_GetTenant h = TenantConfigClient_GetTenant (tenant_stub (conn (getenv (p_Environ p) ''TENANT_CONFIG_ADDR'' ''localhost:9094'')))"
  show ?thesis
    unfolding gateway_start_def Let_def dial_eta
    by (intro dialled_bound [where P = ?P, OF assms], intro exI conjI, rule refl)
      (simp_all add: OrchestrationClient_ProcessClaim_def TenantConfigClient_GetTenant_def fun_eq_iff)
qed

section \<open>Properties\<close>

text \<open>
  (C19) Start-up completes. If addresses can be dialled and the listener opens, the Orchestration Service gets to
  serving \<open>ProcessClaim\<close> behind its interceptor no later than 25 seconds after it was started, whether or not any of
  the five services it depends on is up, and with the addresses of its environment or their defaults.
\<close>

theorem orchestration_starts_serving:
  assumes "dials (p_NewClient p) conn" and "p_Listen p = (\<lambda>addr w. (Inr (lis addr), w))"
  shows "let s = orchestration_env (p_Environ p);
      h = (\<lambda>m. UnaryServerInterceptor (Some (NewLogger ''orchestration-service'')) m (ProcessClaim (orchestration_executor
        (wire (conn (os_tenantConfigAddr s)) (conn (os_addressNormAddr s)) (conn (os_claimantIDHashAddr s))
          (conn (os_policyLookupAddr s)) (conn (os_modelAddr s))) (os_kafkaBrokerAddr s) (os_dagConfigDir s))))
    in \<exists>ds w1. orchestration_start wire writer_Close p w = Some (Listening (lis (os_grpcAddr s)) h ds, w1) \<and>
      clock w1 \<le> clock w + 25000000000 \<and>
      (orchestration_main wire writer_Close p w = None \<longleftrightarrow> p_Serve p (lis (os_grpcAddr s)) h w1 = None)"
proof -
  let ?s = "orchestration_env (p_Environ p)"
  obtain w1 as where w1: "clock w1 \<le> clock w + 25000000000" "orchestration_start wire writer_Close p w =
      listening p (os_grpcAddr ?s) (orchestration_service wire conn ?s) (orchestration_defers conn writer_Close ?s)
        (log_at Info (NewLogger ''orchestration-service'') ''orchestration-service starting'' as) w1"
    using orchestration_reaches_listen [OF assms(1), of w wire writer_Close] by blast
  have "orchestration_service wire conn ?s = (\<lambda>m. UnaryServerInterceptor (Some (NewLogger ''orchestration-service'')) m
      (ProcessClaim (orchestration_executor (wire (conn (os_tenantConfigAddr ?s)) (conn (os_addressNormAddr ?s))
        (conn (os_claimantIDHashAddr ?s)) (conn (os_policyLookupAddr ?s)) (conn (os_modelAddr ?s))) (os_kafkaBrokerAddr ?s) (os_dagConfigDir ?s))))"
    by (simp add: orchestration_service_def orchestration_handler_def fun_eq_iff)
  with w1 show ?thesis
    by (simp add: listening_def assms(2) orchestration_main_def serving_def Let_def split: option.split)
qed

text \<open>
  (C22) The ends of the process. If an address cannot be dialled, the process exits with the message for the first such
  address, in the order of the five dials; otherwise it exits because it cannot listen or because serving failed, or it
  returns. When it returns, its five connections and the Kafka writer have been closed exactly once each, in the reverse
  order of their opening; on every fatal exit -- a refused dial, whatever was opened before it, a refused listener, a failed
  server -- none of them is closed. \<open>closings\<close> is the order of closings as seen from outside.
\<close>

theorem orchestration_shutdown_order:
  assumes "startup_keeps closings p"
    and "\<And>a c w. p_NewClient p a = Inr c \<Longrightarrow> closings (env (snd (conn_Close c w))) = closings (env w) @ [a]"
    and "\<And>q w. closings (env (snd (writer_Close q w))) = closings (env w) @ [kw_Addr q]"
    and "orchestration_main wire writer_Close p w = Some (res, w')"
  shows "let s = orchestration_env (p_Environ p) in
    closings (env w') = closings (env w) @
      (if res = Returned
       then [os_kafkaBrokerAddr s, os_modelAddr s, os_policyLookupAddr s, os_claimantIDHashAddr s, os_addressNormAddr s, os_tenantConfigAddr s]
       else []) \<and>
    (case find (\<lambda>(name, addr). isl (p_NewClient p addr)) (orchestration_dials s) of
       Some (name, addr) \<Rightarrow> res = Fatalf (''dial '' @ name @ '' at '' @ addr) (projl (p_NewClient p addr))
     | None \<Rightarrow> res = Returned \<or> (\<exists>err. res = Fatalf (''listen on '' @ os_grpcAddr s) err) \<or>
         (\<exists>err. res = Fatalf ''orchestration-service server failed'' err))"
proof -
  let ?s = "orchestration_env (p_Environ p)" and ?conn = "\<lambda>addr. projr (p_NewClient p addr)"
  let ?up = "\<lambda>as. listening p (os_grpcAddr ?s) (orchestration_service wire ?conn ?s) (orchestration_defers ?conn writer_Close ?s)
      (log_at Info (NewLogger ''orchestration-service'') ''orchestration-service starting'' as)"
  obtain y where y: "orchestration_start wire writer_Close p w = Some y"
    using assms(4) by (auto simp: orchestration_main_def serving_def split: option.splits)
  obtain as where "dials_end closings p (orchestration_dials ?s) (?up as) w y"
    using orchestration_start_end [OF assms(1) y] by blast
  then show ?thesis
  proof (cases rule: dials_end_cases)
    case (refused name addr err w1)
    then show ?thesis using assms(4) by (auto simp: orchestration_main_def serving_def y)
  next
    case (opened w1)
    obtain r w2 where l: "p_Listen p (os_grpcAddr ?s) w1 = (r, w2)" by fastforce
    with assms(1) opened(2) have w2: "closings (env w2) = closings (env w)" unfolding startup_keeps_def by (metis snd_conv)
    have serve: "closings (env w') = closings (env w)" if "p_Serve p ls h w = Some (r, w')" for ls h w r w'
      using that assms(1) unfolding startup_keeps_def by blast
    have close: "closings (env (snd (conn_Close (projr (p_NewClient p a)) u))) = closings (env u) @ [a]"
      if "a \<in> snd ` set (orchestration_dials ?s)" for a u
    proof -
      have "\<not> isl (p_NewClient p a)" using opened(1) that by (auto simp: find_None_iff)
      from assms(2) [OF sum.collapse(2) [OF this, symmetric]] show ?thesis .
    qed
    show ?thesis
      using assms(4) opened(1,3) l w2
      by (auto simp: orchestration_main_def serving_def y listening_def orchestration_defers_def run_deferred_def close assms(3)
          NewPublisher_def orchestration_dials_def Let_def dest!: serve split: sum.splits option.splits)
  qed
qed

section \<open>Witnesses\<close>

text \<open>A process with an empty environment whose downstream services are all down; \<open>env\<close> records closings.\<close>

definition dead_conn :: "string \<Rightarrow> string list client_conn" where
  "dead_conn addr =
     \<lparr>conn_Connect = (\<lambda>w. w), conn_GetState = (\<lambda>w. TransientFailure),
      conn_WaitForStateChange = (\<lambda>ctx st w. (False, case deadline ctx of None \<Rightarrow> w | Some d \<Rightarrow> w\<lparr>clock := max (clock w) d\<rparr>)),
      conn_Close = (\<lambda>w. (None, w\<lparr>env := env w @ [addr]\<rparr>))\<rparr>"

definition lonely_process :: "(string, string list claim_handler, string list) process" where
  "lonely_process =
     \<lparr>p_Environ = Map.empty, p_NewClient = (\<lambda>addr. Inr (dead_conn addr)), p_Listen = (\<lambda>addr w. (Inr addr, w)),
      p_Serve = (\<lambda>lis h w. Some (None, w))\<rparr>"

definition unavailable_wire :: "string list wire" where
  "unavailable_wire t a c p m =
     \<lparr>b_GetDagVersion = (\<lambda>c r w. ((None, Some unavailable), w)), b_Normalize = (\<lambda>c r w. ((None, Some unavailable), w)),
      b_HashClaimantId = (\<lambda>c r w. ((None, Some unavailable), w)), b_LookupPolicy = (\<lambda>c r w. ((None, Some unavailable), w)),
      b_Score = (\<lambda>c r w. ((None, Some unavailable), w)), b_WriteMessages = (\<lambda>p c m w. (Some unavailable, w)),
      b_ReadFile = (\<lambda>u p. Inl unavailable), b_Unmarshal = (\<lambda>d. Inl unavailable)\<rparr>"

definition recorded_Close :: "kafka_writer \<Rightarrow> string list deferred" where
  "recorded_Close q w = (None, w\<lparr>env := env w @ [kw_Addr q]\<rparr>)"

definition nothing_closed :: "string list world" where
  "nothing_closed = \<lparr>clock = 0, logs = [], sched = (\<lambda>t. False), env = []\<rparr>"

lemma lonely_dials: "dials (p_NewClient lonely_process) dead_conn"
  by (auto simp: dials_def lonely_process_def waits_until_deadline_def dead_conn_def split: option.splits)

theorem orchestration_starts_serving_witness:
  "\<exists>h ds w1. orchestration_start unavailable_wire recorded_Close lonely_process nothing_closed = Some (Listening '':9091'' h ds, w1) \<and>
     clock w1 \<le> 25000000000"
proof -
  have "p_Listen lonely_process = (\<lambda>addr w. (Inr addr, w))" "os_grpcAddr (orchestration_env (p_Environ lonely_process)) = '':9091''"
    "clock nothing_closed = 0"
    by (simp_all add: lonely_process_def orchestration_env_def getenv_def go_index_def nothing_closed_def)
  with orchestration_starts_serving [OF lonely_dials, where lis = "\<lambda>a. a" and w = nothing_closed and wire = unavailable_wire and
      writer_Close = recorded_Close]
  show ?thesis by (auto simp: Let_def)
qed

text \<open>The same process when the third address it dials is refused.\<close>

definition refused_process :: "(string, string list claim_handler, string list) process" where
  "refused_process = lonely_process
     \<lparr>p_NewClient := (\<lambda>addr. if addr = ''localhost:9095'' then Inl (ErrorString [Lit ''invalid target'']) else Inr (dead_conn addr))\<rparr>"

lemma dead_WarmUp: "WarmUp (dead_conn addr) l target d w \<noteq> None"
  by (simp add: WarmUp_def warm_up_loop.simps dead_conn_def Let_def)

lemma default_addresses:
  "orchestration_env Map.empty =
     \<lparr>os_grpcAddr = '':9091'', os_addressNormAddr = ''localhost:9092'', os_modelAddr = ''localhost:9093'',
      os_tenantConfigAddr = ''localhost:9094'', os_claimantIDHashAddr = ''localhost:9095'', os_policyLookupAddr = ''localhost:9096'',
      os_kafkaBrokerAddr = ''localhost:19092'', os_dagConfigDir = ''../../config/dag''\<rparr>"
  by (simp add: orchestration_env_def getenv_def go_index_def)

lemma refused_start: "\<exists>msg err u. orchestration_start unavailable_wire recorded_Close refused_process nothing_closed = Some (Failed msg err, u)"
proof -
  let ?P = "\<lambda>x :: ((string, string list claim_handler, string list) startup \<times> string list world) option. \<exists>msg err u. x = Some (Failed msg err, u)"
  have dial: "?P (dialled name (dial_client (p_NewClient refused_process)) addr l k w)"
    if "addr \<noteq> ''localhost:9095''" "\<And>w1. ?P (k (dead_conn addr) w1)" for name addr l k w
    using that dead_WarmUp [of addr l addr "5 * Second" w] by (auto simp: dialled_def dial_client_def refused_process_def)
  have stop: "?P (dialled name (dial_client (p_NewClient refused_process)) ''localhost:9095'' l k w)" for name l k w
    by (simp add: dialled_def dial_client_def refused_process_def)
  have environ: "p_Environ refused_process = Map.empty" by (simp add: refused_process_def lonely_process_def)
  have addrs: "os_tenantConfigAddr (orchestration_env Map.empty) = ''localhost:9094''" "os_addressNormAddr (orchestration_env Map.empty) = ''localhost:9092''"
    "os_claimantIDHashAddr (orchestration_env Map.empty) = ''localhost:9095''" by (simp_all add: default_addresses)
  have far: "''localhost:9094'' \<noteq> ''localhost:9095''" "''localhost:9092'' \<noteq> ''localhost:9095''" by simp_all
  show ?thesis
    unfolding orchestration_start_def Let_def dial_eta environ addrs
    by (rule dial [OF far(1) dial [OF far(2) stop]])
qed

theorem orchestration_shutdown_order_witness:
  "(\<exists>w'. orchestration_main unavailable_wire recorded_Close lonely_process nothing_closed = Some (Returned, w') \<and>
     env w' = [''localhost:19092'', ''localhost:9093'', ''localhost:9096'', ''localhost:9095'', ''localhost:9092'', ''localhost:9094'']) \<and>
   (\<exists>w'. orchestration_main unavailable_wire recorded_Close refused_process nothing_closed =
     Some (Fatalf ''dial claimant-id-hashing-svc at localhost:9095'' (ErrorString [Lit ''invalid target'']), w') \<and> env w' = [])"
proof
  have keep: "startup_keeps (\<lambda>e. e) lonely_process" "startup_keeps (\<lambda>e. e) refused_process"
    by (auto simp: startup_keeps_def lonely_process_def refused_process_def dead_conn_def split: option.split if_splits)
  have closes: "env (snd (conn_Close c w)) = env w @ [a]"
    if "p_NewClient lonely_process a = Inr c \<or> p_NewClient refused_process a = Inr c" for a c w
    using that by (auto simp: lonely_process_def refused_process_def dead_conn_def split: if_splits)
  have writer: "env (snd (recorded_Close q w)) = env w @ [kw_Addr q]" for q w by (simp add: recorded_Close_def)
  have "\<exists>w'. orchestration_main unavailable_wire recorded_Close lonely_process nothing_closed = Some (Returned, w')"
    using orchestration_reaches_listen [OF lonely_dials, of nothing_closed unavailable_wire recorded_Close]
    by (auto simp: orchestration_main_def serving_def listening_def lonely_process_def)
  then obtain w' where main: "orchestration_main unavailable_wire recorded_Close lonely_process nothing_closed = Some (Returned, w')" ..
  have "env w' = [''localhost:19092'', ''localhost:9093'', ''localhost:9096'', ''localhost:9095'', ''localhost:9092'', ''localhost:9094'']"
    using orchestration_shutdown_order [OF keep(1) closes writer main]
    by (simp add: nothing_closed_def lonely_process_def default_addresses Let_def)
  with main show "\<exists>w'. orchestration_main unavailable_wire recorded_Close lonely_process nothing_closed = Some (Returned, w') \<and>
     env w' = [''localhost:19092'', ''localhost:9093'', ''localhost:9096'', ''localhost:9095'', ''localhost:9092'', ''localhost:9094'']"
    by blast
  obtain res u where refused: "orchestration_main unavailable_wire recorded_Close refused_process nothing_closed = Some (res, u)"
    using refused_start by (auto simp: orchestration_main_def serving_def)
  have "res = Fatalf ''dial claimant-id-hashing-svc at localhost:9095'' (ErrorString [Lit ''invalid target'']) \<and> env u = []"
    using orchestration_shutdown_order [OF keep(2) closes writer refused]
    by (simp add: refused_process_def lonely_process_def default_addresses orchestration_dials_def nothing_closed_def Let_def split: if_splits)
  with refused show "\<exists>w'. orchestration_main unavailable_wire recorded_Close refused_process nothing_closed =
     Some (Fatalf ''dial claimant-id-hashing-svc at localhost:9095'' (ErrorString [Lit ''invalid target'']), w') \<and> env w' = []"
    by blast
qed

end
