(* ===== verification/FloatGrid.thy ===== *)
theory FloatGrid
  imports Float64
begin

text \<open>
  The values of the type \<open>float64\<close>: the results of rounding are exactly the fixed points of rounding, so whatever the
  program computes is a value of the type.
\<close>

section \<open>Binary magnitude\<close>

lemma pow2_add: "pow2 (d + e) = pow2 d * pow2 e"
proof -
  have "pow2 i = power_int 2 i" for i
    by (simp add: pow2_def power_int_def power_one_over inverse_eq_divide)
  then show ?thesis by (simp add: power_int_add)
qed

lemma pow2_nat: "0 \<le> e \<Longrightarrow> pow2 e = of_int (2 ^ nat e)"
  by (simp add: pow2_def)

lemma blen_bounds: "0 < n \<Longrightarrow> 2 ^ (blen n - 1) \<le> n \<and> n < 2 ^ blen n \<and> 0 < blen n"
proof (induction n rule: less_induct)
  case (less n)
  show ?case
  proof (cases "n = 1")
    case False
    then have "0 < n div 2" "n div 2 < n" using less.prems by simp_all
    from less.IH [OF this(2,1)] have "2 ^ (blen (n div 2) - 1) \<le> n div 2" "n div 2 < 2 ^ blen (n div 2)" "0 < blen (n div 2)" by simp_all
    moreover have "blen n = Suc (blen (n div 2))" using less.prems by (simp add: blen.simps [of n])
    ultimately show ?thesis
      using div_mult_mod_eq [of n 2] mod_less_divisor [of 2 n] by (cases "blen (n div 2)") (simp_all, linarith)
  qed (simp add: blen.simps)
qed

lemma blen_rat:
  assumes "0 < n"
  shows "(2 :: rat) ^ (blen n - 1) \<le> of_nat n" "(of_nat n :: rat) + 1 \<le> 2 ^ blen n"
proof -
  have "2 ^ (blen n - 1) \<le> n" "n + 1 \<le> 2 ^ blen n" using blen_bounds [OF assms] by simp_all
  then have "(of_nat (2 ^ (blen n - 1)) :: rat) \<le> of_nat n" "(of_nat (n + 1) :: rat) \<le> of_nat (2 ^ blen n)"
    by (simp_all only: of_nat_le_iff)
  then show "(2 :: rat) ^ (blen n - 1) \<le> of_nat n" "(of_nat n :: rat) + 1 \<le> 2 ^ blen n" by simp_all
qed

lemma flog2_bounds:
  assumes "0 < x"
  shows "pow2 (flog2 x) \<le> x \<and> x < pow2 (flog2 x + 1)"
proof (cases "1 \<le> x")
  case True
  let ?n = "nat \<lfloor>x\<rfloor>"
  have "0 < ?n" using True by simp
  note b = blen_rat [OF this] blen_bounds [OF this]
  moreover have "of_nat ?n \<le> x" "x < of_nat ?n + 1" using True floor_correct [of x] by simp_all
  ultimately have "2 ^ (blen ?n - 1) \<le> x" "x < 2 ^ blen ?n" by linarith+
  then show ?thesis using True b by (simp add: flog2_def pow2_def nat_diff_distrib)
next
  case False
  let ?n = "nat (\<lceil>1 / x\<rceil> - 1)"
  have y: "1 < 1 / x" using False assms by simp
  then have "0 < ?n" by (simp add: less_ceiling_iff)
  note b = blen_rat [OF this] blen_bounds [OF this]
  have "1 < \<lceil>1 / x\<rceil>" using y by (simp only: less_ceiling_iff of_int_1)
  then have "int ?n = \<lceil>1 / x\<rceil> - 1" by linarith
  then have "of_nat ?n = of_int \<lceil>1 / x\<rceil> - (1 :: rat)" by (metis of_int_1 of_int_diff of_int_of_nat_eq)
  then have n: "of_nat ?n < 1 / x" "1 / x \<le> of_nat ?n + 1" by linarith+
  have "2 ^ (blen ?n - 1) < 1 / x" "1 / x \<le> 2 ^ blen ?n" using n b by linarith+
  then show ?thesis using False b assms by (auto simp: flog2_def pow2_def field_simps nat_diff_distrib)
qed

section \<open>Rounding twice\<close>

lemma pow2_less_iff: "pow2 d < pow2 e \<longleftrightarrow> d < e"
proof (cases "d < e")
  case True
  have "pow2 d * 2 \<le> pow2 d * pow2 (e - d)"
    using pow2_mono [of 1 "e - d"] pow2_pos [of d] True by (intro mult_left_mono) (simp_all add: pow2_def [of 1])
  then have "pow2 d * 2 \<le> pow2 e" using pow2_add [of d "e - d"] by simp
  then show ?thesis using True pow2_pos [of d] by simp
qed (use pow2_mono [of e d] in simp)

lemma flog2_le: "0 < x \<Longrightarrow> x < pow2 e \<Longrightarrow> flog2 x < e"
  using flog2_bounds [of x] pow2_less_iff by (meson order.strict_trans1)

lemma le_flog2:
  assumes "0 < x" "pow2 e \<le> x"
  shows "e \<le> flog2 x"
proof -
  have "pow2 e < pow2 (flog2 x + 1)" using assms flog2_bounds [of x] by (meson order.strict_trans1)
  then show ?thesis by (simp add: pow2_less_iff)
qed

text \<open>Rounding leaves the multiples of the unit in the last place alone.\<close>

definition on_grid :: "rat \<Rightarrow> bool" where
  "on_grid x \<longleftrightarrow> x / pow2 (ulp_exp x) \<in> \<int>"

lemma round64_grid: "on_grid x \<Longrightarrow> round64 x = x"
  using pow2_pos [of "ulp_exp x"] by (auto simp: on_grid_def round64_def elim!: Ints_cases) (simp add: field_simps)

lemma finer_grid:
  assumes "x / pow2 e \<in> \<int>" "ulp_exp x \<le> e"
  shows "on_grid x"
proof -
  obtain k where k: "x / pow2 e = of_int k" using assms(1) by (auto elim: Ints_cases)
  have "pow2 e = pow2 (ulp_exp x) * of_int (2 ^ nat (e - ulp_exp x))"
    using pow2_add [of "ulp_exp x" "e - ulp_exp x"] pow2_nat [of "e - ulp_exp x"] assms(2) by simp
  then have "x / pow2 (ulp_exp x) = of_int (k * 2 ^ nat (e - ulp_exp x))"
    using k pow2_pos [of e] pow2_pos [of "ulp_exp x"] by (simp add: field_simps)
  then show ?thesis by (simp add: on_grid_def)
qed

lemma round64_on_grid: "on_grid (round64 x)"
proof -
  define e k where defs: "e = ulp_exp x" "k = rne (x / pow2 e)"
  have y: "round64 x = of_int k * pow2 e" by (simp add: round64_def defs)
  have p: "0 < pow2 e" by (rule pow2_pos)
  have p53: "pow2 (e + 53) = 2 ^ 53 * pow2 e" by (subst add.commute) (simp only: pow2_add, simp add: pow2_def [of 53])
  show ?thesis
  proof (cases "ulp_exp (round64 x) \<le> e")
    case True
    have "round64 x / pow2 e \<in> \<int>" using p by (simp add: y)
    with True show ?thesis by (intro finer_grid [of _ e])
  next
    case False
    have "-1074 \<le> e" by (simp add: defs ulp_exp_def)
    with False have y0: "round64 x \<noteq> 0" and f: "e + 53 \<le> flog2 \<bar>round64 x\<bar>"
      by (auto simp: ulp_exp_def max_def split: if_splits)
    then have "x \<noteq> 0" by (auto simp: round64_def rne_def)
    have "pow2 (e + 53) \<le> \<bar>round64 x\<bar>"
      using f pow2_mono [of "e + 53" "flog2 \<bar>round64 x\<bar>"] flog2_bounds [of "\<bar>round64 x\<bar>"] y0 by auto
    then have low: "2 ^ 53 \<le> \<bar>of_int k :: rat\<bar>" using p by (simp add: y p53 abs_mult)
    have "\<bar>x\<bar> < pow2 (e + 53)"
    proof -
      have "flog2 \<bar>x\<bar> - 52 \<le> e" using \<open>x \<noteq> 0\<close> by (simp add: defs ulp_exp_def)
      then show ?thesis
        using flog2_bounds [of "\<bar>x\<bar>"] \<open>x \<noteq> 0\<close> pow2_mono [of "flog2 \<bar>x\<bar> + 1" "e + 53"] by auto
    qed
    then have "\<bar>x / pow2 e\<bar> < 2 ^ 53" using p by (simp add: p53 pos_divide_less_eq abs_divide)
    then have "\<bar>of_int k :: rat\<bar> < 2 ^ 53 + 1" using rne_error [of "x / pow2 e"] unfolding defs(2) [symmetric] by linarith
    then have "(of_int \<bar>k\<bar> :: rat) < of_int (2 ^ 53 + 1)" "(of_int (2 ^ 53) :: rat) \<le> of_int \<bar>k\<bar>" using low by simp_all
    then have k: "\<bar>k\<bar> = 2 ^ 53" by (simp only: of_int_less_iff of_int_le_iff)
    then have "\<bar>round64 x\<bar> = pow2 (e + 53)" using p by (simp add: y p53 abs_mult flip: of_int_abs)
    moreover have "flog2 (pow2 (e + 53)) = e + 53"
      using flog2_le [of "pow2 (e + 53)" "e + 54"] le_flog2 [of "pow2 (e + 53)" "e + 53"] pow2_pos by (simp add: pow2_less_iff)
    ultimately have "ulp_exp (round64 x) = e + 1" using y0 \<open>-1074 \<le> e\<close> by (simp add: ulp_exp_def)
    moreover have "pow2 (e + 1) = 2 * pow2 e" by (subst add.commute) (simp only: pow2_add, simp add: pow2_def [of 1])
    ultimately have "round64 x / pow2 (ulp_exp (round64 x)) = of_int k / 2" using p by (simp add: y)
    moreover have "k = 9007199254740992 \<or> k = -9007199254740992" using k by auto
    then have "k = 2 * (k div 2)" by (elim disjE) simp_all
    ultimately show ?thesis unfolding on_grid_def by (metis Ints_of_int nonzero_mult_div_cancel_left of_int_mult of_int_numeral zero_neq_numeral)
  qed
qed

lemma round64_idem: "round64 (round64 x) = round64 x"
  by (intro round64_grid round64_on_grid)

lemma f64_of_rat_idem: "f64_of_rat x = Fin r \<Longrightarrow> f64_of_rat r = Fin r"
  using round64_idem [of x] by (auto simp: f64_of_rat_def Let_def split: if_splits)

text \<open>The finite values of the type.\<close>

fun is_float64 :: "float64 \<Rightarrow> bool" where
  "is_float64 (Fin r) \<longleftrightarrow> f64_of_rat r = Fin r"
| "is_float64 x \<longleftrightarrow> False"

lemma rounded_is_float64: "is_finite (f64_of_rat x) \<Longrightarrow> is_float64 (f64_of_rat x)"
  using f64_of_rat_idem [of x] by (cases "f64_of_rat x") simp_all

end
