(* ===== verification/JsonText.thy ===== *)
theory JsonText
  imports Kafka Hex FloatGrid
begin

text \<open>
  JSON at the level of bytes, as \<open>encoding/json\<close> writes and reads it: the escaping of strings by \<open>Marshal\<close> and
  \<open>Encoder.Encode\<close>, the scanner of \<open>Decoder.Decode\<close> as the state machine it is, with its stack of open containers and
  its error messages, and the unquoting of string literals. Texts are byte sequences. The conversions between
  \<open>float64\<close> and decimal text are parameters.
\<close>

section \<open>UTF-8\<close>

definition byte_in :: "char \<Rightarrow> nat \<Rightarrow> nat \<Rightarrow> bool" where
  "byte_in c lo hi \<longleftrightarrow> lo \<le> (of_char c :: nat) \<and> (of_char c :: nat) \<le> hi"

text \<open>The size of the encoding a first byte announces, and the range of its second byte.\<close>

definition lead_byte :: "char \<Rightarrow> (nat \<times> nat \<times> nat) option" where
  "lead_byte b =
     (if byte_in b 0x00 0x7F then Some (1, 0, 0)
      else if byte_in b 0xC2 0xDF then Some (2, 0x80, 0xBF)
      else if byte_in b 0xE0 0xE0 then Some (3, 0xA0, 0xBF)
      else if byte_in b 0xED 0xED then Some (3, 0x80, 0x9F)
      else if byte_in b 0xE1 0xEF then Some (3, 0x80, 0xBF)
      else if byte_in b 0xF0 0xF0 then Some (4, 0x90, 0xBF)
      else if byte_in b 0xF1 0xF3 then Some (4, 0x80, 0xBF)
      else if byte_in b 0xF4 0xF4 then Some (4, 0x80, 0x8F)
      else None)"

text \<open>The length of the well-formed encoding a byte sequence starts with; 0 if there is none.\<close>

definition rune_size :: "string \<Rightarrow> nat" where
  "rune_size s =
     (case s of
        [] \<Rightarrow> 0
      | b # s' \<Rightarrow>
          (case lead_byte b of
             None \<Rightarrow> 0
           | Some (n, lo, hi) \<Rightarrow>
               if n = 1 then 1
               else if n \<le> length s \<and> byte_in (s ! 1) lo hi \<and> list_all (\<lambda>c. byte_in c 0x80 0xBF) (take (n - 2) (drop 2 s))
               then n else 0))"

lemma lead_byte_size: "lead_byte b = Some (n, lo, hi) \<Longrightarrow> 1 \<le> n \<and> n \<le> 4"
  by (auto simp: lead_byte_def split: if_splits)

lemma rune_size_le: "rune_size s \<le> length s"
  by (auto simp: rune_size_def split: list.split option.split)

text \<open>\<open>utf8.AppendRune\<close> for the code points of \<open>\u\<close> escapes.\<close>

definition encode_rune :: "nat \<Rightarrow> string" where
  "encode_rune r =
     (if r < 0x80 then [char_of r]
      else if r < 0x800 then [char_of (0xC0 + r div 64), char_of (0x80 + r mod 64)]
      else if r < 0x10000 then [char_of (0xE0 + r div 4096), char_of (0x80 + r div 64 mod 64), char_of (0x80 + r mod 64)]
      else [char_of (0xF0 + r div 262144), char_of (0x80 + r div 4096 mod 64), char_of (0x80 + r div 64 mod 64),
            char_of (0x80 + r mod 64)])"

definition replacement :: string where
  "replacement = encode_rune 0xFFFD"

section \<open>Writing\<close>

text \<open>\<open>\u00XX\<close> for a byte.\<close>

definition u00 :: "char \<Rightarrow> string" where
  "u00 c = [CHR 0x5C, CHR ''u'', CHR ''0'', CHR ''0'', hextable ! ((of_char c :: nat) div 16), hextable ! ((of_char c :: nat) mod 16)]"

definition escape_ascii :: "char \<Rightarrow> string" where
  "escape_ascii c =
     (if c \<in> {CHR 0x22, CHR 0x5C} then [CHR 0x5C, c]
      else if c = CHR 0x08 then [CHR 0x5C, CHR ''b'']
      else if c = CHR 0x0C then [CHR 0x5C, CHR ''f'']
      else if c = CHR 0x0A then [CHR 0x5C, CHR ''n'']
      else if c = CHR 0x0D then [CHR 0x5C, CHR ''r'']
      else if c = CHR 0x09 then [CHR 0x5C, CHR ''t'']
      else if (of_char c :: nat) < 0x20 \<or> c \<in> {CHR ''<'', CHR ''>'', CHR 0x26} then u00 c
      else [c])"

text \<open>
  \<open>appendString\<close> with HTML escaping: invalid bytes become \<open>\ufffd\<close>, and the line separators U+2028 and
  U+2029 are escaped.
\<close>

function escape :: "string \<Rightarrow> string" where
  "escape s =
     (case s of
        [] \<Rightarrow> []
      | b # s' \<Rightarrow>
          if byte_in b 0x00 0x7F then escape_ascii b @ escape s'
          else
            (let n = rune_size s in
             if n = 0 then CHR 0x5C # ''ufffd'' @ escape s'
             else if take n s = [CHR 0xE2, CHR 0x80, CHR 0xA8] then CHR 0x5C # ''u2028'' @ escape (drop n s)
             else if take n s = [CHR 0xE2, CHR 0x80, CHR 0xA9] then CHR 0x5C # ''u2029'' @ escape (drop n s)
             else take n s @ escape (drop n s)))"
  by pat_completeness auto
termination
  by (relation "measure length") auto

declare escape.simps [simp del]

definition quote_text :: "string \<Rightarrow> string" where
  "quote_text s = [CHR 0x22] @ escape s @ [CHR 0x22]"

fun commas :: "string list \<Rightarrow> string" where
  "commas [] = []"
| "commas [x] = x"
| "commas (x # y # xs) = x @ [CHR 0x2C] @ commas (y # xs)"

text \<open>The text of a document; \<open>fmt\<close> is \<open>floatEncoder\<close>'s decimal form of a finite number.\<close>

fun marshal_text :: "(float64 \<Rightarrow> string) \<Rightarrow> json \<Rightarrow> string" where
  "marshal_text fmt JNull = ''null''"
| "marshal_text fmt (JBool b) = (if b then ''true'' else ''false'')"
| "marshal_text fmt (JNum x) = fmt x"
| "marshal_text fmt (JStr s) = quote_text s"
| "marshal_text fmt (JArr js) = [CHR 0x5B] @ commas (map (marshal_text fmt) js) @ [CHR 0x5D]"
| "marshal_text fmt (JObj kvs) =
     [CHR 0x7B] @ commas (map (\<lambda>kv. quote_text (fst kv) @ [CHR 0x3A] @ marshal_text fmt (snd kv)) kvs) @ [CHR 0x7D]"

section \<open>Unquoting\<close>

definition hex_value :: "char \<Rightarrow> nat option" where
  "hex_value c =
     (let n = of_char c :: nat in
      if 48 \<le> n \<and> n \<le> 57 then Some (n - 48)
      else if 97 \<le> n \<and> n \<le> 102 then Some (n - 87)
      else if 65 \<le> n \<and> n \<le> 70 then Some (n - 55)
      else None)"

text \<open>\<open>getu4\<close>: the value of a leading \<open>\uXXXX\<close>.\<close>

definition getu4 :: "string \<Rightarrow> nat option" where
  "getu4 s =
     (if take 2 s = [CHR 0x5C, CHR ''u''] \<and> 6 \<le> length s
      then map_option (foldl (\<lambda>r d. 16 * r + d) 0) (those (map hex_value (take 4 (drop 2 s)))) else None)"

definition surrogate :: "nat \<Rightarrow> bool" where
  "surrogate r \<longleftrightarrow> 0xD800 \<le> r \<and> r < 0xE000"

text \<open>\<open>utf16.DecodeRune\<close>\<close>

definition decode_pair :: "nat \<Rightarrow> nat \<Rightarrow> nat option" where
  "decode_pair r1 r2 =
     (if 0xD800 \<le> r1 \<and> r1 < 0xDC00 \<and> 0xDC00 \<le> r2 \<and> r2 < 0xE000
      then Some ((r1 - 0xD800) * 1024 + (r2 - 0xDC00) + 0x10000) else None)"

definition simple_escape :: "char \<Rightarrow> char option" where
  "simple_escape c =
     (if c \<in> {CHR 0x22, CHR 0x5C, CHR 0x2F, CHR 0x27} then Some c
      else if c = CHR ''b'' then Some (CHR 0x08)
      else if c = CHR ''f'' then Some (CHR 0x0C)
      else if c = CHR ''n'' then Some (CHR 0x0A)
      else if c = CHR ''r'' then Some (CHR 0x0D)
      else if c = CHR ''t'' then Some (CHR 0x09)
      else None)"

text \<open>\<open>unquoteBytes\<close> on the inside of a literal; \<open>None\<close> is its failure.\<close>

function unquote :: "string \<Rightarrow> string option" where
  "unquote s =
     (case s of
        [] \<Rightarrow> Some []
      | b # s' \<Rightarrow>
          if b = CHR 0x5C then
            (case s' of
               [] \<Rightarrow> None
             | c # s'' \<Rightarrow>
                 if c = CHR ''u'' then
                   (case getu4 s of
                      None \<Rightarrow> None
                    | Some r \<Rightarrow>
                        (case (if surrogate r then Option.bind (getu4 (drop 6 s)) (decode_pair r) else None) of
                           Some p \<Rightarrow> map_option (\<lambda>t. encode_rune p @ t) (unquote (drop 12 s))
                         | None \<Rightarrow> map_option (\<lambda>t. (if surrogate r then replacement else encode_rune r) @ t) (unquote (drop 6 s))))
                 else
                   (case simple_escape c of
                      None \<Rightarrow> None
                    | Some d \<Rightarrow> map_option (\<lambda>t. d # t) (unquote s'')))
          else if b = CHR 0x22 \<or> (of_char b :: nat) < 0x20 then None
          else if rune_size s = 0 then map_option (\<lambda>t. replacement @ t) (unquote s')
          else map_option (\<lambda>t. take (rune_size s) s @ t) (unquote (drop (rune_size s) s)))"
  by pat_completeness auto
termination
  by (relation "measure length") auto

declare unquote.simps [simp del]

section \<open>The scanner\<close>

text \<open>The open containers, innermost first: \<open>parseState\<close> with what has been read of each.\<close>

datatype frame =
    ObjectKey "(string \<times> json) list"
  | ObjectValue "(string \<times> json) list" string
  | ArrayValue "json list"

datatype num_mode = Neg | Int0 | Int1 | Dot | Dot0 | Exp | ExpSign | Exp0

text \<open>The state functions of the scanner, with the bytes of the literal being read or the value just read.\<close>

datatype mode =
    BeginValue
  | BeginValueOrEmpty
  | BeginString
  | BeginStringOrEmpty
  | InString string
  | InStringEsc string
  | InStringEscU nat string
  | InNumber num_mode string
  | InLiteral string string json
  | EndValue json

datatype scan_result = ScanError string | ScanEnd json | Continue mode "frame list"

definition maxNestingDepth :: nat where
  "maxNestingDepth = 10000"

definition isSpace :: "char \<Rightarrow> bool" where
  "isSpace c \<longleftrightarrow> c \<in> {CHR 0x20, CHR 0x09, CHR 0x0D, CHR 0x0A}"

definition isDigit :: "char \<Rightarrow> bool" where
  "isDigit c \<longleftrightarrow> byte_in c 48 57"

text \<open>\<open>quoteChar\<close>: \<open>strconv.Quote\<close> of a byte taken as a code point, in single quotes.\<close>

definition quoteChar :: "char \<Rightarrow> string" where
  "quoteChar c =
     (let n = of_char c :: nat; hex = [hextable ! (n div 16), hextable ! (n mod 16)] in
      [CHR 0x27] @
      (if c = CHR 0x27 then [CHR 0x5C, CHR 0x27]
       else if c = CHR 0x5C then [CHR 0x5C, CHR 0x5C]
       else if c = CHR 0x07 then CHR 0x5C # ''a'' else if c = CHR 0x08 then CHR 0x5C # ''b''
       else if c = CHR 0x0C then CHR 0x5C # ''f'' else if c = CHR 0x0A then CHR 0x5C # ''n''
       else if c = CHR 0x0D then CHR 0x5C # ''r'' else if c = CHR 0x09 then CHR 0x5C # ''t''
       else if c = CHR 0x0B then CHR 0x5C # ''v''
       else if n < 0x20 \<or> n = 0x7F then CHR 0x5C # ''x'' @ hex
       else if n < 0x7F then [c]
       else if n \<le> 0xA0 \<or> n = 0xAD then CHR 0x5C # ''u00'' @ hex
       else encode_rune n) @ [CHR 0x27])"

definition scan_error :: "char \<Rightarrow> string \<Rightarrow> scan_result" where
  "scan_error c msg = ScanError (''invalid character '' @ quoteChar c @ '' '' @ msg)"

definition push :: "char \<Rightarrow> mode \<Rightarrow> frame \<Rightarrow> frame list \<Rightarrow> scan_result" where
  "push c m f fs = (if length (f # fs) \<le> maxNestingDepth then Continue m (f # fs) else scan_error c ''exceeded max depth'')"

text \<open>\<open>popParseState\<close>: the container is a value of the one around it, or the value read.\<close>

definition close_container :: "json \<Rightarrow> frame list \<Rightarrow> scan_result" where
  "close_container j fs = (if fs = [] then ScanEnd j else Continue (EndValue j) fs)"

definition stateEndValue :: "json \<Rightarrow> char \<Rightarrow> frame list \<Rightarrow> scan_result" where
  "stateEndValue j c fs =
     (case fs of
        [] \<Rightarrow> ScanEnd j
      | ObjectKey kvs # fs' \<Rightarrow>
          if isSpace c then Continue (EndValue j) fs
          else if c = CHR 0x3A then
            (case j of
               JStr k \<Rightarrow> Continue BeginValue (ObjectValue kvs k # fs')
             | _ \<Rightarrow> ScanError ''object key is not a string'')
          else scan_error c ''after object key''
      | ObjectValue kvs k # fs' \<Rightarrow>
          if isSpace c then Continue (EndValue j) fs
          else if c = CHR 0x2C then Continue BeginString (ObjectKey (kvs @ [(k, j)]) # fs')
          else if c = CHR 0x7D then close_container (JObj (kvs @ [(k, j)])) fs'
          else scan_error c ''after object key:value pair''
      | ArrayValue js # fs' \<Rightarrow>
          if isSpace c then Continue (EndValue j) fs
          else if c = CHR 0x2C then Continue BeginValue (ArrayValue (js @ [j]) # fs')
          else if c = CHR 0x5D then close_container (JArr (js @ [j])) fs'
          else scan_error c ''after array element'')"

definition num_start :: "char \<Rightarrow> num_mode option" where
  "num_start c = (if c = CHR 0x2D then Some Neg else if c = CHR ''0'' then Some Int0 else if isDigit c then Some Int1 else None)"

definition exponent_char :: "char \<Rightarrow> bool" where
  "exponent_char c \<longleftrightarrow> c \<in> {CHR ''e'', CHR ''E''}"

fun num_step :: "num_mode \<Rightarrow> char \<Rightarrow> num_mode option" where
  "num_step Neg c = (if c = CHR ''0'' then Some Int0 else if isDigit c then Some Int1 else None)"
| "num_step Int1 c = (if isDigit c then Some Int1 else if c = CHR 0x2E then Some Dot else if exponent_char c then Some Exp else None)"
| "num_step Int0 c = (if c = CHR 0x2E then Some Dot else if exponent_char c then Some Exp else None)"
| "num_step Dot c = (if isDigit c then Some Dot0 else None)"
| "num_step Dot0 c = (if isDigit c then Some Dot0 else if exponent_char c then Some Exp else None)"
| "num_step Exp c = (if c \<in> {CHR 0x2B, CHR 0x2D} then Some ExpSign else if isDigit c then Some Exp0 else None)"
| "num_step ExpSign c = (if isDigit c then Some Exp0 else None)"
| "num_step Exp0 c = (if isDigit c then Some Exp0 else None)"

definition num_complete :: "num_mode \<Rightarrow> bool" where
  "num_complete m \<longleftrightarrow> m \<in> {Int0, Int1, Dot0, Exp0}"

definition num_context :: "num_mode \<Rightarrow> string" where
  "num_context m =
     (if m = Neg then ''in numeric literal''
      else if m = Dot then ''after decimal point in numeric literal''
      else ''in exponent of numeric literal'')"

definition stateBeginValue :: "char \<Rightarrow> frame list \<Rightarrow> scan_result" where
  "stateBeginValue c fs =
     (if isSpace c then Continue BeginValue fs
      else if c = CHR 0x7B then push c BeginStringOrEmpty (ObjectKey []) fs
      else if c = CHR 0x5B then push c BeginValueOrEmpty (ArrayValue []) fs
      else if c = CHR 0x22 then Continue (InString []) fs
      else if c = CHR ''t'' then Continue (InLiteral ''true'' ''rue'' (JBool True)) fs
      else if c = CHR ''f'' then Continue (InLiteral ''false'' ''alse'' (JBool False)) fs
      else if c = CHR ''n'' then Continue (InLiteral ''null'' ''ull'' JNull) fs
      else
        (case num_start c of
           Some m \<Rightarrow> Continue (InNumber m [c]) fs
         | None \<Rightarrow> scan_error c ''looking for beginning of value''))"

definition stateBeginString :: "char \<Rightarrow> mode \<Rightarrow> frame list \<Rightarrow> scan_result" where
  "stateBeginString c m fs =
     (if isSpace c then Continue m fs
      else if c = CHR 0x22 then Continue (InString []) fs
      else scan_error c ''looking for beginning of object key string'')"

text \<open>One byte. \<open>num\<close> is the conversion of a number literal.\<close>

fun scan_step :: "(string \<Rightarrow> float64) \<Rightarrow> mode \<Rightarrow> frame list \<Rightarrow> char \<Rightarrow> scan_result" where
  "scan_step num BeginValue fs c = stateBeginValue c fs"
| "scan_step num BeginValueOrEmpty fs c =
     (if isSpace c then Continue BeginValueOrEmpty fs
      else if c = CHR 0x5D then close_container (JArr []) (tl fs)
      else stateBeginValue c fs)"
| "scan_step num BeginString fs c = stateBeginString c BeginString fs"
| "scan_step num BeginStringOrEmpty fs c =
     (if c = CHR 0x7D then close_container (JObj []) (tl fs) else stateBeginString c BeginStringOrEmpty fs)"
| "scan_step num (InString raw) fs c =
     (if c = CHR 0x22 then
        (case unquote raw of
           Some s \<Rightarrow> Continue (EndValue (JStr s)) fs
         | None \<Rightarrow> ScanError ''malformed string literal'')
      else if c = CHR 0x5C then Continue (InStringEsc (raw @ [c])) fs
      else if (of_char c :: nat) < 0x20 then scan_error c ''in string literal''
      else Continue (InString (raw @ [c])) fs)"
| "scan_step num (InStringEsc raw) fs c =
     (if c \<in> set ''bfnrt'' \<union> {CHR 0x5C, CHR 0x2F, CHR 0x22} then Continue (InString (raw @ [c])) fs
      else if c = CHR ''u'' then Continue (InStringEscU 4 (raw @ [c])) fs
      else scan_error c ''in string escape code'')"
| "scan_step num (InStringEscU n raw) fs c =
     (if hex_value c \<noteq> None then Continue (if n \<le> 1 then InString (raw @ [c]) else InStringEscU (n - 1) (raw @ [c])) fs
      else scan_error c (''in '' @ [CHR 0x5C] @ ''u hexadecimal character escape''))"
| "scan_step num (InNumber m raw) fs c =
     (case num_step m c of
        Some m' \<Rightarrow> Continue (InNumber m' (raw @ [c])) fs
      | None \<Rightarrow> if num_complete m then stateEndValue (JNum (num raw)) c fs else scan_error c (num_context m))"
| "scan_step num (InLiteral word rest j) fs c =
     (case rest of
        [] \<Rightarrow> stateEndValue j c fs
      | e # rest' \<Rightarrow>
          if c = e then Continue (if rest' = [] then EndValue j else InLiteral word rest' j) fs
          else scan_error c (''in literal '' @ word @ '' (expecting '' @ [CHR 0x27, e, CHR 0x27] @ '')''))"
| "scan_step num (EndValue j) fs c = stateEndValue j c fs"

text \<open>
  \<open>Decoder.readValue\<close> and the decoding of the value read: the first value of the stream. At the end of the stream
  a space is added; if that does not end the value, the error is \<open>EOF\<close> if there was nothing but space and
  \<open>unexpected EOF\<close> otherwise, or the error with which reading the stream ended.
\<close>

fun scan :: "(string \<Rightarrow> float64) \<Rightarrow> string option \<Rightarrow> mode \<Rightarrow> frame list \<Rightarrow> string \<Rightarrow> string + json" where
  "scan num ioerr m fs [] =
     (case ioerr of
        Some e \<Rightarrow> Inl e
      | None \<Rightarrow>
          (case scan_step num m fs (CHR 0x20) of
             ScanEnd j \<Rightarrow> Inr j
           | _ \<Rightarrow> Inl (if m = BeginValue \<and> fs = [] then ''EOF'' else ''unexpected EOF'')))"
| "scan num ioerr m fs (c # s) =
     (case scan_step num m fs c of
        ScanError e \<Rightarrow> Inl e
      | ScanEnd j \<Rightarrow> Inr j
      | Continue m' fs' \<Rightarrow> scan num ioerr m' fs' s)"

definition read_value :: "(string \<Rightarrow> float64) \<Rightarrow> string \<Rightarrow> string option \<Rightarrow> string + json" where
  "read_value num bytes ioerr = scan num ioerr BeginValue [] bytes"

section \<open>Strings read back\<close>

text \<open>What becomes of a string: every byte outside a well-formed encoding is replaced by U+FFFD.\<close>

function coerce :: "string \<Rightarrow> string" where
  "coerce s =
     (case s of
        [] \<Rightarrow> []
      | b # s' \<Rightarrow> if rune_size s = 0 then replacement @ coerce s' else take (rune_size s) s @ coerce (drop (rune_size s) s))"
  by pat_completeness auto
termination
  by (relation "measure length") auto

declare coerce.simps [simp del]

definition valid_utf8 :: "string \<Rightarrow> bool" where
  "valid_utf8 s \<longleftrightarrow> coerce s = s"

lemma byte_in_ascii: "byte_in b 0 127 \<longleftrightarrow> (of_char b :: nat) < 128"
  by (auto simp: byte_in_def)

lemma rune_size_ascii: "byte_in b 0x00 0x7F \<Longrightarrow> rune_size (b # s) = 1"
  by (simp add: rune_size_def lead_byte_def)

lemma rune_size_cases:
  assumes "rune_size s \<noteq> 0"
  obtains b s' n lo hi where "s = b # s'" "lead_byte b = Some (n, lo, hi)" "rune_size s = n" "n \<le> length s"
    "n \<noteq> 1 \<Longrightarrow> byte_in (s ! 1) lo hi \<and> list_all (\<lambda>c. byte_in c 0x80 0xBF) (take (n - 2) (drop 2 s))"
  using assms by (auto simp: rune_size_def split: list.splits option.splits if_splits)

lemma rune_size_Cons:
  "rune_size (b # v) =
     (case lead_byte b of
        None \<Rightarrow> 0
      | Some (n, lo, hi) \<Rightarrow>
          if n = 1 then 1
          else if n \<le> Suc (length v) \<and> byte_in (v ! 0) lo hi \<and> list_all (\<lambda>c. byte_in c 0x80 0xBF) (take (n - 2) (drop 1 v))
          then n else 0)"
  by (auto simp: rune_size_def split: option.split)

lemma rune_size_prefix:
  assumes "rune_size (b # v) = Suc m"
  shows "rune_size (b # take m v @ t) = Suc m"
proof (cases m)
  case 0
  with assms show ?thesis by (auto simp: rune_size_Cons split: option.splits if_splits)
next
  case (Suc k)
  from assms obtain lo hi where l: "lead_byte b = Some (Suc m, lo, hi)" "m \<le> length v" "byte_in (v ! 0) lo hi"
    "list_all (\<lambda>c. byte_in c 0x80 0xBF) (take (m - 1) (drop 1 v))"
    using Suc by (auto simp: rune_size_Cons split: option.splits if_splits)
  have "(take m v @ t) ! 0 = v ! 0" using Suc l(2) by (cases v) simp_all
  moreover have "take (m - 1) (drop 1 (take m v @ t)) = take (m - 1) (drop 1 v)"
    using l(2) Suc by (cases v) simp_all
  ultimately show ?thesis using l Suc by (simp add: rune_size_Cons)
qed

lemma rune_bytes:
  assumes "rune_size (b # s) = n" "\<not> byte_in b 0x00 0x7F" "c \<in> set (take n (b # s))"
  shows "128 \<le> (of_char c :: nat)"
proof -
  have n0: "n \<noteq> 0" using assms(3) by (cases n) auto
  with assms(1) obtain lo hi where l: "lead_byte b = Some (n, lo, hi)" "n \<le> Suc (length s)"
    "n \<noteq> 1 \<Longrightarrow> byte_in ((b # s) ! 1) lo hi \<and> list_all (\<lambda>c. byte_in c 0x80 0xBF) (take (n - 2) (drop 2 (b # s)))"
    by (metis rune_size_cases length_Cons list.inject)
  have lo: "n \<noteq> 1 \<and> 128 \<le> lo" using l(1) assms(2) by (auto simp: lead_byte_def split: if_splits)
  obtain m where n: "n = Suc (Suc m)" using lo n0 by (metis One_nat_def not0_implies_Suc)
  obtain b2 s2 where s: "s = b2 # s2" using l(2) n by (cases s) auto
  have "byte_in b2 lo hi" "list_all (\<lambda>c. byte_in c 0x80 0xBF) (take m s2)" using l(3) lo n s by simp_all
  moreover have "c = b \<or> c = b2 \<or> c \<in> set (take m s2)" using assms(3) n s by auto
  ultimately show ?thesis using assms(2) lo by (auto simp: byte_in_def list_all_iff)
qed

lemma hex_value_hextable: "d < 16 \<Longrightarrow> hex_value (hextable ! d) = Some d"
proof -
  have "list_all (\<lambda>d. hex_value (hextable ! d) = Some d) [0..<16]" by code_simp
  then show "d < 16 \<Longrightarrow> hex_value (hextable ! d) = Some d" by (simp add: list_all_iff)
qed

lemma getu4_u00: "(of_char c :: nat) < 128 \<Longrightarrow> getu4 (u00 c @ t) = Some (of_char c)"
  by (simp add: getu4_def u00_def hex_value_hextable) (simp add: hex_value_def)

text \<open>The recursive functions on the next byte.\<close>

lemma escape_Cons:
  "escape [] = []"
  "byte_in b 0x00 0x7F \<Longrightarrow> escape (b # s) = escape_ascii b @ escape s"
  "\<not> byte_in b 0x00 0x7F \<Longrightarrow> rune_size (b # s) = 0 \<Longrightarrow> escape (b # s) = CHR 0x5C # ''ufffd'' @ escape s"
  "\<not> byte_in b 0x00 0x7F \<Longrightarrow> rune_size (b # s) = Suc m \<Longrightarrow> escape (b # s) =
     (if b # take m s = [CHR 0xE2, CHR 0x80, CHR 0xA8] then CHR 0x5C # ''u2028''
      else if b # take m s = [CHR 0xE2, CHR 0x80, CHR 0xA9] then CHR 0x5C # ''u2029'' else b # take m s) @ escape (drop m s)"
  by (subst escape.simps, simp)+

lemma coerce_Cons:
  "coerce [] = []"
  "rune_size (b # s) = 0 \<Longrightarrow> coerce (b # s) = replacement @ coerce s"
  "rune_size (b # s) = Suc m \<Longrightarrow> coerce (b # s) = (b # take m s) @ coerce (drop m s)"
  by (subst coerce.simps, simp)+

lemma unquote_Nil: "unquote [] = Some []"
  by (subst unquote.simps) simp

lemma unquote_simple:
  "simple_escape c = Some d \<Longrightarrow> unquote (CHR 0x5C # c # t) = map_option (\<lambda>t. d # t) (unquote t)"
  by (subst unquote.simps) (auto simp: simple_escape_def)

lemma unquote_u:
  assumes "getu4 (CHR 0x5C # CHR ''u'' # p @ t) = Some r" "\<not> surrogate r" "length p = 4"
  shows "unquote (CHR 0x5C # CHR ''u'' # p @ t) = map_option (\<lambda>t. encode_rune r @ t) (unquote t)"
  using assms by (subst unquote.simps) simp

lemma unquote_plain:
  assumes "b \<noteq> CHR 0x5C" "b \<noteq> CHR 0x22" "\<not> (of_char b :: nat) < 0x20" "rune_size (b # s) = Suc m"
  shows "unquote (b # take m s @ t) = map_option (\<lambda>u. b # take m s @ u) (unquote t)"
proof -
  have "m \<le> length s" using rune_size_le [of "b # s"] assms(4) by simp
  then show ?thesis using assms(1-3) rune_size_prefix [OF assms(4), of t]
    by (subst unquote.simps) (cases "unquote t"; simp)
qed

lemma unquote_escape_ascii:
  assumes "byte_in b 0x00 0x7F"
  shows "unquote (escape_ascii b @ t) = map_option (\<lambda>t. b # t) (unquote t)"
proof -
  have n: "(of_char b :: nat) < 128" using assms by (simp add: byte_in_ascii)
  have u: "unquote (u00 b @ t) = map_option (\<lambda>t. b # t) (unquote t)"
    using unquote_u [of "[CHR ''0'', CHR ''0'', hextable ! ((of_char b :: nat) div 16), hextable ! ((of_char b :: nat) mod 16)]" t "of_char b"]
      getu4_u00 [OF n, of t] n
    by (simp add: surrogate_def u00_def encode_rune_def)
  have plain: "unquote (b # t) = map_option (\<lambda>t. b # t) (unquote t)"
    if "b \<noteq> CHR 0x5C" "b \<noteq> CHR 0x22" "\<not> (of_char b :: nat) < 0x20"
    using unquote_plain [OF that, of "[]" 0 t] rune_size_ascii [OF assms, of "[]"] by simp
  show ?thesis
    unfolding escape_ascii_def using u plain by (simp add: unquote_simple simple_escape_def)
qed

text \<open>Induction along the runes of a string.\<close>

lemma rune_induct [case_names Nil ascii invalid rune]:
  assumes "P []"
    and "\<And>b s. byte_in b 0x00 0x7F \<Longrightarrow> P s \<Longrightarrow> P (b # s)"
    and "\<And>b s. \<not> byte_in b 0x00 0x7F \<Longrightarrow> rune_size (b # s) = 0 \<Longrightarrow> P s \<Longrightarrow> P (b # s)"
    and "\<And>b s m. \<not> byte_in b 0x00 0x7F \<Longrightarrow> rune_size (b # s) = Suc m \<Longrightarrow> P (drop m s) \<Longrightarrow> P (b # s)"
  shows "P s"
proof (induction "length s" arbitrary: s rule: less_induct)
  case less
  show ?case
  proof (cases s)
    case (Cons b s')
    then show ?thesis
      using less assms(2-4) by (cases "byte_in b 0 127"; cases "rune_size (b # s')") simp_all
  qed (simp add: assms(1))
qed

lemma unquote_escape: "unquote (escape s) = Some (coerce s)"
proof (induction s rule: rune_induct)
  case (ascii b s)
  then show ?case using rune_size_ascii [of b s] by (simp add: escape_Cons coerce_Cons unquote_escape_ascii)
next
  case (invalid b s)
  have "getu4 (CHR 0x5C # CHR ''u'' # ''fffd'' @ escape s) = Some 0xFFFD" by (simp add: getu4_def hex_value_def)
  from unquote_u [OF this] invalid show ?case
    by (simp add: escape_Cons coerce_Cons surrogate_def replacement_def)
next
  case (rune b s m)
  have sep: "unquote (CHR 0x5C # CHR ''u'' # CHR ''2'' # CHR ''0'' # CHR ''2'' # CHR ''8'' # t) =
      map_option (\<lambda>t. [CHR 0xE2, CHR 0x80, CHR 0xA8] @ t) (unquote t)"
    "unquote (CHR 0x5C # CHR ''u'' # CHR ''2'' # CHR ''0'' # CHR ''2'' # CHR ''9'' # t) =
      map_option (\<lambda>t. [CHR 0xE2, CHR 0x80, CHR 0xA9] @ t) (unquote t)" for t
    using unquote_u [of "''2028''" t "0x2028"] unquote_u [of "''2029''" t "0x2029"]
    by (simp_all add: getu4_def hex_value_def surrogate_def encode_rune_def char_of_def bit_numeral_rec bit_0)
  have "128 \<le> (of_char b :: nat)" using rune(1) by (simp add: byte_in_ascii)
  then have "b \<noteq> CHR 0x5C" "b \<noteq> CHR 0x22" "\<not> (of_char b :: nat) < 0x20" by auto
  from unquote_plain [OF this rune(2), of "escape (drop m s)"] rune(3) show ?case
    by (auto simp: escape_Cons(4) [OF rune(1,2)] coerce_Cons(3) [OF rune(2)] sep)
qed (simp add: escape_Cons coerce_Cons unquote_Nil)

section \<open>Documents read back\<close>

text \<open>Inside a string literal the scanner passes over what \<open>escape\<close> writes.\<close>

lemma scan_plain:
  assumes "\<forall>c\<in>set p. c \<noteq> CHR 0x22 \<and> c \<noteq> CHR 0x5C \<and> \<not> (of_char c :: nat) < 0x20"
  shows "scan num io (InString raw) fs (p @ t) = scan num io (InString (raw @ p)) fs t"
  using assms by (induction p arbitrary: raw) simp_all

lemma scan_u:
  assumes "hex_value h1 \<noteq> None" "hex_value h2 \<noteq> None" "hex_value h3 \<noteq> None" "hex_value h4 \<noteq> None"
  shows "scan num io (InString raw) fs (CHR 0x5C # CHR ''u'' # h1 # h2 # h3 # h4 # t) =
    scan num io (InString (raw @ [CHR 0x5C, CHR ''u'', h1, h2, h3, h4])) fs t"
  using assms by simp

lemma scan_escape_ascii:
  assumes "byte_in b 0x00 0x7F"
  shows "scan num io (InString raw) fs (escape_ascii b @ t) = scan num io (InString (raw @ escape_ascii b)) fs t"
proof -
  have n: "(of_char b :: nat) div 16 < 16" "(of_char b :: nat) mod 16 < 16"
    using assms by (simp_all add: byte_in_ascii less_mult_imp_div_less)
  have "scan num io (InString raw) fs (u00 b @ t) = scan num io (InString (raw @ u00 b)) fs t"
    using scan_u [of "CHR ''0''" "CHR ''0''" "hextable ! ((of_char b :: nat) div 16)" "hextable ! ((of_char b :: nat) mod 16)"]
    by (simp add: u00_def hex_value_hextable n) (simp add: hex_value_def)
  moreover have "scan num io (InString raw) fs ([b] @ t) = scan num io (InString (raw @ [b])) fs t"
    if "b \<noteq> CHR 0x22" "b \<noteq> CHR 0x5C" "\<not> (of_char b :: nat) < 0x20"
    using that by (intro scan_plain) simp
  ultimately show ?thesis unfolding escape_ascii_def by simp
qed

lemma scan_escape: "scan num io (InString raw) fs (escape s @ t) = scan num io (InString (raw @ escape s)) fs t"
proof (induction s arbitrary: raw rule: rune_induct)
  case (ascii b s)
  then show ?case by (simp add: escape_Cons scan_escape_ascii)
next
  case (invalid b s)
  have "scan num io (InString raw) fs (CHR 0x5C # ''ufffd'' @ escape s @ t) =
      scan num io (InString (raw @ CHR 0x5C # ''ufffd'')) fs (escape s @ t)"
    using scan_u [of "CHR ''f''" "CHR ''f''" "CHR ''f''" "CHR ''d''"] by (simp add: hex_value_def)
  with invalid show ?case by (simp add: escape_Cons)
next
  case (rune b s m)
  have "128 \<le> (of_char c :: nat)" if "c \<in> set (b # take m s)" for c
    using rune_bytes [OF rune(2,1), of c] that by simp
  then have "c \<noteq> CHR 0x22 \<and> c \<noteq> CHR 0x5C \<and> \<not> (of_char c :: nat) < 0x20" if "c \<in> set (b # take m s)" for c
    using that by fastforce
  then have "scan num io (InString raw) fs ((b # take m s) @ u) = scan num io (InString (raw @ b # take m s)) fs u" for u
    by (intro scan_plain) simp
  moreover have "scan num io (InString raw) fs (CHR 0x5C # ''u202'' @ [h] @ u) = scan num io (InString (raw @ CHR 0x5C # ''u202'' @ [h])) fs u"
    if "hex_value h \<noteq> None" for h u
    using scan_u [of "CHR ''2''" "CHR ''0''" "CHR ''2''" h] that by (simp add: hex_value_def)
  from this [of "CHR ''8''"] this [of "CHR ''9''"]
  have "scan num io (InString raw) fs (CHR 0x5C # ''u2028'' @ u) = scan num io (InString (raw @ CHR 0x5C # ''u2028'')) fs u"
    "scan num io (InString raw) fs (CHR 0x5C # ''u2029'' @ u) = scan num io (InString (raw @ CHR 0x5C # ''u2029'')) fs u" for u
    by (simp_all add: hex_value_def)
  ultimately show ?case using rune(3) by (simp add: escape_Cons(4) [OF rune(1,2)])
qed (simp add: escape_Cons)

lemma scan_quoted: "scan num io (InString []) fs (escape s @ CHR 0x22 # t) = scan num io (EndValue (JStr (coerce s))) fs t"
  using scan_escape [of num io "[]" fs s "CHR 0x22 # t"] by (simp add: unquote_escape)

text \<open>Number literals, by the transitions of the scanner.\<close>

fun num_run :: "num_mode \<Rightarrow> string \<Rightarrow> num_mode option" where
  "num_run m [] = Some m"
| "num_run m (c # s) = Option.bind (num_step m c) (\<lambda>m'. num_run m' s)"

definition number_text :: "string \<Rightarrow> bool" where
  "number_text lit \<longleftrightarrow>
     (case lit of
        [] \<Rightarrow> False
      | c # s \<Rightarrow> (case Option.bind (num_start c) (\<lambda>m. num_run m s) of None \<Rightarrow> False | Some m \<Rightarrow> num_complete m))"

text \<open>
  What is relied on from \<open>strconv\<close>: the shortest decimal form of a finite number is a JSON number literal and reads
  back as that number.
\<close>

definition float_texts :: "(float64 \<Rightarrow> string) \<Rightarrow> (string \<Rightarrow> float64) \<Rightarrow> bool" where
  "float_texts fmt num \<longleftrightarrow> (\<forall>x. is_float64 x \<longrightarrow> number_text (fmt x) \<and> num (fmt x) = x)"

text \<open>Documents that can be written, how deep they are, and what they become.\<close>

fun json_floats :: "json \<Rightarrow> bool" where
  "json_floats (JNum x) = is_float64 x"
| "json_floats (JArr js) = list_all json_floats js"
| "json_floats (JObj kvs) = list_all (\<lambda>kv. json_floats (snd kv)) kvs"
| "json_floats j = True"

text \<open>The same for one document: its numbers are written as literals that read back.\<close>

fun json_nums :: "(float64 \<Rightarrow> string) \<Rightarrow> (string \<Rightarrow> float64) \<Rightarrow> json \<Rightarrow> bool" where
  "json_nums fmt num (JNum x) \<longleftrightarrow> number_text (fmt x) \<and> num (fmt x) = x"
| "json_nums fmt num (JArr js) \<longleftrightarrow> list_all (json_nums fmt num) js"
| "json_nums fmt num (JObj kvs) \<longleftrightarrow> list_all (\<lambda>kv. json_nums fmt num (snd kv)) kvs"
| "json_nums fmt num j \<longleftrightarrow> True"

lemma float_texts_nums: "float_texts fmt num \<Longrightarrow> json_floats j \<Longrightarrow> json_nums fmt num j"
  by (induction j) (fastforce simp: float_texts_def list_all_iff)+

fun coerce_json :: "json \<Rightarrow> json" where
  "coerce_json (JStr s) = JStr (coerce s)"
| "coerce_json (JArr js) = JArr (map coerce_json js)"
| "coerce_json (JObj kvs) = JObj (map (\<lambda>kv. (coerce (fst kv), coerce_json (snd kv))) kvs)"
| "coerce_json j = j"

fun json_utf8 :: "json \<Rightarrow> bool" where
  "json_utf8 (JStr s) = valid_utf8 s"
| "json_utf8 (JArr js) = list_all json_utf8 js"
| "json_utf8 (JObj kvs) = list_all (\<lambda>kv. valid_utf8 (fst kv) \<and> json_utf8 (snd kv)) kvs"
| "json_utf8 j = True"

lemma coerce_json_id: "json_utf8 j \<Longrightarrow> coerce_json j = j"
proof (induction j)
  case (JArr js)
  then show ?case by (auto simp: list_all_iff map_idI)
next
  case (JObj kvs)
  have "(coerce (fst kv), coerce_json (snd kv)) = kv" if "kv \<in> set kvs" for kv
    using JObj.IH [OF that, of "snd kv"] JObj.prems that by (cases kv) (auto simp: list_all_iff valid_utf8_def)
  then show ?case by (simp add: map_idI)
qed (simp_all add: valid_utf8_def)

fun json_depth :: "json \<Rightarrow> nat" where
  "json_depth (JArr js) = Suc (fold max (map json_depth js) 0)"
| "json_depth (JObj kvs) = Suc (fold max (map (\<lambda>kv. json_depth (snd kv)) kvs) 0)"
| "json_depth j = 0"

lemma fold_max_ge: "x \<in> set xs \<Longrightarrow> x \<le> fold max xs (a :: nat)" "a \<le> fold max xs a"
proof -
  have *: "a \<le> fold max ys a" for a :: nat and ys by (induction ys arbitrary: a) (auto intro: order_trans [OF max.cobounded2])
  show "a \<le> fold max xs a" by (rule *)
  show "x \<in> set xs \<Longrightarrow> x \<le> fold max xs a"
    by (induction xs arbitrary: a) (auto intro: order_trans [OF max.cobounded1 *])
qed

text \<open>The bytes that follow a value inside a container.\<close>

definition delimiter :: "char \<Rightarrow> bool" where
  "delimiter c \<longleftrightarrow> c \<in> {CHR 0x2C, CHR 0x5D, CHR 0x7D}"

lemma delimiter_ends_number: "delimiter c \<Longrightarrow> num_complete m \<Longrightarrow> num_step m c = None"
  by (cases m) (auto simp: delimiter_def num_complete_def isDigit_def byte_in_def exponent_char_def)

lemma scan_number_run:
  assumes "num_run m s = Some m'" "num_complete m'" "delimiter c"
  shows "scan num io (InNumber m raw) fs (s @ c # t) = scan num io (EndValue (JNum (num (raw @ s)))) fs (c # t)"
  using assms
proof (induction s arbitrary: m raw)
  case Nil
  then show ?case by (simp add: delimiter_ends_number)
next
  case (Cons d s)
  then obtain m1 where "num_step m d = Some m1" "num_run m1 s = Some m'" by (auto simp: bind_eq_Some_conv)
  with Cons show ?case by simp
qed

lemma num_start_begins:
  assumes "num_start c = Some m"
  shows "stateBeginValue c fs = Continue (InNumber m [c]) fs"
proof -
  have "c = CHR 0x2D \<or> isDigit c" using assms by (auto simp: num_start_def isDigit_def byte_in_def split: if_splits)
  then have "\<not> isSpace c" "c \<noteq> CHR 0x7B" "c \<noteq> CHR 0x5B" "c \<noteq> CHR 0x22" "c \<noteq> CHR ''t''" "c \<noteq> CHR ''f''" "c \<noteq> CHR ''n''"
    by (auto simp: isSpace_def isDigit_def byte_in_def)
  with assms show ?thesis by (simp add: stateBeginValue_def)
qed

lemma scan_number:
  assumes "number_text lit" "delimiter c"
  shows "scan num io BeginValue fs (lit @ c # t) = scan num io (EndValue (JNum (num lit))) fs (c # t)"
proof -
  obtain d s m m' where "lit = d # s" "num_start d = Some m" "num_run m s = Some m'" "num_complete m'"
    using assms(1) by (auto simp: number_text_def split: list.splits option.splits simp: bind_eq_Some_conv)
  then show ?thesis using scan_number_run [of m s m' c num io "[d]" fs t] assms(2) by (simp add: num_start_begins)
qed

text \<open>A value, its elements and its members.\<close>

lemma push_ok: "Suc (length fs) \<le> maxNestingDepth \<Longrightarrow> push c m f fs = Continue m (f # fs)"
  by (simp add: push_def)

lemma begin_value:
  "stateBeginValue (CHR 0x7B) fs = push (CHR 0x7B) BeginStringOrEmpty (ObjectKey []) fs"
  "stateBeginValue (CHR 0x5B) fs = push (CHR 0x5B) BeginValueOrEmpty (ArrayValue []) fs"
  "stateBeginValue (CHR 0x22) fs = Continue (InString []) fs"
  by (simp_all add: stateBeginValue_def isSpace_def)

lemma end_value:
  "stateEndValue j (CHR 0x2C) (ArrayValue js # fs) = Continue BeginValue (ArrayValue (js @ [j]) # fs)"
  "stateEndValue j (CHR 0x5D) (ArrayValue js # fs) = close_container (JArr (js @ [j])) fs"
  "stateEndValue (JStr k) (CHR 0x3A) (ObjectKey kvs # fs) = Continue BeginValue (ObjectValue kvs k # fs)"
  "stateEndValue j (CHR 0x2C) (ObjectValue kvs k # fs) = Continue BeginString (ObjectKey (kvs @ [(k, j)]) # fs)"
  "stateEndValue j (CHR 0x7D) (ObjectValue kvs k # fs) = close_container (JObj (kvs @ [(k, j)])) fs"
  by (simp_all add: stateEndValue_def isSpace_def)

definition closed_then :: "(string \<Rightarrow> float64) \<Rightarrow> string option \<Rightarrow> json \<Rightarrow> frame list \<Rightarrow> string \<Rightarrow> string + json" where
  "closed_then num io j fs t = (if fs = [] then Inr j else scan num io (EndValue j) fs t)"

lemma close_container_then:
  "(case close_container j fs of ScanError e \<Rightarrow> Inl e | ScanEnd j \<Rightarrow> Inr j | Continue m' fs' \<Rightarrow> scan num io m' fs' t) =
     closed_then num io j fs t"
  by (simp add: close_container_def closed_then_def)

lemma commas_Cons: "xs \<noteq> [] \<Longrightarrow> commas (x # xs) = x @ CHR 0x2C # commas xs"
  by (cases xs) simp_all

lemma scan_elements:
  assumes "\<And>j c fs t. j \<in> set js \<Longrightarrow> delimiter c \<Longrightarrow> length fs = n \<Longrightarrow> fs \<noteq> [] \<Longrightarrow>
      scan num io BeginValue fs (prt j @ c # t) = scan num io (EndValue (rd j)) fs (c # t)"
    and "js \<noteq> []" "Suc (length fs) = n"
  shows "scan num io BeginValue (ArrayValue acc # fs) (commas (map prt js) @ CHR 0x5D # t) =
    closed_then num io (JArr (acc @ map rd js)) fs t"
  using assms(2,1)
proof (induction js arbitrary: acc)
  case (Cons j js)
  show ?case
  proof (cases "js = []")
    case True
    then show ?thesis using Cons.prems(2) [of j "CHR 0x5D" "ArrayValue acc # fs" t] assms(3)
      by (simp add: delimiter_def end_value close_container_then)
  next
    case False
    then show ?thesis using Cons.prems(2) [of j "CHR 0x2C" "ArrayValue acc # fs"] Cons.IH [of "acc @ [rd j]"] Cons.prems(2) assms(3)
      by (simp add: commas_Cons delimiter_def end_value)
  qed
qed simp

lemma scan_members:
  assumes "\<And>kv c fs t. kv \<in> set kvs \<Longrightarrow> delimiter c \<Longrightarrow> length fs = n \<Longrightarrow> fs \<noteq> [] \<Longrightarrow>
      scan num io BeginValue fs (prt (snd kv) @ c # t) = scan num io (EndValue (rd (snd kv))) fs (c # t)"
    and "kvs \<noteq> []" "Suc (length fs) = n"
  shows "scan num io BeginString (ObjectKey acc # fs)
      (commas (map (\<lambda>kv. quote_text (fst kv) @ [CHR 0x3A] @ prt (snd kv)) kvs) @ CHR 0x7D # t) =
    closed_then num io (JObj (acc @ map (\<lambda>kv. (coerce (fst kv), rd (snd kv))) kvs)) fs t"
  using assms(2,1)
proof (induction kvs arbitrary: acc)
  case (Cons kv kvs)
  have key: "scan num io BeginString (ObjectKey acc # fs) (quote_text (fst kv) @ CHR 0x3A # u) =
      scan num io BeginValue (ObjectValue acc (coerce (fst kv)) # fs) u" for u
    by (simp add: quote_text_def stateBeginString_def isSpace_def scan_quoted end_value)
  show ?case
  proof (cases "kvs = []")
    case True
    then show ?thesis
      using Cons.prems(2) [of kv "CHR 0x7D" "ObjectValue acc (coerce (fst kv)) # fs" t] assms(3) key
      by (simp add: delimiter_def end_value close_container_then)
  next
    case False
    then show ?thesis
      using Cons.prems(2) [of kv "CHR 0x2C" "ObjectValue acc (coerce (fst kv)) # fs"] Cons.prems(2) assms(3) key
        Cons.IH [of "acc @ [(coerce (fst kv), rd (snd kv))]"]
      by (simp add: commas_Cons delimiter_def end_value)
  qed
qed simp

lemma text_start:
  assumes "json_nums fmt num j"
  shows "\<exists>c s. marshal_text fmt j = c # s \<and> \<not> isSpace c \<and> c \<noteq> CHR 0x5D"
proof (cases j)
  case (JNum x)
  then have "number_text (fmt x)" using assms by simp
  then obtain c s where "fmt x = c # s" "num_start c \<noteq> None" by (auto simp: number_text_def bind_eq_Some_conv split: list.splits option.splits)
  then show ?thesis using JNum by (auto simp: num_start_def isDigit_def byte_in_def isSpace_def split: if_splits)
qed (auto simp: quote_text_def isSpace_def)

lemma scan_array:
  assumes "\<And>j c fs t. j \<in> set js \<Longrightarrow> delimiter c \<Longrightarrow> length fs = n \<Longrightarrow> fs \<noteq> [] \<Longrightarrow>
      scan num io BeginValue fs (marshal_text fmt j @ c # t) = scan num io (EndValue (coerce_json j)) fs (c # t)"
    and "json_nums fmt num (JArr js)" "Suc (length fs) = n" "n \<le> maxNestingDepth"
  shows "scan num io BeginValue fs (marshal_text fmt (JArr js) @ t) = closed_then num io (coerce_json (JArr js)) fs t"
proof (cases js)
  case Nil
  then show ?thesis using assms(3,4) by (simp add: begin_value push_ok isSpace_def close_container_then)
next
  case (Cons j js')
  let ?m = "marshal_text fmt"
  obtain c s where c: "?m j = c # s" "\<not> isSpace c" "c \<noteq> CHR 0x5D"
    using text_start [of fmt num j] assms(2) Cons by auto
  have "scan num io BeginValueOrEmpty fs' (?m j @ u) = scan num io BeginValue fs' (?m j @ u)" for fs' u
    using c by simp
  then have "scan num io BeginValueOrEmpty fs' (commas (map ?m js) @ u) = scan num io BeginValue fs' (commas (map ?m js) @ u)" for fs' u
    using Cons by (cases "js' = []") (simp_all add: commas_Cons)
  with scan_elements [OF assms(1) _ assms(3), where acc = "[]" and t = t and js = js] Cons show ?thesis
    using assms(3,4) by (simp add: begin_value push_ok)
qed

lemma scan_object:
  assumes "\<And>kv c fs t. kv \<in> set kvs \<Longrightarrow> delimiter c \<Longrightarrow> length fs = n \<Longrightarrow> fs \<noteq> [] \<Longrightarrow>
      scan num io BeginValue fs (marshal_text fmt (snd kv) @ c # t) = scan num io (EndValue (coerce_json (snd kv))) fs (c # t)"
    and "Suc (length fs) = n" "n \<le> maxNestingDepth"
  shows "scan num io BeginValue fs (marshal_text fmt (JObj kvs) @ t) = closed_then num io (coerce_json (JObj kvs)) fs t"
proof (cases kvs)
  case Nil
  then show ?thesis using assms(2,3) by (simp add: begin_value push_ok close_container_then)
next
  case (Cons kv kvs')
  let ?x = "commas (map (\<lambda>kv. quote_text (fst kv) @ [CHR 0x3A] @ marshal_text fmt (snd kv)) kvs)"
  have "\<exists>s. ?x = CHR 0x22 # s" using Cons by (cases "kvs' = []") (simp_all add: commas_Cons quote_text_def)
  then have "scan num io BeginStringOrEmpty fs' (?x @ u) = scan num io BeginString fs' (?x @ u)" for fs' u
    by (auto simp: stateBeginString_def isSpace_def)
  then show ?thesis
    using scan_members [where prt = "marshal_text fmt" and rd = coerce_json and acc = "[]" and t = t and kvs = kvs, OF assms(1) _ assms(2)] Cons assms(2,3)
    by (simp add: begin_value push_ok)
qed

lemma depth_member: "j \<in> set js \<Longrightarrow> json_depth j < json_depth (JArr js)"
  "kv \<in> set kvs \<Longrightarrow> json_depth (snd kv) < json_depth (JObj kvs)"
  using fold_max_ge(1) [of "json_depth j" "map json_depth js" 0] fold_max_ge(1) [of "json_depth (snd kv)" "map (\<lambda>kv. json_depth (snd kv)) kvs" 0]
  by (auto simp: le_imp_less_Suc)

lemma scan_json:
  "json_nums fmt num j \<Longrightarrow> json_depth j + length fs \<le> maxNestingDepth \<Longrightarrow> delimiter c \<Longrightarrow> fs \<noteq> [] \<Longrightarrow>
    scan num io BeginValue fs (marshal_text fmt j @ c # t) = scan num io (EndValue (coerce_json j)) fs (c # t)"
proof (induction j arbitrary: fs c t)
  case (JNum x)
  then show ?case using scan_number [of "fmt x" c num io fs t] by simp
next
  case (JStr s)
  then show ?case by (simp add: quote_text_def begin_value scan_quoted)
next
  case (JArr js)
  have "scan num io BeginValue fs' (marshal_text fmt j @ d # u) = scan num io (EndValue (coerce_json j)) fs' (d # u)"
    if "j \<in> set js" "delimiter d" "length fs' = Suc (length fs)" "fs' \<noteq> []" for j d fs' u
    using JArr.IH [OF that(1), of fs' d u] JArr.prems depth_member(1) [OF that(1)] that by (auto simp: list_all_iff)
  from scan_array [OF this JArr.prems(1) refl, where t = "c # t"] JArr.prems show ?case
    by (simp add: closed_then_def)
next
  case (JObj kvs)
  have "scan num io BeginValue fs' (marshal_text fmt (snd kv) @ d # u) = scan num io (EndValue (coerce_json (snd kv))) fs' (d # u)"
    if "kv \<in> set kvs" "delimiter d" "length fs' = Suc (length fs)" "fs' \<noteq> []" for kv d fs' u
    using JObj.IH [OF that(1), of "snd kv" fs' d u] JObj.prems depth_member(2) [OF that(1)] that by (cases kv) (auto simp: list_all_iff)
  from scan_object [OF this refl, where t = "c # t"] JObj.prems show ?case
    by (simp add: closed_then_def)
qed (simp_all add: stateBeginValue_def isSpace_def)

text \<open>An object is read whatever follows it.\<close>

lemma read_object:
  assumes "json_nums fmt num (JObj kvs)" "json_depth (JObj kvs) \<le> maxNestingDepth"
  shows "read_value num (marshal_text fmt (JObj kvs) @ trailing) ioerr = Inr (coerce_json (JObj kvs))"
proof -
  have "scan num ioerr BeginValue fs (marshal_text fmt (snd kv) @ c # t) = scan num ioerr (EndValue (coerce_json (snd kv))) fs (c # t)"
    if "kv \<in> set kvs" "delimiter c" "length fs = Suc 0" "fs \<noteq> []" for kv c fs t
    using scan_json [OF _ _ that(2,4), of fmt num "snd kv"] assms depth_member(2) [OF that(1)] that
    by (auto simp: list_all_iff)
  from scan_object [OF this, where fs = "[]" and t = trailing] show ?thesis
    by (simp add: read_value_def closed_then_def maxNestingDepth_def)
qed

section \<open>What is read is UTF-8\<close>

lemma valid_utf8_Nil: "valid_utf8 []"
  by (simp add: valid_utf8_def coerce_Cons)

lemma valid_utf8_rune:
  assumes "rune_size (b # v @ t) = Suc (length v)" "valid_utf8 t"
  shows "valid_utf8 (b # v @ t)"
  using assms by (simp add: valid_utf8_def coerce_Cons(3) [of b "v @ t"])

text \<open>Code points outside the surrogate range have well-formed encodings.\<close>

lemma byte_in_char_of: "n < 256 \<Longrightarrow> byte_in (char_of n) lo hi \<longleftrightarrow> lo \<le> n \<and> n \<le> hi"
  by (simp add: byte_in_def)

lemma lead_byte_char_of:
  "0xC2 \<le> n \<Longrightarrow> n \<le> 0xDF \<Longrightarrow> lead_byte (char_of (n :: nat)) = Some (2, 0x80, 0xBF)"
  "0xE0 \<le> n \<Longrightarrow> n \<le> 0xEF \<Longrightarrow>
     lead_byte (char_of n) = Some (3, if n = 0xE0 then 0xA0 else 0x80, if n = 0xED then 0x9F else 0xBF)"
  "0xF0 \<le> n \<Longrightarrow> n \<le> 0xF4 \<Longrightarrow>
     lead_byte (char_of n) = Some (4, if n = 0xF0 then 0x90 else 0x80, if n = 0xF4 then 0x8F else 0xBF)"
  by (simp_all add: lead_byte_def byte_in_char_of)

lemma rune_size_bytes:
  "0xC2 \<le> n \<Longrightarrow> n \<le> 0xDF \<Longrightarrow> 0x80 \<le> m \<Longrightarrow> m \<le> 0xBF \<Longrightarrow> rune_size (char_of (n :: nat) # char_of (m :: nat) # t) = 2"
  "0xE0 \<le> n \<Longrightarrow> n \<le> 0xEF \<Longrightarrow> 0x80 \<le> m \<Longrightarrow> m \<le> 0xBF \<Longrightarrow> (n = 0xE0 \<longrightarrow> 0xA0 \<le> m) \<Longrightarrow> (n = 0xED \<longrightarrow> m \<le> 0x9F) \<Longrightarrow>
     0x80 \<le> k \<Longrightarrow> k \<le> 0xBF \<Longrightarrow> rune_size (char_of (n :: nat) # char_of (m :: nat) # char_of (k :: nat) # t) = 3"
  "0xF0 \<le> n \<Longrightarrow> n \<le> 0xF4 \<Longrightarrow> 0x80 \<le> m \<Longrightarrow> m \<le> 0xBF \<Longrightarrow> (n = 0xF0 \<longrightarrow> 0x90 \<le> m) \<Longrightarrow> (n = 0xF4 \<longrightarrow> m \<le> 0x8F) \<Longrightarrow>
     0x80 \<le> k \<Longrightarrow> k \<le> 0xBF \<Longrightarrow> 0x80 \<le> l \<Longrightarrow> l \<le> 0xBF \<Longrightarrow> rune_size (char_of (n :: nat) # char_of (m :: nat) # char_of (k :: nat) # char_of (l :: nat) # t) = 4"
  by (simp_all add: rune_size_Cons lead_byte_char_of byte_in_char_of)

lemma valid_encode_rune:
  assumes "\<not> surrogate r" "r < 0x110000" "valid_utf8 t"
  shows "valid_utf8 (encode_rune r @ t)"
proof -
  consider "r < 0x80" | "0x80 \<le> r" "r < 0x800" | "0x800 \<le> r" "r < 0x10000" | "0x10000 \<le> r" by linarith
  then show ?thesis
  proof cases
    case 1
    then show ?thesis using valid_utf8_rune [of "char_of r" "[]" t] assms
      by (simp add: encode_rune_def rune_size_ascii byte_in_def)
  next
    case 2
    then have "r div 64 < 32" "2 \<le> r div 64" by simp_all
    with 2 show ?thesis using valid_utf8_rune [of "char_of (0xC0 + r div 64)" "[char_of (0x80 + r mod 64)]" t] assms
      by (simp add: encode_rune_def rune_size_bytes)
  next
    case 3
    have q: "r div 4096 = r div 64 div 64" by (simp add: div_mult2_eq [symmetric])
    have "32 \<le> r div 64" "r div 64 < 1024" "r div 64 < 864 \<or> 896 \<le> r div 64"
      using 3 assms(1) by (auto simp: surrogate_def)
    then have "r div 4096 < 16" "r div 4096 = 0 \<longrightarrow> 32 \<le> r div 64 mod 64" "r div 4096 = 13 \<longrightarrow> r div 64 mod 64 < 32"
      using div_mult_mod_eq [of "r div 64" 64] unfolding q by linarith+
    moreover have "r div 64 mod 64 < 64" "r mod 64 < 64" by simp_all
    ultimately have "rune_size (char_of (0xE0 + r div 4096) # char_of (0x80 + r div 64 mod 64) # char_of (0x80 + r mod 64) # t) = 3"
      by (intro rune_size_bytes impI) linarith+
    then show ?thesis
      using valid_utf8_rune [of "char_of (0xE0 + r div 4096)" "[char_of (0x80 + r div 64 mod 64), char_of (0x80 + r mod 64)]" t] assms 3
      by (simp add: encode_rune_def)
  next
    case 4
    have q: "r div 262144 = r div 4096 div 64" by (simp add: div_mult2_eq [symmetric])
    have "16 \<le> r div 4096" "r div 4096 < 272" using 4 assms(2) by auto
    then have "r div 262144 \<le> 4" "r div 262144 = 0 \<longrightarrow> 16 \<le> r div 4096 mod 64" "r div 262144 = 4 \<longrightarrow> r div 4096 mod 64 < 16"
      using div_mult_mod_eq [of "r div 4096" 64] unfolding q by linarith+
    moreover have "r div 4096 mod 64 < 64" "r div 64 mod 64 < 64" "r mod 64 < 64" by simp_all
    ultimately have "rune_size (char_of (0xF0 + r div 262144) # char_of (0x80 + r div 4096 mod 64) #
        char_of (0x80 + r div 64 mod 64) # char_of (0x80 + r mod 64) # t) = 4"
      by (intro rune_size_bytes impI) linarith+
    then show ?thesis
      using valid_utf8_rune [of "char_of (0xF0 + r div 262144)"
          "[char_of (0x80 + r div 4096 mod 64), char_of (0x80 + r div 64 mod 64), char_of (0x80 + r mod 64)]" t] assms 4
      by (simp add: encode_rune_def)
  qed
qed

lemma hex_digits_bound:
  "those (map hex_value xs) = Some ds \<Longrightarrow> foldl (\<lambda>r d. 16 * r + d) a ds < Suc a * 16 ^ length xs"
proof (induction xs arbitrary: a ds)
  case (Cons x xs)
  then obtain d ds' where d: "hex_value x = Some d" "those (map hex_value xs) = Some ds'" "ds = d # ds'"
    by (auto split: option.splits)
  have "d < 16" using d(1) by (auto simp: hex_value_def Let_def split: if_splits)
  then have "Suc (16 * a + d) * 16 ^ length xs \<le> Suc a * 16 * 16 ^ length xs" by (intro mult_le_mono1) simp
  with Cons.IH [OF d(2), of "16 * a + d"] have "foldl (\<lambda>r d. 16 * r + d) a ds < Suc a * 16 * 16 ^ length xs"
    using d(3) by (simp only: foldl.simps)
  then show ?case by (simp only: length_Cons power_Suc mult.assoc)
qed simp

lemma getu4_bound: "getu4 s = Some r \<Longrightarrow> r < 0x10000"
  using hex_digits_bound [of "take 4 (drop 2 s)" _ 0] by (fastforce simp: getu4_def split: if_splits)

lemma valid_replacement: "valid_utf8 t \<Longrightarrow> valid_utf8 (replacement @ t)"
  unfolding replacement_def by (rule valid_encode_rune) (simp_all add: surrogate_def)

lemma decode_pair_bound: "decode_pair r1 r2 = Some p \<Longrightarrow> \<not> surrogate p \<and> p < 0x110000"
  by (auto simp: decode_pair_def surrogate_def split: if_splits)

lemma valid_ascii: "byte_in d 0x00 0x7F \<Longrightarrow> valid_utf8 t \<Longrightarrow> valid_utf8 (d # t)"
  using valid_utf8_rune [of d "[]" t] by (simp add: rune_size_ascii)

lemma simple_escape_ascii: "simple_escape c = Some d \<Longrightarrow> byte_in d 0x00 0x7F"
  by (auto simp: simple_escape_def byte_in_def split: if_splits)

lemma unquote_u_valid:
  assumes "unquote (CHR 0x5C # CHR ''u'' # s) = Some u"
    and "\<And>n t. unquote (drop n s) = Some t \<Longrightarrow> valid_utf8 t"
  shows "valid_utf8 u"
proof -
  let ?s = "CHR 0x5C # CHR ''u'' # s"
  have "drop 6 ?s = drop 4 s" "drop 12 ?s = drop 10 s" by simp_all
  note unquoted = assms(1) [unfolded unquote.simps [of ?s], unfolded this, simplified]
  obtain r where r: "getu4 ?s = Some r" using unquoted by (auto split: option.splits)
  show ?thesis
  proof (cases "if surrogate r then Option.bind (getu4 (drop 4 s)) (decode_pair r) else None")
    case None
    then obtain t where "unquote (drop 4 s) = Some t" "u = (if surrogate r then replacement else encode_rune r) @ t"
      using unquoted r by auto
    then show ?thesis using assms(2) getu4_bound [OF r] by (auto simp: valid_replacement intro: valid_encode_rune)
  next
    case (Some p)
    then obtain r' where "decode_pair r r' = Some p" by (auto simp: bind_eq_Some_conv split: if_splits)
    moreover obtain t where "unquote (drop 10 s) = Some t" "u = encode_rune p @ t" using unquoted r Some by auto
    ultimately show ?thesis using assms(2) by (auto intro: valid_encode_rune dest: decode_pair_bound)
  qed
qed

lemma unquote_valid: "unquote s = Some u \<Longrightarrow> valid_utf8 u"
proof (induction "length s" arbitrary: s u rule: less_induct)
  case less
  note unquoted = less.prems [unfolded unquote.simps [of s]]
  show ?case
  proof (cases s)
    case (Cons b s')
    show ?thesis
    proof (cases "b = CHR 0x5C")
      case True
      then obtain c s'' where s': "s' = c # s''" using unquoted Cons by (cases s') auto
      show ?thesis
      proof (cases "c = CHR ''u''")
        case u: True
        have "valid_utf8 t" if "unquote (drop n s'') = Some t" for n t using less.hyps [OF _ that] Cons s' by simp
        then show ?thesis using less.prems Cons True s' u by (intro unquote_u_valid [of s'' u]) simp_all
      next
        case False
        then obtain d t where "simple_escape c = Some d" "unquote s'' = Some t" "u = d # t"
          using unquoted Cons True s' by (auto split: option.splits)
        then show ?thesis using less.hyps [of s''] Cons s' by (auto intro: valid_ascii simple_escape_ascii)
      qed
    next
      case False
      then have *: "u \<in> (if rune_size s = 0 then (\<lambda>t. replacement @ t) ` {t. unquote s' = Some t}
          else (\<lambda>t. take (rune_size s) s @ t) ` {t. unquote (drop (rune_size s) s) = Some t})"
        using unquoted Cons by (auto split: if_splits)
      show ?thesis
      proof (cases "rune_size s")
        case 0
        then show ?thesis using * less.hyps [of s'] Cons by (auto simp: valid_replacement)
      next
        case (Suc m)
        then obtain t where t: "unquote (drop m s') = Some t" "u = b # take m s' @ t" using * Cons by auto
        have "m \<le> length s'" using rune_size_le [of s] Suc Cons by simp
        then show ?thesis
          using t less.hyps [of "drop m s'"] valid_utf8_rune [of b "take m s'" t] rune_size_prefix [of b s' m t] Suc Cons by simp
      qed
    qed
  qed (use unquoted in \<open>simp add: valid_utf8_Nil\<close>)
qed

text \<open>The invariant of the scanner.\<close>

abbreviation members_utf8 :: "(string \<times> json) list \<Rightarrow> bool" where
  "members_utf8 kvs \<equiv> list_all (\<lambda>kv. valid_utf8 (fst kv) \<and> json_utf8 (snd kv)) kvs"

fun frame_utf8 :: "frame \<Rightarrow> bool" where
  "frame_utf8 (ObjectKey kvs) \<longleftrightarrow> members_utf8 kvs"
| "frame_utf8 (ObjectValue kvs k) \<longleftrightarrow> members_utf8 kvs \<and> valid_utf8 k"
| "frame_utf8 (ArrayValue js) \<longleftrightarrow> list_all json_utf8 js"

fun mode_utf8 :: "mode \<Rightarrow> bool" where
  "mode_utf8 (EndValue j) \<longleftrightarrow> json_utf8 j"
| "mode_utf8 (InLiteral w r j) \<longleftrightarrow> json_utf8 j"
| "mode_utf8 m \<longleftrightarrow> True"

fun result_utf8 :: "scan_result \<Rightarrow> bool" where
  "result_utf8 (ScanEnd j) \<longleftrightarrow> json_utf8 j"
| "result_utf8 (Continue m fs) \<longleftrightarrow> mode_utf8 m \<and> list_all frame_utf8 fs"
| "result_utf8 (ScanError e) \<longleftrightarrow> True"

lemma error_utf8 [simp]: "result_utf8 (scan_error c msg)"
  by (simp add: scan_error_def)

lemma push_utf8: "mode_utf8 m \<Longrightarrow> frame_utf8 f \<Longrightarrow> list_all frame_utf8 fs \<Longrightarrow> result_utf8 (push c m f fs)"
  by (simp add: push_def)

lemma close_utf8: "json_utf8 j \<Longrightarrow> list_all frame_utf8 fs \<Longrightarrow> result_utf8 (close_container j fs)"
  by (simp add: close_container_def)

lemma end_value_utf8: "json_utf8 j \<Longrightarrow> list_all frame_utf8 fs \<Longrightarrow> result_utf8 (stateEndValue j c fs)"
  by (auto simp: stateEndValue_def close_utf8 split: list.split frame.split json.split)

lemma begin_value_utf8: "list_all frame_utf8 fs \<Longrightarrow> result_utf8 (stateBeginValue c fs)"
  by (simp add: stateBeginValue_def push_utf8 split: option.split)

lemma begin_string_utf8: "mode_utf8 m \<Longrightarrow> list_all frame_utf8 fs \<Longrightarrow> result_utf8 (stateBeginString c m fs)"
  by (simp add: stateBeginString_def)

lemma tl_utf8: "list_all frame_utf8 fs \<Longrightarrow> list_all frame_utf8 (tl fs)"
  by (cases fs) simp_all

lemma scan_step_utf8:
  assumes "mode_utf8 m" "list_all frame_utf8 fs"
  shows "result_utf8 (scan_step num m fs c)"
  using assms
  by (cases m)
    (auto simp: begin_value_utf8 begin_string_utf8 end_value_utf8 close_utf8 tl_utf8 unquote_valid split: option.split list.split)

lemma scan_utf8: "mode_utf8 m \<Longrightarrow> list_all frame_utf8 fs \<Longrightarrow> scan num io m fs s = Inr j \<Longrightarrow> json_utf8 j"
proof (induction s arbitrary: m fs)
  case Nil
  then show ?case using scan_step_utf8 [of m fs num "CHR 0x20"] by (simp split: option.splits scan_result.splits)
next
  case (Cons c s)
  then show ?case using scan_step_utf8 [of m fs num c] by (auto split: scan_result.splits)
qed

text \<open>
  Whatever bytes a client sends, every string of the document read from them, keys included, is well-formed
  UTF-8: this is an invariant of the scanner.
\<close>

lemma read_value_utf8:
  assumes "read_value num bytes ioerr = Inr j"
  shows "json_utf8 j"
  using assms scan_utf8 [of BeginValue "[]" num ioerr bytes j] by (simp add: read_value_def)

section \<open>What is written is inert\<close>

text \<open>Bytes that neither end a line nor open a tag or an entity.\<close>

definition inert :: "char \<Rightarrow> bool" where
  "inert c \<longleftrightarrow> 0x20 \<le> (of_char c :: nat) \<and> c \<notin> {CHR ''<'', CHR ''>'', CHR 0x26}"

lemma inert_high: "128 \<le> (of_char c :: nat) \<Longrightarrow> inert c"
  by (auto simp: inert_def)

lemma inert_syntax [simp]:
  "inert (CHR 0x22)" "inert (CHR 0x5C)" "inert (CHR 0x5B)" "inert (CHR 0x5D)" "inert (CHR 0x7B)" "inert (CHR 0x7D)"
  "inert (CHR 0x2C)" "inert (CHR 0x3A)" "list_all inert ''ufffd2028902null true false''"
  by code_simp+

lemma inert_hextable: "d < 16 \<Longrightarrow> inert (hextable ! d)"
proof -
  have "list_all (\<lambda>d. inert (hextable ! d)) [0..<16]" by code_simp
  then show "d < 16 \<Longrightarrow> inert (hextable ! d)" by (simp add: list_all_iff)
qed

lemma inert_escape_ascii:
  assumes "byte_in b 0x00 0x7F"
  shows "list_all inert (escape_ascii b)"
proof -
  have "(of_char b :: nat) div 16 < 16" "(of_char b :: nat) mod 16 < 16"
    using assms by (simp_all add: byte_in_ascii less_mult_imp_div_less)
  then have "list_all inert (u00 b)" by (simp add: u00_def inert_hextable) (simp add: inert_def)
  then show ?thesis by (auto simp: escape_ascii_def inert_def)
qed

lemma inert_escape: "list_all inert (escape s)"
proof (induction s rule: rune_induct)
  case (ascii b s)
  then show ?case by (simp add: escape_Cons inert_escape_ascii)
next
  case (invalid b s)
  then show ?case using inert_syntax(9) by (simp add: escape_Cons)
next
  case (rune b s m)
  have "list_all inert (b # take m s)" using rune_bytes [OF rune(2,1)] by (auto simp: list_all_iff intro: inert_high)
  with rune(3) show ?case using inert_syntax(9) by (simp add: escape_Cons(4) [OF rune(1,2)])
qed (simp add: escape_Cons)

lemma inert_num_step: "num_step m c = Some m' \<Longrightarrow> inert c"
  by (cases m) (auto simp: isDigit_def byte_in_def exponent_char_def inert_def split: if_splits)

lemma inert_num_run: "num_run m s = Some m' \<Longrightarrow> list_all inert s"
  by (induction s arbitrary: m) (auto simp: bind_eq_Some_conv intro: inert_num_step)

lemma inert_number: "number_text s \<Longrightarrow> list_all inert s"
proof (cases s)
  case (Cons c s')
  assume "number_text s"
  with Cons obtain m m' where "num_start c = Some m" "num_run m s' = Some m'" by (auto simp: number_text_def bind_eq_Some_conv split: option.splits)
  with Cons show ?thesis
    by (auto simp: num_start_def isDigit_def byte_in_def inert_def split: if_splits dest: inert_num_run)
qed simp

lemma inert_commas: "\<forall>x\<in>set xs. list_all inert x \<Longrightarrow> list_all inert (commas xs)"
  by (induction xs rule: commas.induct) (auto simp: inert_def)

lemma inert_text: "json_nums fmt num j \<Longrightarrow> list_all inert (marshal_text fmt j)"
proof (induction j)
  case (JArr js)
  then have "list_all inert (commas (map (marshal_text fmt) js))" by (intro inert_commas) (auto simp: list_all_iff)
  then show ?case by simp
next
  case (JObj kvs)
  have "list_all inert (quote_text (fst kv) @ [CHR 0x3A] @ marshal_text fmt (snd kv))" if "kv \<in> set kvs" for kv
    using JObj.IH [OF that, of "snd kv"] JObj.prems that inert_escape
    by (cases kv) (auto simp: quote_text_def list_all_iff)
  then have "list_all inert (commas (map (\<lambda>kv. quote_text (fst kv) @ [CHR 0x3A] @ marshal_text fmt (snd kv)) kvs))"
    by (intro inert_commas) auto
  then show ?case by simp
qed (use inert_syntax(9) in \<open>auto simp: inert_number quote_text_def inert_escape\<close>)

end
