(* ===== verification/ServeMux.thy ===== *)
theory ServeMux
  imports Startup JsonText
begin

text \<open>
  The routing of the claims gateway: what \<open>http.ServeMux\<close> does with the patterns that \<open>cmd/gateway/main.go\<close> registers,
  which are literal paths without method, host, wildcard or trailing slash. A request is matched on the segments of its
  cleaned path, each percent-decoded; a path that cleaning changes is redirected.
\<close>

section \<open>Paths\<close>

text \<open>\<open>url.PathUnescape\<close>; \<open>None\<close> is its error.\<close>

fun PathUnescape :: "string \<Rightarrow> string option" where
  "PathUnescape [] = Some []"
| "PathUnescape (c # s) =
     (if c = CHR 0x25 then
        (case s of
           a # b # s' \<Rightarrow>
             (case (hex_value a, hex_value b) of
                (Some m, Some n) \<Rightarrow> map_option (\<lambda>t. char_of (16 * m + n) # t) (PathUnescape s')
              | _ \<Rightarrow> None)
         | _ \<Rightarrow> None)
      else map_option (\<lambda>t. c # t) (PathUnescape s))"

definition pathUnescape :: "string \<Rightarrow> string" where
  "pathUnescape seg = (case PathUnescape seg of Some s \<Rightarrow> s | None \<Rightarrow> seg)"

text \<open>\<open>firstSegment\<close>, applied until the path is used up; a trailing slash is a segment of its own.\<close>

function path_segments :: "string \<Rightarrow> string list" where
  "path_segments p =
     (if p = '''' then []
      else if p = ''/'' then [''/'']
      else pathUnescape (takeWhile (\<lambda>c. c \<noteq> slash) (tl p)) # path_segments (dropWhile (\<lambda>c. c \<noteq> slash) (tl p)))"
  by pat_completeness auto
termination
  by (relation "measure length") (auto simp: le_less_trans [OF length_dropWhile_le])

declare path_segments.simps [simp del]

definition cleanPath :: "string \<Rightarrow> string" where
  "cleanPath p0 =
     (if p0 = '''' then ''/''
      else
        (let p = (if hd p0 = slash then p0 else slash # p0); np = path_Clean p
         in if last p = slash \<and> np \<noteq> ''/'' then np @ [slash] else np))"

section \<open>Routing\<close>

record route_request =
  rr_RequestURI :: string
  rr_EscapedPath :: string
  rr_Request :: http_request

text \<open>
  What the multiplexer makes of a request: the answer of a handler, a permanent redirect to a path, or one of its own
  two answers, 404 and, for the request target \<open>*\<close>, 400.
\<close>

datatype mux_result = Handled http_result | MovedPermanently string | PageNotFound | TargetRefused

definition match_pattern :: "'e mux \<Rightarrow> string \<Rightarrow> (http_request \<Rightarrow> 'e world \<Rightarrow> http_result \<times> 'e world) option" where
  "match_pattern mux path = map_option snd (find (\<lambda>(pattern, handler). path_segments pattern = path_segments path) mux)"

definition ServeHTTP :: "'e mux \<Rightarrow> route_request \<Rightarrow> 'e world \<Rightarrow> mux_result \<times> 'e world" where
  "ServeHTTP mux r w =
     (if rr_RequestURI r = ''*'' then (TargetRefused, w)
      else
        (let path = (if rq_Method (rr_Request r) = ''CONNECT'' then rr_EscapedPath r else cleanPath (rr_EscapedPath r))
         in if path \<noteq> rr_EscapedPath r then (MovedPermanently path, w)
            else
              (case match_pattern mux path of
                 None \<Rightarrow> (PageNotFound, w)
               | Some handler \<Rightarrow> (case handler (rr_Request r) w of (res, w') \<Rightarrow> (Handled res, w')))))"

section \<open>Facts\<close>


text \<open>A path whose segments are none of the special ones, as its segments joined.\<close>

lemma path_segments_join:
  assumes "path_segments p = as" "as \<noteq> []" "''/'' \<notin> set as"
  shows "\<exists>c xs. p = c # join_slash xs \<and> map pathUnescape xs = as \<and> (\<forall>x\<in>set xs. slash \<notin> set x)"
  using assms
proof (induction as arbitrary: p)
  case (Cons a as)
  have "p \<noteq> ''''" "p \<noteq> ''/''" using Cons.prems path_segments.simps [of p] by auto
  then obtain c q where p: "p = c # q" "p \<noteq> ''/''" by (cases p) simp_all
  let ?x = "takeWhile (\<lambda>c. c \<noteq> slash) q" and ?q = "dropWhile (\<lambda>c. c \<noteq> slash) q"
  have x: "slash \<notin> set ?x" by (auto dest: set_takeWhileD)
  have segs: "pathUnescape ?x = a" "path_segments ?q = as"
    using Cons.prems(1) p path_segments.simps [of p] by (auto split: if_splits)
  have q: "q = ?x @ ?q" by simp
  show ?case
  proof (cases "as = []")
    case True
    then have "?q = ''''" using segs(2) by (subst (asm) path_segments.simps) (auto split: if_splits)
    with q have "p = c # join_slash [?x]" using p by simp
    moreover have "map pathUnescape [?x] = a # as" "\<forall>x\<in>set [?x]. slash \<notin> set x" using True segs x by simp_all
    ultimately show ?thesis by (intro exI conjI)
  next
    case False
    with Cons.IH [OF segs(2)] Cons.prems(3) obtain d xs
      where xs: "?q = d # join_slash xs" "map pathUnescape xs = as" "\<forall>x\<in>set xs. slash \<notin> set x" by auto
    have "d = slash" using hd_dropWhile [of "\<lambda>c. c \<noteq> slash" q] xs(1) by simp
    moreover have "xs \<noteq> []" using xs(2) False by auto
    ultimately have "p = c # join_slash (?x # xs)" using p q xs(1) by (cases xs) simp_all
    moreover have "map pathUnescape (?x # xs) = a # as" "\<forall>y\<in>set (?x # xs). slash \<notin> set y" using segs xs x by simp_all
    ultimately show ?thesis by (intro exI conjI)
  qed
qed simp

text \<open>Cleaning leaves such a path alone.\<close>

definition plain_segment :: "string \<Rightarrow> bool" where
  "plain_segment a \<longleftrightarrow> a \<notin> {'''', ''.'', ''..'', ''/''}"

lemma plain_safe: "plain_segment (pathUnescape x) \<Longrightarrow> slash \<notin> set x \<Longrightarrow> safe_elem x"
  by (auto simp: plain_segment_def safe_elem_def pathUnescape_def)

lemma foldl_clean_safe: "\<forall>x\<in>set xs. safe_elem x \<Longrightarrow> foldl (clean_step r) kept xs = rev xs @ kept"
  by (induction xs arbitrary: kept) simp_all

lemma last_join_safe: "xs \<noteq> [] \<Longrightarrow> \<forall>x\<in>set xs. safe_elem x \<Longrightarrow> join_slash xs \<noteq> [] \<and> last (join_slash xs) \<noteq> slash"
  by (induction xs rule: join_slash.induct) (auto simp: safe_elem_def dest: last_in_set)

lemma cleanPath_plain:
  assumes "hd p = slash" "path_segments p \<noteq> []" "list_all plain_segment (path_segments p)"
  shows "cleanPath p = p"
proof -
  have "''/'' \<notin> set (path_segments p)" using assms(3) by (auto simp: list_all_iff plain_segment_def)
  from path_segments_join [OF refl assms(2) this] assms(1) obtain xs
    where p: "p = slash # join_slash xs" "map pathUnescape xs = path_segments p" "\<forall>x\<in>set xs. slash \<notin> set x" by auto
  have safe: "\<forall>x\<in>set xs. safe_elem x"
    using assms(3) p(3) unfolding p(2) [symmetric] by (auto simp: list_all_iff intro: plain_safe)
  have "xs \<noteq> []" using p(2) assms(2) by auto
  note join = last_join_safe [OF this safe]
  have "clean_elems True p = rev xs"
    using split_join [OF \<open>xs \<noteq> []\<close> p(3)] foldl_clean_safe [OF safe, of True "[]"] p(1)
    by (simp add: clean_elems_def clean_step_def)
  then have "path_Clean p = p" using p(1) by (simp add: path_Clean_def)
  then show ?thesis using join p(1) by (auto simp: cleanPath_def Let_def)
qed

lemma gateway_segments:
  "path_segments ''/v1/claims'' = [''v1'', ''claims'']" "path_segments ''/healthz'' = [''healthz'']"
  by code_simp+

lemma match_gateway:
  "match_pattern (gateway_mux rand_Read h) path =
     (if path_segments path = [''v1'', ''claims''] then Some (SubmitClaim rand_Read h)
      else if path_segments path = [''healthz''] then Some (\<lambda>r w. (Responded (Healthz r), w))
      else None)"
  by (auto simp: match_pattern_def gateway_mux_def HandleFunc_def gateway_segments)

section \<open>Properties\<close>

text \<open>
  (C24) The routes of the gateway. A request reaches \<open>SubmitClaim\<close> exactly if the segments of its path,
  percent-decoded, are \<open>v1\<close> and \<open>claims\<close>, and \<open>Healthz\<close> exactly if there is the one segment \<open>healthz\<close>; such a path is
  never redirected. Every other request has no effect and is redirected to its cleaned path, or not found when its path
  is clean already.
\<close>

theorem gateway_routes:
  assumes "rr_RequestURI r \<noteq> ''*''" "rr_EscapedPath r = slash # p"
  shows "ServeHTTP (gateway_mux rand_Read h) r w =
    (if path_segments (slash # p) = [''v1'', ''claims''] then
       (case SubmitClaim rand_Read h (rr_Request r) w of (res, w') \<Rightarrow> (Handled res, w'))
     else if path_segments (slash # p) = [''healthz''] then (Handled (Responded (Healthz (rr_Request r))), w)
     else if rq_Method (rr_Request r) = ''CONNECT'' \<or> cleanPath (slash # p) = slash # p then (PageNotFound, w)
     else (MovedPermanently (cleanPath (slash # p)), w))"
proof -
  have "cleanPath (slash # p) = slash # p" if "path_segments (slash # p) \<in> {[''v1'', ''claims''], [''healthz'']}"
    using that by (intro cleanPath_plain) (auto simp: plain_segment_def)
  then show ?thesis using assms by (auto simp: ServeHTTP_def match_gateway Let_def)
qed

theorem gateway_routes_witness:
  "(let r = \<lambda>p. \<lparr>rr_RequestURI = p, rr_EscapedPath = p, rr_Request = demo_request (Inl ''EOF'')\<rparr>;
        serve = \<lambda>p. ServeHTTP (gateway_mux demo_rand (demo_handler ''active'')) (r p) quiet_world
    in serve ''/v1/cl%61ims'' = (Handled (Responded (writeError [] 400 ''invalid request body: EOF'')), quiet_world) \<and>
       serve ''/v1//claims'' = (MovedPermanently ''/v1/claims'', quiet_world) \<and>
       serve ''/v1/claims/'' = (PageNotFound, quiet_world))"
proof -
  have segs: "path_segments (slash # ''v1/cl%61ims'') = [''v1'', ''claims'']" "path_segments (slash # ''v1//claims'') = [''v1'', '''', ''claims'']"
    "path_segments (slash # ''v1/claims/'') = [''v1'', ''claims'', ''/'']"
    "cleanPath (slash # ''v1//claims'') = ''/v1/claims''" "cleanPath (slash # ''v1/claims/'') = ''/v1/claims/''" by code_simp+
  have "SubmitClaim demo_rand (demo_handler ''active'') (demo_request (Inl ''EOF'')) quiet_world =
      (Responded (writeError [] 400 ''invalid request body: EOF''), quiet_world)"
    by (simp add: SubmitClaim_def demo_request_def Decode_def)
  then show ?thesis
    using gateway_routes [of "\<lparr>rr_RequestURI = ''/v1/cl%61ims'', rr_EscapedPath = ''/v1/cl%61ims'', rr_Request = demo_request (Inl ''EOF'')\<rparr>"
        "''v1/cl%61ims''" demo_rand "demo_handler ''active''" quiet_world]
      gateway_routes [of "\<lparr>rr_RequestURI = ''/v1//claims'', rr_EscapedPath = ''/v1//claims'', rr_Request = demo_request (Inl ''EOF'')\<rparr>"
        "''v1//claims''" demo_rand "demo_handler ''active''" quiet_world]
      gateway_routes [of "\<lparr>rr_RequestURI = ''/v1/claims/'', rr_EscapedPath = ''/v1/claims/'', rr_Request = demo_request (Inl ''EOF'')\<rparr>"
        "''v1/claims/''" demo_rand "demo_handler ''active''" quiet_world]
    unfolding segs by (simp add: slash_def demo_request_def)
qed

end
