(* ===== verification/ExecutorEffects.thy ===== *)
theory ExecutorEffects
  imports ExecutorProps
begin

text \<open>
  What a run leaves behind in the world. A reflexive and transitive relation between worlds that the
  passing of time, logging and the calls of the services respect is respected by a whole run; the locale
  \<open>world_rel\<close> lifts it through the retry loop, the three stages and \<open>Run\<close>. It is interpreted on the
  growth of the Kafka topic, which gives the account of the messages a run publishes.
\<close>

section \<open>Relations along a stage\<close>

context dag_stage
begin

lemma trace_rel:
  assumes "stage_trace select call aborts apply_o ns s w = (outs, w')" and "I s"
    and refl: "\<And>w. rel w w" and trans: "\<And>w1 w2 w3. rel w1 w2 \<Longrightarrow> rel w2 w3 \<Longrightarrow> rel w1 w3"
    and call: "\<And>n s w out w'. I s \<Longrightarrow> call n s w = (out, w') \<Longrightarrow> rel w w'"
    and keep: "\<And>s out. I s \<Longrightarrow> I (apply_o out s)"
  shows "rel w w'"
  using assms(1,2)
proof (induction ns arbitrary: s w outs)
  case (Cons n ns)
  obtain out w1 where c: "call n s w = (out, w1)" by fastforce
  have "rel w w1" using Cons.prems(2) c by (rule call)
  moreover have "rel w1 w'" if "stage_trace select call aborts apply_o ns (apply_o out s) w1 = (outs', w')" for outs'
    using that keep [OF Cons.prems(2)] by (rule Cons.IH)
  ultimately show ?case
    using Cons c by (auto intro: trans split: if_splits option.splits prod.splits)
qed (simp add: refl)

end

section \<open>Relations along a run\<close>

text \<open>The services of the first two stages respect a relation, and so does the publisher on given events.\<close>

definition enrichers_respect :: "('e world \<Rightarrow> 'e world \<Rightarrow> bool) \<Rightarrow> 'e executor \<Rightarrow> string \<Rightarrow> bool" where
  "enrichers_respect rel e k \<longleftrightarrow>
     (\<forall>c x w. rel w (snd (x_Hash e c k x w))) \<and> (\<forall>c x w. rel w (snd (x_Normalize e c k x w))) \<and>
     (\<forall>c x w. rel w (snd (x_Lookup e c k x w))) \<and> (\<forall>c fs w. rel w (snd (x_Score e c k fs w)))"

locale world_rel =
  fixes rel :: "'e world \<Rightarrow> 'e world \<Rightarrow> bool"
  assumes rel_refl: "rel w w"
    and rel_trans: "rel w1 w2 \<Longrightarrow> rel w2 w3 \<Longrightarrow> rel w1 w3"
    and rel_tick: "clock w \<le> t \<Longrightarrow> rel w (w\<lparr>clock := t\<rparr>)"
    and rel_log: "rel w (log_at lvl l msg as w)"
begin

lemma select_rel: "select_backoff ctx w = (r, w') \<Longrightarrow> rel w w'"
  by (auto simp: select_backoff_def Let_def sint_retryBackoff intro!: rel_tick split: option.splits if_splits)

lemma retry_rel:
  assumes "retry_from zero ctx timeout fn m a le w = (r, w')" and fn: "\<And>c w. rel w (snd (fn c w))"
  shows "rel w w'"
proof -
  have fn': "fn c w = (r, w') \<Longrightarrow> rel w w'" for c w r w' using fn [of w c] by simp
  from assms(1) show ?thesis
    by (induction rule: retry_from_induct) (blast intro: rel_refl rel_trans fn' select_rel)+
qed

lemma call_rel: "callWithResilience zero ctx cfg node fn w = (r, w') \<Longrightarrow> (\<And>c w. rel w (snd (fn c w))) \<Longrightarrow> rel w w'"
  unfolding callWithResilience_def by (rule retry_rel)

lemma failure_rel: "rel w (log_failure l n err w)"
  by (simp add: log_failure_def nodeFailureHandled_def Let_def rel_log)

lemma unrecognized_rel: "rel w (log_unrecognized l n w)"
  by (simp add: log_unrecognized_def skip_unrecognized_def rel_log)

lemma stage_call_rel:
  assumes "enrichers_respect rel (v_exec v) (v_correlationID v)"
  shows "enrich_call v n s w = (out1, w') \<Longrightarrow> rel w w'"
    and "score_call v s n r w = (out2, w') \<Longrightarrow> rel w w'"
  using assms unfolding enrichers_respect_def
  by (auto simp: enrich_call_def score_call_def split: if_splits prod.splits option.splits
      dest!: call_rel intro: unrecognized_rel failure_rel rel_trans)

lemma publish_rel:
  assumes "\<And>c w. rel w (snd (x_Publish (v_exec v) c (event_of v r st) w))"
    and "publish_outcome_of v r n st w = (out, w')"
  shows "rel w w'"
proof -
  have "rel w (snd (publish_call (v_exec v) (event_of v r st) c w))" for c w
    using assms(1) [of w c] by (auto simp: publish_call_def split: prod.split)
  then show ?thesis using assms(2)
    by (auto simp: publish_outcome_of_def split: if_splits prod.splits option.splits
        dest!: call_rel intro: unrecognized_rel failure_rel rel_log rel_trans)
qed

lemma enrich_trace_rel:
  assumes "enrichers_respect rel (v_exec v) (v_correlationID v)" and "enrich_trace v w = (outs, w')"
  shows "rel w w'"
  by (rule enrich_stage.trace_rel [OF assms(2), where I = "\<lambda>_. True"])
    (auto intro: rel_refl rel_trans stage_call_rel(1) [OF assms(1)])

lemma score_trace_rel:
  assumes "enrichers_respect rel (v_exec v) (v_correlationID v)" and "score_trace v s w = (outs, w')"
  shows "rel w w'"
  by (rule score_stage.trace_rel [OF assms(2), where I = "\<lambda>_. True"])
    (auto intro: rel_refl rel_trans stage_call_rel(2) [OF assms(1)])

lemma publish_trace_rel:
  assumes "publish_trace v r st w = (outs, w')" and "st \<in> {''scored'', ''degraded''}"
    and "\<And>c st w. st \<in> {''scored'', ''degraded''} \<Longrightarrow> rel w (snd (x_Publish (v_exec v) c (event_of v r st) w))"
  shows "rel w w'"
proof (rule publish_stage.trace_rel [OF assms(1), where I = "\<lambda>st. st \<in> {''scored'', ''degraded''}"])
  show "publish_apply out st \<in> {''scored'', ''degraded''}" if "st \<in> {''scored'', ''degraded''}" for st out
    using that by (cases out) auto
  show "rel w w'" if "st \<in> {''scored'', ''degraded''}" "publish_outcome_of v r n st w = (out, w')" for st n w out w'
    using publish_rel [OF assms(3) [OF that(1)] that(2)] .
qed (use assms(2) in \<open>auto intro: rel_refl rel_trans\<close>)

end

section \<open>The topic\<close>

text \<open>
  \<open>topic\<close> reads the messages of the Kafka topic off the state of the outside world. A world \<open>w'\<close> is
  reached from \<open>w\<close> by sending messages that satisfy \<open>P\<close>.
\<close>

definition sends :: "('e \<Rightarrow> kafka_message list) \<Rightarrow> (kafka_message \<Rightarrow> bool) \<Rightarrow> 'e world \<Rightarrow> 'e world \<Rightarrow> bool" where
  "sends topic P w w' \<longleftrightarrow> (\<exists>ms. topic (env w') = topic (env w) @ ms \<and> list_all P ms)"

interpretation topic_growth: world_rel "sends topic P" for topic P
proof unfold_locales
  show "sends topic P w1 w3" if "sends topic P w1 w2" "sends topic P w2 w3" for w1 w2 w3
    using that unfolding sends_def by (metis append.assoc list_all_append)
qed (auto simp: sends_def)

lemma sends_nothing: "topic (env w') = topic (env w) \<Longrightarrow> sends topic P w w'"
  by (simp add: sends_def)

lemma sends_mono: "sends topic P w w' \<Longrightarrow> (\<And>m. P m \<Longrightarrow> Q m) \<Longrightarrow> sends topic Q w w'"
  by (auto simp: sends_def list_all_iff)

text \<open>A message that carries an event: keyed by its tenant, and readable as the event.\<close>

definition carries :: "kafka_message \<Rightarrow> ScoredClaimEvent \<Rightarrow> bool" where
  "carries m ev \<longleftrightarrow> m_Key m = ev_TenantID ev \<and> read_event (m_Value m) = Some ev \<and> is_finite (ev_FraudScore ev)"

text \<open>
  Requests are handled concurrently, so while a call of one run is under way the others may add messages of their own;
  \<open>G\<close> is what is known of those. What is relied on from the \<open>kafka-go\<close> writer is that it adds copies of the message it is
  given and nothing else: an error leaves open whether the message arrived, and a retry inside the library may deliver it
  twice, with messages of other runs before, between and after the copies.
\<close>

definition appends_copies :: "('e \<Rightarrow> kafka_message list) \<Rightarrow> (kafka_message \<Rightarrow> bool) \<Rightarrow> 'e write_messages \<Rightarrow> bool" where
  "appends_copies topic G W \<longleftrightarrow> (\<forall>p c m w. sends topic (\<lambda>m'. m' = m \<or> G m') w (snd (W p c m w)))"

lemma Publish_sends:
  assumes "appends_copies topic G W"
  shows "sends topic (\<lambda>m. carries m ev \<or> G m) w (snd (Publish W p c ev w))"
proof (cases "marshal_event ev")
  case (Inl err)
  then show ?thesis by (simp add: Publish_def sends_nothing)
next
  case (Inr j)
  let ?m = "\<lparr>m_Key = ev_TenantID ev, m_Value = j\<rparr>"
  have "carries ?m ev"
    using Inr by (simp add: carries_def marshal_event_read marshal_event_finite)
  moreover have "sends topic (\<lambda>m'. m' = ?m \<or> G m') w (snd (W p c ?m w))"
    using assms unfolding appends_copies_def by blast
  ultimately have "sends topic (\<lambda>m. carries m ev \<or> G m) w (snd (W p c ?m w))" by (elim sends_mono) blast
  then show ?thesis using Inr by (auto simp: Publish_def split: prod.split option.split)
qed

text \<open>The services other than the publisher add nothing to the topic themselves.\<close>

definition topic_untouched :: "('e \<Rightarrow> kafka_message list) \<Rightarrow> (kafka_message \<Rightarrow> bool) \<Rightarrow> 'e executor \<Rightarrow> bool" where
  "topic_untouched topic G e \<longleftrightarrow>
     (\<forall>c t p k w. sends topic G w (snd (x_Load e c t p k w))) \<and>
     (\<forall>c k x w. sends topic G w (snd (x_Hash e c k x w))) \<and>
     (\<forall>c k x w. sends topic G w (snd (x_Normalize e c k x w))) \<and>
     (\<forall>c k x w. sends topic G w (snd (x_Lookup e c k x w))) \<and>
     (\<forall>c k fs w. sends topic G w (snd (x_Score e c k fs w)))"

lemma enrichers_sends:
  assumes "topic_untouched topic G e" and "\<And>m. G m \<Longrightarrow> P m"
  shows "enrichers_respect (sends topic P) e k"
proof -
  have "sends topic P w w'" if "sends topic G w w'" for w w' using that assms(2) by (rule sends_mono)
  then show ?thesis using assms(1) unfolding enrichers_respect_def topic_untouched_def by (intro conjI allI) simp_all
qed

lemma run_stages_sends:
  assumes quiet: "topic_untouched topic G (v_exec v)"
    and publish: "x_Publish (v_exec v) = Publish W p" "appends_copies topic G W"
    and run: "run_stages v w = (res, w')"
  shows "sends topic (\<lambda>m. G m \<or> (\<exists>r st. st \<in> {''scored'', ''degraded''} \<and> carries m (event_of v (Some r) st) \<and>
      (\<forall>out. res = (Some out, None) \<longrightarrow> r_FraudScore out = sr_Score r \<and> r_ModelVersion out = sr_ModelVersion r))) w w'"
    (is "sends topic ?P w w'")
proof -
  have enrich: "enrichers_respect (sends topic ?P) (v_exec v) (v_correlationID v)"
    by (rule enrichers_sends [OF quiet]) blast
  note early = topic_growth.enrich_trace_rel [OF enrich] topic_growth.score_trace_rel [OF enrich]
  have late: "sends topic (\<lambda>m. G m \<or> (\<exists>st. st \<in> {''scored'', ''degraded''} \<and> carries m (event_of v (Some r) st))) w2 w3"
    if "publish_trace v (Some r) st w2 = (outs, w3)" "st \<in> {''scored'', ''degraded''}" for r st w2 outs w3
    by (rule topic_growth.publish_trace_rel [OF that])
      (auto simp: publish(1) intro: sends_mono [OF Publish_sends [OF publish(2)]])
  from run show ?thesis
  proof (cases rule: run_stages_cases)
    case (publish_abort outs1 w1 outs2 w2 r outs3 err)
    have "sends topic ?P w2 w'"
      by (rule sends_mono [OF late [OF publish_abort(6)]]) (use publish_abort(8) in \<open>auto simp: enrichment_after_def\<close>)
    with early(1) [OF publish_abort(1)] early(2) [OF publish_abort(3)] show ?thesis by (blast intro: topic_growth.rel_trans)
  next
    case (finished outs1 w1 outs2 w2 r outs3)
    have "sends topic ?P w2 w'"
      by (rule sends_mono [OF late [OF finished(6)]])
        (use finished(8) in \<open>auto simp: enrichment_after_def result_of_def GetScore_def\<close>)
    with early(1) [OF finished(1)] early(2) [OF finished(3)] show ?thesis by (blast intro: topic_growth.rel_trans)
  qed (use early in \<open>blast intro: topic_growth.rel_trans\<close>)+
qed

lemma Run_sends:
  assumes quiet: "topic_untouched topic G e" and publish: "x_Publish e = Publish W p" "appends_copies topic G W"
    and run: "Run e ctx t k claim w = (res, w')"
  shows "sends topic (\<lambda>m. G m \<or> (\<exists>ev. carries m ev \<and> ev_TenantID ev = t \<and> ev_CorrelationID ev = k \<and>
      ev_ClaimID ev = get_str ce_ClaimId claim \<and> ev_Status ev \<in> {''scored'', ''degraded''} \<and>
      (\<forall>out. res = (Some out, None) \<longrightarrow> r_FraudScore out = ev_FraudScore ev \<and> r_ModelVersion out = ev_ModelVersion ev))) w w'"
    (is "sends topic ?P w w'")
proof -
  have load: "sends topic ?P w w1" if "loaded e ctx t k claim w = (r, w1)" for r w1
  proof -
    have "sends topic G w w1" using that quiet unfolding topic_untouched_def by (metis snd_conv)
    then show ?thesis by (elim sends_mono) blast
  qed
  from run show ?thesis
  proof (cases rule: Run_cases)
    case (stages cfg w0)
    have "sends topic ?P w0 w'"
      by (rule sends_mono [OF run_stages_sends [OF _ _ publish(2) stages(2)]])
        (use quiet publish(1) in \<open>auto simp: event_of_def GetScore_def\<close>)
    with load [OF stages(1)] show ?thesis by (rule topic_growth.rel_trans)
  qed (auto intro: topic_growth.rel_refl dest: load)
qed

section \<open>Properties\<close>

text \<open>
  (C14) Everything a run adds to the Kafka topic, whether or not it succeeds and however often the publish node
  is retried, is a message keyed by the run's tenant that reads back as an event of this tenant, claim and
  correlation id with status \<open>scored\<close> or \<open>degraded\<close> and a finite score; and if the run succeeds, score and
  model version are those it returns. The writer is only assumed to add copies of the message it is given, and
  concurrent runs may add messages at any of the calls of this one.
\<close>

theorem Run_published_messages:
  assumes "topic_untouched topic G e" and "x_Publish e = Publish W p" and "appends_copies topic G W"
    and "Run e ctx tenantID correlationID claim w = (res, w')"
  shows "\<exists>ms. topic (env w') = topic (env w) @ ms \<and>
    (\<forall>m. m \<in> set ms \<longrightarrow> G m \<or> m_Key m = tenantID \<and>
      (\<exists>ev. read_event (m_Value m) = Some ev \<and> ev_TenantID ev = tenantID \<and> ev_CorrelationID ev = correlationID \<and>
         ev_ClaimID ev = get_str ce_ClaimId claim \<and> ev_Status ev \<in> {''scored'', ''degraded''} \<and>
         is_finite (ev_FraudScore ev) \<and>
         (\<forall>out. res = (Some out, None) \<longrightarrow>
            ev_FraudScore ev = r_FraudScore out \<and> ev_ModelVersion ev = r_ModelVersion out)))"
  using Run_sends [OF assms] unfolding sends_def carries_def list_all_iff by fastforce

text \<open>The shipped DAG with a broker that accepts every message; \<open>env\<close> is the topic.\<close>

definition append_writer :: "kafka_message list write_messages" where
  "append_writer p c m w = (None, w\<lparr>env := env w @ [m]\<rparr>)"

definition broker_executor :: "kafka_message list executor" where
  "broker_executor = (prompt_executor acme_config)\<lparr>x_Publish := Publish append_writer (NewPublisher ''localhost:19092'')\<rparr>"

definition empty_topic :: "kafka_message list world" where
  "empty_topic = \<lparr>clock = 0, logs = [], sched = (\<lambda>t. False), env = []\<rparr>"

lemma broker_executor_topic:
  "topic_untouched id G broker_executor" "x_Publish broker_executor = Publish append_writer (NewPublisher ''localhost:19092'')"
  "appends_copies id G append_writer"
  by (simp_all add: appends_copies_def append_writer_def sends_def topic_untouched_def broker_executor_def prompt_executor_def ModelServer_Score_eq)

theorem Run_published_messages_witness:
  "\<exists>m ev. env (snd (Run broker_executor Background ''acme_insurance'' ''corr-1'' (Some smoke_claim) empty_topic)) = [m] \<and>
     m_Key m = ''acme_insurance'' \<and> read_event (m_Value m) = Some ev \<and> ev_CorrelationID ev = ''corr-1''"
proof -
  obtain res w' where run: "Run broker_executor Background ''acme_insurance'' ''corr-1'' (Some smoke_claim) empty_topic = (res, w')"
    by fastforce
  obtain j where "\<And>c w. Publish append_writer (NewPublisher ''localhost:19092'') c
      \<lparr>ev_ClaimID = ''clm-1'', ev_CorrelationID = ''corr-1'', ev_TenantID = ''acme_insurance'', ev_Status = ''scored'',
       ev_FraudScore = hundredths 5, ev_ModelVersion = ''rules-v1''\<rparr> w =
      (None, w\<lparr>env := env w @ [\<lparr>m_Key = ''acme_insurance'', m_Value = j\<rparr>]\<rparr>)"
    using near_hundredths [of 5] by (auto simp: Publish_def append_writer_def marshal_event_def near_def)
  then have "env (snd (Run broker_executor Background ''acme_insurance'' ''corr-1'' (Some smoke_claim) empty_topic)) =
      [\<lparr>m_Key = ''acme_insurance'', m_Value = j\<rparr>]"
    by (simp add: broker_executor_def acme_defs go_run smoke_claim_def event_of_def empty_topic_def)
  then have w': "env w' = [\<lparr>m_Key = ''acme_insurance'', m_Value = j\<rparr>]" by (simp add: run)
  moreover have "env empty_topic = []" by (simp add: empty_topic_def)
  ultimately have "\<exists>ev. read_event j = Some ev \<and> ev_CorrelationID ev = ''corr-1''"
    using Run_published_messages [OF broker_executor_topic(1) [where G = "\<lambda>m. False"] broker_executor_topic(2,3) run] by auto
  with w' run show ?thesis by simp
qed

end
