(* ===== verification/ExecutorSpec.thy ===== *)
theory ExecutorSpec
  imports ExecutorProps
begin

text \<open>
  A reference description of a run, without clocks, contexts, retries and logs: the services are
  partial functions from requests to answers, and the three stages are folds in the error monad
  over the nodes the DAG selects. \<open>Run\<close> refines it whenever the services answer within the node
  timeouts and the caller's context outlives the time budget of the DAG.
\<close>

section \<open>The reference run\<close>

text \<open>An answer is an error or a response; it depends on the request only.\<close>

record services =
  a_Hash :: "string \<Rightarrow> gerror + HashClaimantIdResponse"
  a_Normalize :: "string \<Rightarrow> gerror + NormalizeResponse"
  a_Lookup :: "string \<Rightarrow> gerror + LookupPolicyResponse"
  a_Score :: "(string \<rightharpoonup> string) \<Rightarrow> gerror + ScoreResponse"
  a_Publish :: "ScoredClaimEvent \<Rightarrow> gerror + unit"

fun foldM :: "('a \<Rightarrow> 's \<Rightarrow> 'e + 's) \<Rightarrow> 'a list \<Rightarrow> 's \<Rightarrow> 'e + 's" where
  "foldM step [] s = Inr s"
| "foldM step (x # xs) s = (case step x s of Inl err \<Rightarrow> Inl err | Inr s' \<Rightarrow> foldM step xs s')"

text \<open>The failure policy of a node: keep the answer, fall back, or give up.\<close>

definition apply_policy :: "node \<Rightarrow> ('a \<Rightarrow> 's) \<Rightarrow> 's \<Rightarrow> gerror + 'a \<Rightarrow> gerror + 's" where
  "apply_policy node use fallback answer =
     (case answer of
        Inr r \<Rightarrow> Inr (use r)
      | Inl err \<Rightarrow> if handled node then Inr fallback else Inl err)"

definition reference_enrich :: "services \<Rightarrow> ClaimEvent option \<Rightarrow> node \<Rightarrow> enrichment \<Rightarrow> gerror + enrichment" where
  "reference_enrich svc claim node s =
     (let degraded = s\<lparr>s_status := ''degraded''\<rparr> in
      if n_Service node = ''claimant-id-hashing-svc'' then
        apply_policy node (\<lambda>r. s\<lparr>s_claimantIDHash := hr_ClaimantIdHash r\<rparr>) degraded
          (a_Hash svc (get_str ce_ClaimantName claim))
      else if n_Service node = ''address-normalization-svc'' then
        apply_policy node
          (\<lambda>r. s\<lparr>s_normalizedAddress := nr_NormalizedAddress r, s_addressValid := nr_Valid r\<rparr>) degraded
          (a_Normalize svc (get_str ce_RawAddress claim))
      else if n_Service node = ''policy-lookup-svc'' then
        apply_policy node
          (\<lambda>r. s\<lparr>s_policyStatus := lr_Status r, s_policyCoverageType := lr_CoverageType r\<rparr>) degraded
          (a_Lookup svc (get_str ce_PolicyNumber claim))
      else Inr s)"

definition reference_score ::
  "services \<Rightarrow> (string \<rightharpoonup> string) \<Rightarrow> node \<Rightarrow> ScoreResponse option \<Rightarrow> gerror + ScoreResponse option"
where
  "reference_score svc features node best =
     (if n_Service node = ''model-service'' then apply_policy node Some best (a_Score svc features)
      else Inr best)"

definition reference_publish ::
  "services \<Rightarrow> (string \<Rightarrow> ScoredClaimEvent) \<Rightarrow> node \<Rightarrow> string \<Rightarrow> gerror + string"
where
  "reference_publish svc event node status =
     (if n_Service node = ''kafka-publisher''
      then apply_policy node (\<lambda>u. status) ''degraded'' (a_Publish svc (event status))
      else Inr status)"

definition event_for :: "string \<Rightarrow> string \<Rightarrow> ClaimEvent option \<Rightarrow> ScoreResponse \<Rightarrow> string \<Rightarrow> ScoredClaimEvent" where
  "event_for tenantID correlationID claim score status =
     \<lparr>ev_ClaimID = get_str ce_ClaimId claim, ev_CorrelationID = correlationID, ev_TenantID = tenantID,
      ev_Status = status, ev_FraudScore = sr_Score score, ev_ModelVersion = sr_ModelVersion score\<rparr>"

definition reference_run ::
  "services \<Rightarrow> config \<Rightarrow> string \<Rightarrow> string \<Rightarrow> ClaimEvent option \<Rightarrow> gerror + dag_result"
where
  "reference_run svc cfg tenantID correlationID claim =
     (let nodes = filter (\<lambda>n. EnabledForTenant n tenantID) (c_Nodes cfg);
          after = (\<lambda>name. filter (\<lambda>n. name \<in> set (n_DependsOn n)) nodes)
      in case foldM (reference_enrich svc claim) (filter (\<lambda>n. n_DependsOn n = []) nodes)
                (initial_enrichment claim) of
           Inl err \<Rightarrow> Inl err
         | Inr s \<Rightarrow>
             (case foldM (reference_score svc (features_of tenantID claim s)) (after ''enrichment'') None of
                Inl err \<Rightarrow> Inl err
              | Inr None \<Rightarrow> Inl no_score_error
              | Inr (Some score) \<Rightarrow>
                  (case foldM (reference_publish svc (event_for tenantID correlationID claim score))
                          (after ''model_score'') (s_status s) of
                     Inl err \<Rightarrow> Inl err
                   | Inr status \<Rightarrow>
                       Inr \<lparr>r_Status = status, r_NormalizedAddress = s_normalizedAddress s,
                            r_FraudScore = sr_Score score, r_ModelVersion = sr_ModelVersion score\<rparr>)))"

section \<open>Services that answer in time\<close>

text \<open>The context is not done by time \<open>t\<close>.\<close>

definition outlives :: "gcontext \<Rightarrow> int \<Rightarrow> bool" where
  "outlives ctx t \<longleftrightarrow> (case done_at ctx of None \<Rightarrow> True | Some d \<Rightarrow> t < d)"

text \<open>The Go pair of results that stands for an answer; \<open>zero\<close> accompanies an error.\<close>

fun answered :: "'a \<Rightarrow> gerror + 'a \<Rightarrow> 'a \<times> gerror option" where
  "answered zero (Inr r) = (r, None)"
| "answered zero (Inl err) = (zero, Some err)"

text \<open>
  A call that is made at least \<open>latency\<close> before its context is done gives the answer \<open>ans\<close> within
  \<open>latency\<close>. What it does in other contexts, and what else it does to the world, is open.
\<close>

definition answers_within :: "int \<Rightarrow> (gcontext \<Rightarrow> ('a, 'e) go_call) \<Rightarrow> gerror + 'a \<Rightarrow> bool" where
  "answers_within latency fn ans \<longleftrightarrow>
     (\<forall>c w r w'. (\<forall>d. done_at c = Some d \<longrightarrow> clock w + latency \<le> d) \<longrightarrow> fn c w = (r, w') \<longrightarrow>
        (case ans of Inr x \<Rightarrow> r = (x, None) | Inl err \<Rightarrow> snd r = Some err) \<and>
        clock w' \<le> clock w + latency)"

definition enriches_as :: "int \<Rightarrow> 'e executor \<Rightarrow> string \<Rightarrow> services \<Rightarrow> bool" where
  "enriches_as latency e correlationID svc \<longleftrightarrow>
     (\<forall>x. answers_within latency (\<lambda>c. x_Hash e c correlationID x) (map_sum id Some (a_Hash svc x))) \<and>
     (\<forall>x. answers_within latency (\<lambda>c. x_Normalize e c correlationID x) (map_sum id Some (a_Normalize svc x))) \<and>
     (\<forall>x. answers_within latency (\<lambda>c. x_Lookup e c correlationID x) (map_sum id Some (a_Lookup svc x))) \<and>
     (\<forall>x. answers_within latency (\<lambda>c. x_Score e c correlationID x) (map_sum id Some (a_Score svc x)))"

definition answers_as :: "int \<Rightarrow> 'e executor \<Rightarrow> string \<Rightarrow> services \<Rightarrow> bool" where
  "answers_as latency e correlationID svc \<longleftrightarrow>
     enriches_as latency e correlationID svc \<and>
     (\<forall>x. answers_within latency (publish_call e x) (a_Publish svc x))"

text \<open>Every node waits long enough for an answer, and asks at least once.\<close>

definition patient_dag :: "int \<Rightarrow> config \<Rightarrow> bool" where
  "patient_dag latency cfg \<longleftrightarrow>
     list_all (\<lambda>n. latency \<le> sint (nodeTimeout cfg n) \<and> 0 \<le> sint (n_MaxRetries n)) (c_Nodes cfg)"

lemma outlives_mono: "outlives ctx t \<Longrightarrow> t' \<le> t \<Longrightarrow> outlives ctx t'"
  by (auto simp: outlives_def split: option.splits)

lemma done_at_WithTimeout:
  "done_at (WithTimeout ctx t d) =
     Some (case done_at ctx of None \<Rightarrow> t + sint d | Some p \<Rightarrow> min p (t + sint d))"
  by (cases "deadline ctx"; cases "cancelled_at ctx") (auto simp: done_at_def WithTimeout_def Let_def)

lemma attempt_answered:
  assumes "answers_within L fn ans" and "fn (WithTimeout ctx (clock w) timeout) w = (r, w')"
    and "L \<le> sint timeout" and "outlives ctx (clock w + sint timeout)"
  shows "case ans of Inr x \<Rightarrow> r = (x, None) | Inl err \<Rightarrow> snd r = Some err"
    and "clock w' \<le> clock w + sint timeout"
proof -
  have "\<forall>d. done_at (WithTimeout ctx (clock w) timeout) = Some d \<longrightarrow> clock w + L \<le> d"
    using assms(3,4) by (auto simp: done_at_WithTimeout outlives_def split: option.splits)
  with assms(1,2) have "(case ans of Inr x \<Rightarrow> r = (x, None) | Inl err \<Rightarrow> snd r = Some err) \<and>
      clock w' \<le> clock w + L"
    unfolding answers_within_def by blast
  with assms(3) show "case ans of Inr x \<Rightarrow> r = (x, None) | Inl err \<Rightarrow> snd r = Some err"
    "clock w' \<le> clock w + sint timeout" by auto
qed

lemma select_backoff_outlives:
  assumes "outlives ctx (clock w + 20000000)"
  shows "select_backoff ctx w = (None, w\<lparr>clock := clock w + 20000000\<rparr>)"
  using assms by (auto simp: outlives_def select_backoff_def Let_def sint_retryBackoff split: option.splits)

lemma outlives_attempt:
  assumes "outlives ctx (t + (m - a + 1) * timeout + (m - a) * 20000000)" and "0 < timeout" and "a \<le> m"
  shows "outlives ctx (t + timeout)" "a < m \<Longrightarrow> outlives ctx (t + timeout + 20000000)"
proof -
  have le: "timeout \<le> (m - a + 1) * timeout"
    using mult_right_mono [of 1 "m - a + 1" timeout] assms(2,3) by simp
  then have "t + timeout + 0 \<le> t + (m - a + 1) * timeout + (m - a) * 20000000"
    using assms(3) by (intro add_mono; simp)
  then show "outlives ctx (t + timeout)" using outlives_mono [OF assms(1)] by simp
  show "outlives ctx (t + timeout + 20000000)" if "a < m"
    using that le by (intro outlives_mono [OF assms(1)] add_mono; simp)
qed

text \<open>The retry loop adds nothing to such a service but time.\<close>

lemma retry_answered:
  assumes "answers_within L fn ans" and "L \<le> sint timeout" and "0 < sint timeout"
    and "retry_from zero ctx timeout fn m a le w = (r, w')" and "a \<le> m"
    and "outlives ctx (clock w + (m - a + 1) * sint timeout + (m - a) * 20000000)"
  shows "r = answered zero ans \<and> clock w' \<le> clock w + (m - a + 1) * sint timeout + (m - a) * 20000000"
  using assms(4-6)
proof (induction rule: retry_from_induct)
  case (success a le w resp w')
  have "1 * sint timeout \<le> (m - a + 1) * sint timeout"
    using success.hyps(1) assms(3) by (intro mult_right_mono) simp_all
  with attempt_answered [OF assms(1) success.hyps(2) assms(2) outlives_attempt(1) [OF success.prems(2) assms(3)]]
    success.hyps(1)
  show ?case by (cases ans) auto
next
  case (final a le w resp err w')
  with attempt_answered [OF assms(1) final.hyps(2) assms(2) outlives_attempt(1) [OF final.prems(2) assms(3)]]
  show ?case by (cases ans) auto
next
  case (stopped a le w resp err w1 cerr w')
  note o = outlives_attempt [OF stopped.prems(2) assms(3)]
  have "clock w1 \<le> clock w + sint timeout"
    using stopped.hyps(1) by (intro attempt_answered(2) [OF assms(1) stopped.hyps(2) assms(2) o(1)]) simp
  then have "outlives ctx (clock w1 + 20000000)"
    using stopped.hyps(1) by (intro outlives_mono [OF o(2)]) simp_all
  with stopped.hyps(3) show ?case by (simp add: select_backoff_outlives)
next
  case (again a le w resp err w1 w2 r w')
  have "clock w1 \<le> clock w + sint timeout"
    using again.hyps(1)
    by (intro attempt_answered(2) [OF assms(1) again.hyps(2) assms(2) outlives_attempt(1) [OF again.prems(2) assms(3)]]) simp
  then have w2: "clock w2 \<le> clock w + sint timeout + 20000000"
    using select_backoff_frame(5) [OF again.hyps(3)] by simp
  then have "outlives ctx (clock w2 + (m - (a + 1) + 1) * sint timeout + (m - (a + 1)) * 20000000)"
    using again.prems(2) by (elim outlives_mono) (simp add: algebra_simps)
  with again.IH again.hyps(1) w2 show ?case by (simp add: algebra_simps)
qed simp

lemma call_answered:
  assumes "answers_within L fn ans" and "L \<le> sint (nodeTimeout cfg node)" and "0 \<le> sint (n_MaxRetries node)"
    and "outlives ctx (clock w + node_budget cfg node)"
  shows "fst (callWithResilience zero ctx cfg node fn w) = answered zero ans"
    and "clock (snd (callWithResilience zero ctx cfg node fn w)) \<le> clock w + node_budget cfg node"
proof -
  obtain r w' where c: "callWithResilience zero ctx cfg node fn w = (r, w')" by fastforce
  have "r = answered zero ans \<and> clock w' \<le> clock w + (sint (n_MaxRetries node) - 0 + 1) * sint (nodeTimeout cfg node)
      + (sint (n_MaxRetries node) - 0) * 20000000"
    by (rule retry_answered [OF assms(1,2) nodeTimeout_pos c [unfolded callWithResilience_def]])
      (use assms(3,4) in \<open>simp_all add: node_budget_def Let_def sint_retryBackoff add.assoc\<close>)
  with c assms(3) show "fst (callWithResilience zero ctx cfg node fn w) = answered zero ans"
    "clock (snd (callWithResilience zero ctx cfg node fn w)) \<le> clock w + node_budget cfg node"
    by (simp_all add: node_budget_def Let_def sint_retryBackoff)
qed

section \<open>Stages refine folds\<close>

lemma loop_refines:
  assumes "\<And>n s w. n \<in> set ns \<Longrightarrow> outlives ctx (clock w + cost n) \<Longrightarrow>
      fst (body n s w) = step n s \<and> clock (snd (body n s w)) \<le> clock w + cost n"
    and "\<And>n. 0 \<le> cost n" and "outlives ctx (clock w + sum_list (map cost ns))"
  shows "fst (range_loop body ns s w) = foldM step ns s \<and>
    clock (snd (range_loop body ns s w)) \<le> clock w + sum_list (map cost ns)"
  using assms(1,3)
proof (induction ns arbitrary: s w)
  case (Cons n ns)
  have nonneg: "0 \<le> sum_list (map cost ns)" by (rule sum_list_nonneg) (auto simp: assms(2))
  obtain r w1 where b: "body n s w = (r, w1)" by fastforce
  have "outlives ctx (clock w + cost n)" using Cons.prems(2) nonneg by (elim outlives_mono) simp
  with Cons.prems(1) [of n w s] b have r: "step n s = r" "clock w1 \<le> clock w + cost n" by simp_all
  then have "outlives ctx (clock w1 + sum_list (map cost ns))"
    using Cons.prems(2) by (elim outlives_mono) simp
  then have "fst (range_loop body ns s' w1) = foldM step ns s' \<and>
      clock (snd (range_loop body ns s' w1)) \<le> clock w1 + sum_list (map cost ns)" for s'
    using Cons.prems(1) by (intro Cons.IH) auto
  note rest = this
  show ?case
  proof (cases r)
    case (Inr s')
    with b r rest [of s'] show ?thesis by simp
  qed (use b r nonneg in simp)
qed simp

section \<open>The stages of a run\<close>

lemma fst_fail_node: "fst (fail_node l node err s w) = (if handled node then Inr s else Inl err)"
  and clock_fail_node: "clock (snd (fail_node l node err s w)) = clock w"
  by (simp_all add: fail_node_eq failure_aborts_def log_failure_def)

lemma fst_skip_unrecognized: "fst (skip_unrecognized l node s w) = Inr s"
  and clock_skip_unrecognized: "clock (snd (skip_unrecognized l node s w)) = clock w"
  by (simp_all add: skip_unrecognized_def)

lemmas stage_exits = fst_fail_node clock_fail_node fst_skip_unrecognized clock_skip_unrecognized

text \<open>A call with the handling of its error, as the three stages have it.\<close>

lemma call_then_policy:
  assumes "answers_within L fn ans" and "L \<le> sint (nodeTimeout cfg node)" and "0 \<le> sint (n_MaxRetries node)"
    and "outlives ctx (clock w + node_budget cfg node)"
    and "\<And>x w. fst (ok x w) = Inr (use x) \<and> clock (snd (ok x w)) = clock w"
  shows "fst (case callWithResilience zero ctx cfg node fn w of
           ((r, Some err), w1) \<Rightarrow> fail_node l node err fallback w1
         | ((r, None), w1) \<Rightarrow> ok r w1) = apply_policy node use fallback ans"
    and "clock (snd (case callWithResilience zero ctx cfg node fn w of
           ((r, Some err), w1) \<Rightarrow> fail_node l node err fallback w1
         | ((r, None), w1) \<Rightarrow> ok r w1)) \<le> clock w + node_budget cfg node"
  using call_answered [OF assms(1-4), of zero] assms(5)
  by (cases ans; auto simp: apply_policy_def stage_exits split: prod.splits option.splits)+

text \<open>The hypotheses of a run, over the environment its stages share.\<close>

definition served_env :: "int \<Rightarrow> 'e run_env \<Rightarrow> services \<Rightarrow> bool" where
  "served_env L v svc \<longleftrightarrow> enriches_as L (v_exec v) (v_correlationID v) svc \<and> patient_dag L (v_cfg v)"

lemma served_envD:
  assumes "served_env L v svc"
  shows "answers_within L (\<lambda>c. x_Hash (v_exec v) c (v_correlationID v) x) (map_sum id Some (a_Hash svc x))"
    and "answers_within L (\<lambda>c. x_Normalize (v_exec v) c (v_correlationID v) x) (map_sum id Some (a_Normalize svc x))"
    and "answers_within L (\<lambda>c. x_Lookup (v_exec v) c (v_correlationID v) x) (map_sum id Some (a_Lookup svc x))"
    and "answers_within L (\<lambda>c. x_Score (v_exec v) c (v_correlationID v) fs) (map_sum id Some (a_Score svc fs))"
    and "n \<in> set (c_Nodes (v_cfg v)) \<Longrightarrow> L \<le> sint (nodeTimeout (v_cfg v) n)"
    and "n \<in> set (c_Nodes (v_cfg v)) \<Longrightarrow> 0 \<le> sint (n_MaxRetries n)"
  using assms by (auto simp: served_env_def enriches_as_def patient_dag_def list_all_iff)

lemma apply_policy_Some:
  "apply_policy node use fallback (map_sum id Some ans) = apply_policy node (\<lambda>r. use (Some r)) fallback ans"
  by (cases ans) (simp_all add: apply_policy_def)

lemma enrich_refines:
  assumes "served_env L v svc" and "n \<in> set (c_Nodes (v_cfg v))" and "enrich_select v n"
    and "outlives (v_ctx v) (clock w + node_budget (v_cfg v) n)"
  shows "fst (enrich_node v n s w) = reference_enrich svc (v_claim v) n s \<and>
    clock (snd (enrich_node v n s w)) \<le> clock w + node_budget (v_cfg v) n"
proof -
  note call = call_then_policy [OF _ served_envD(5,6) [OF assms(1,2)] assms(4),
      of _ _ "\<lambda>r w. (Inr (_ r), w)", simplified]
  note served = served_envD(1-3) [OF assms(1)]
  have sel: "\<not> (length (n_DependsOn n) \<noteq> 0 \<or> \<not> EnabledForTenant n (v_tenantID v))"
    using assms(3) by (simp add: enrich_select_def)
  show ?thesis
    unfolding enrich_node_def Let_def if_not_P [OF sel] reference_enrich_def
    by (simp add: call [OF served(1)] call [OF served(2)] call [OF served(3)] apply_policy_Some stage_exits
        node_budget_nonneg del: fst_conv snd_conv)
qed

lemma score_refines:
  assumes "served_env L v svc" and "n \<in> set (c_Nodes (v_cfg v))" and "score_select v n"
    and "outlives (v_ctx v) (clock w + node_budget (v_cfg v) n)"
  shows "fst (score_node v s n best w) = reference_score svc (features_of (v_tenantID v) (v_claim v) s) n best \<and>
    clock (snd (score_node v s n best w)) \<le> clock w + node_budget (v_cfg v) n"
proof -
  note call = call_then_policy [OF served_envD(4) [OF assms(1)] served_envD(5,6) [OF assms(1,2)] assms(4),
      of "\<lambda>r w. (Inr r, w)" id, simplified]
  have sel: "\<not> (\<not> dependsOn n groupEnrichment \<or> \<not> EnabledForTenant n (v_tenantID v))"
    using assms(3) by (simp add: score_select_def)
  show ?thesis
    unfolding score_node_def Let_def if_not_P [OF sel] reference_score_def
    by (simp add: call apply_policy_Some stage_exits node_budget_nonneg del: fst_conv snd_conv)
qed

lemma publish_refines:
  assumes "served_env L v svc" and "n \<in> set (c_Nodes (v_cfg v))" and "publish_select v n"
    and "outlives (v_ctx v) (clock w + node_budget (v_cfg v) n)"
    and "\<And>ev. answers_within L (publish_call (v_exec v) ev) (a_Publish svc ev)"
  shows "fst (publish_node v r n status w) = reference_publish svc (event_of v r) n status \<and>
    clock (snd (publish_node v r n status w)) \<le> clock w + node_budget (v_cfg v) n"
proof -
  note call = call_then_policy [OF assms(5) served_envD(5,6) [OF assms(1,2)] assms(4)]
  have sel: "\<not> (\<not> dependsOn n nodeModelScore \<or> \<not> EnabledForTenant n (v_tenantID v))"
    using assms(3) by (simp add: publish_select_def)
  show ?thesis
    unfolding publish_node_def if_not_P [OF sel] reference_publish_def
    by (simp add: call [where ?use = "\<lambda>u. status"] stage_exits node_budget_nonneg)
qed

lemma stage_nodes:
  "filter (enrich_select v) (c_Nodes (v_cfg v)) =
     filter (\<lambda>n. n_DependsOn n = []) (filter (\<lambda>n. EnabledForTenant n (v_tenantID v)) (c_Nodes (v_cfg v)))"
  "filter (score_select v) (c_Nodes (v_cfg v)) =
     filter (\<lambda>n. ''enrichment'' \<in> set (n_DependsOn n)) (filter (\<lambda>n. EnabledForTenant n (v_tenantID v)) (c_Nodes (v_cfg v)))"
  "filter (publish_select v) (c_Nodes (v_cfg v)) =
     filter (\<lambda>n. ''model_score'' \<in> set (n_DependsOn n)) (filter (\<lambda>n. EnabledForTenant n (v_tenantID v)) (c_Nodes (v_cfg v)))"
  by (auto simp: enrich_select_def score_select_def publish_select_def dependsOn_iff
      groupEnrichment_def nodeModelScore_def intro!: filter_cong)

text \<open>A stage over the nodes it selects, given that each of their bodies refines a step.\<close>

lemma stage_refines:
  assumes "range_loop body (c_Nodes cfg) s w = range_loop body (filter P (c_Nodes cfg)) s w"
    and "\<And>n s w. n \<in> set (c_Nodes cfg) \<Longrightarrow> P n \<Longrightarrow> outlives ctx (clock w + node_budget cfg n) \<Longrightarrow>
      fst (body n s w) = step n s \<and> clock (snd (body n s w)) \<le> clock w + node_budget cfg n"
    and "outlives ctx (clock w + sum_list (map (node_budget cfg) (filter P (c_Nodes cfg))))"
  shows "fst (range_loop body (c_Nodes cfg) s w) = foldM step (filter P (c_Nodes cfg)) s"
    and "clock (snd (range_loop body (c_Nodes cfg) s w)) \<le>
      clock w + sum_list (map (node_budget cfg) (filter P (c_Nodes cfg)))"
  using loop_refines [where cost = "node_budget cfg" and ns = "filter P (c_Nodes cfg)" and body = body
      and step = step, OF _ node_budget_nonneg assms(3)] assms(2)
  unfolding assms(1) by auto

lemma event_of_scored:
  "event_of v (Some r) = event_for (v_tenantID v) (v_correlationID v) (v_claim v) r"
  by (simp add: event_of_def event_for_def GetScore_def fun_eq_iff)

text \<open>The three stages, each from its first node to its last.\<close>

abbreviation stage_budget :: "'e run_env \<Rightarrow> (node \<Rightarrow> bool) \<Rightarrow> int" where
  "stage_budget v P \<equiv> sum_list (map (node_budget (v_cfg v)) (filter P (c_Nodes (v_cfg v))))"

lemma enrich_stage_refines:
  assumes "served_env L v svc" and "outlives (v_ctx v) (clock w + stage_budget v (enrich_select v))"
    and "range_loop (enrich_node v) (c_Nodes (v_cfg v)) s w = (x, w')"
  shows "foldM (reference_enrich svc (v_claim v)) (filter (enrich_select v) (c_Nodes (v_cfg v))) s = x"
    and "clock w' \<le> clock w + stage_budget v (enrich_select v)"
  using stage_refines [OF enrich_stage.loop_filter enrich_refines [OF assms(1)] assms(2), of s] assms(3)
  by simp_all

lemma score_stage_refines:
  assumes "served_env L v svc" and "outlives (v_ctx v) (clock w + stage_budget v (score_select v))"
    and "range_loop (score_node v s) (c_Nodes (v_cfg v)) r w = (x, w')"
  shows "foldM (reference_score svc (features_of (v_tenantID v) (v_claim v) s))
      (filter (score_select v) (c_Nodes (v_cfg v))) r = x"
    and "clock w' \<le> clock w + stage_budget v (score_select v)"
  using stage_refines [OF score_stage.loop_filter score_refines [OF assms(1)] assms(2), of s r] assms(3)
  by simp_all

lemma publish_stage_refines:
  assumes "served_env L v svc" and "outlives (v_ctx v) (clock w + stage_budget v (publish_select v))"
    and "range_loop (publish_node v r) (c_Nodes (v_cfg v)) status w = (x, w')"
    and "\<And>ev. answers_within L (publish_call (v_exec v) ev) (a_Publish svc ev)"
  shows "foldM (reference_publish svc (event_of v r)) (filter (publish_select v) (c_Nodes (v_cfg v))) status = x"
    and "clock w' \<le> clock w + stage_budget v (publish_select v)"
  using stage_refines [OF publish_stage.loop_filter publish_refines [OF assms(1) _ _ _ assms(4)] assms(2), of r status] assms(3)
  by simp_all

lemma run_stages_refines:
  assumes "served_env L v svc" and "outlives (v_ctx v) (clock w + dag_budget v)"
    and "\<And>ev. answers_within L (publish_call (v_exec v) ev) (a_Publish svc ev)"
  shows "fst (run_stages v w) =
    (case reference_run svc (v_cfg v) (v_tenantID v) (v_correlationID v) (v_claim v) of
       Inl err \<Rightarrow> (None, Some err) | Inr res \<Rightarrow> (Some res, None))"
proof -
  let ?ns = "c_Nodes (v_cfg v)"
  have nonneg: "0 \<le> stage_budget v P" for P
    by (rule sum_list_nonneg) (auto simp: node_budget_nonneg)
  have "dag_budget v = stage_budget v (enrich_select v) + stage_budget v (score_select v)
      + stage_budget v (publish_select v)"
    by (simp add: dag_budget_def)
  note live = outlives_mono [OF assms(2) [unfolded this]]
  note defs = run_stages_def reference_run_def stage_nodes [symmetric] Let_def result_of_def GetScore_def
  obtain x1 w1 where l1: "range_loop (enrich_node v) ?ns (initial_enrichment (v_claim v)) w = (x1, w1)"
    by fastforce
  have "outlives (v_ctx v) (clock w + stage_budget v (enrich_select v))"
    using nonneg by (intro live) simp
  note r1 = enrich_stage_refines [OF assms(1) this l1]
  show ?thesis
  proof (cases x1)
    case (Inl err)
    with r1 l1 nonneg show ?thesis by (simp add: defs del: filter_filter)
  next
    case x1: (Inr s)
    obtain x2 w2 where l2: "range_loop (score_node v s) ?ns None w1 = (x2, w2)" by fastforce
    have "outlives (v_ctx v) (clock w1 + stage_budget v (score_select v))"
      using nonneg [of "publish_select v"] r1(2) by (intro live) simp
    note r2 = score_stage_refines [OF assms(1) this l2]
    note upto2 = r1 r2 l1 l2 x1
    consider err where "x2 = Inl err" | "x2 = Inr None" | score where "x2 = Inr (Some score)"
      by (metis not_Some_eq sum.exhaust)
    then show ?thesis
    proof cases
      case x2: 3
      obtain x3 w3 where l3: "range_loop (publish_node v (Some score)) ?ns (s_status s) w2 = (x3, w3)"
        by fastforce
      have "outlives (v_ctx v) (clock w2 + stage_budget v (publish_select v))"
        using r1(2) r2(2) by (intro live) simp
      from publish_stage_refines [OF assms(1) this l3 assms(3)] upto2 x2 l3 show ?thesis
        by (cases x3) (simp_all add: defs event_of_scored del: filter_filter)
    qed (use upto2 in \<open>simp_all add: defs del: filter_filter\<close>)
  qed
qed

section \<open>Refinement\<close>

lemma run_reference:
  assumes "loaded e ctx tenantID correlationID claim w = ((Some cfg, None), w0)"
    and "answers_as latency e correlationID svc" and "patient_dag latency cfg"
    and "outlives ctx (clock w0 + dag_budget (run_view e ctx tenantID correlationID claim cfg))"
  shows "fst (Run e ctx tenantID correlationID claim w) =
    (case reference_run svc cfg tenantID correlationID claim of
       Inl err \<Rightarrow> (None, Some err) | Inr res \<Rightarrow> (Some res, None))"
proof -
  let ?v = "run_view e ctx tenantID correlationID claim cfg"
  have "done_at (run_context ctx tenantID correlationID) = done_at ctx"
    by (simp add: run_context_def WithTenantID_def WithCorrelationID_def WithValue_def done_at_def)
  then have "outlives (v_ctx ?v) (clock w0 + dag_budget ?v)"
    using assms(4) by (simp add: outlives_def)
  moreover have "served_env latency ?v svc"
    using assms(2,3) by (simp add: served_env_def answers_as_def)
  moreover have "answers_within latency (publish_call (v_exec ?v) ev) (a_Publish svc ev)" for ev
    using assms(2) by (simp add: answers_as_def)
  moreover have "Run e ctx tenantID correlationID claim w = run_stages ?v w0"
    using assms(1) by (simp add: Run_def Let_def)
  ultimately show ?thesis using run_stages_refines [of latency ?v svc w0] by simp
qed

text \<open>
  (C4) \<open>Run\<close> implements the reference run. Let the services of an executor answer by functions of
  their requests, each within a latency that no node timeout of the loaded DAG undercuts, let
  every node have a non-negative \<open>max_retries\<close>, and let the caller's context outlive the time
  budget of the DAG. Then the result of \<open>Run\<close>, its error included, is the one the reference run
  computes from those functions, whatever the clock, the scheduler, the retries, the contexts'
  other contents and the state of the services are.
\<close>

theorem Run_refines_reference:
  assumes "loaded e ctx tenantID correlationID claim w = ((Some cfg, None), w0)"
    and "answers_as latency e correlationID svc" and "patient_dag latency cfg"
    and "outlives ctx (clock w0 + dag_budget (run_view e ctx tenantID correlationID claim cfg))"
  shows "fst (Run e ctx tenantID correlationID claim w) =
    (case reference_run svc cfg tenantID correlationID claim of
       Inl err \<Rightarrow> (None, Some err) | Inr res \<Rightarrow> (Some res, None))"
  using assms by (rule run_reference)

section \<open>The shipped DAG in closed form\<close>

lemma acme_patient: "patient_dag 40000000 acme_config"
  by (simp add: patient_dag_def acme_config_def acme_nodes_def sint_nodeTimeout)

lemma acme_budget: "dag_budget (run_view e ctx tenantID correlationID claim acme_config) = 480000000"
  by (simp add: dag_budget_def enrich_select_def score_select_def publish_select_def acme_config_def acme_nodes_def
      node_budget_def sint_nodeTimeout sint_retryBackoff go_run)

text \<open>What is left of an answer once a failure is tolerated.\<close>

definition good_or :: "'a \<Rightarrow> gerror + 'a \<Rightarrow> 'a" where
  "good_or d ans = (case ans of Inr r \<Rightarrow> r | Inl err \<Rightarrow> d)"

definition failed :: "gerror + 'a \<Rightarrow> bool" where
  "failed ans \<longleftrightarrow> (case ans of Inl err \<Rightarrow> True | Inr r \<Rightarrow> False)"

definition raw_address :: "ClaimEvent option \<Rightarrow> NormalizeResponse" where
  "raw_address claim = \<lparr>nr_NormalizedAddress = get_str ce_RawAddress claim, nr_Line1 = '''', nr_City = '''',
     nr_State = '''', nr_PostalCode = '''', nr_Country = '''', nr_Valid = False\<rparr>"

definition no_policy :: LookupPolicyResponse where
  "no_policy = \<lparr>lr_Found = False, lr_Status = '''', lr_CoverageType = ''''\<rparr>"

text \<open>The features the model is asked about.\<close>

definition acme_features :: "services \<Rightarrow> string \<Rightarrow> ClaimEvent option \<Rightarrow> string \<Rightarrow> (string \<rightharpoonup> string)" where
  "acme_features svc tenantID claim h =
     (let address = good_or (raw_address claim) (a_Normalize svc (get_str ce_RawAddress claim));
          policy = good_or no_policy (a_Lookup svc (get_str ce_PolicyNumber claim))
      in [''tenant_id'' \<mapsto> tenantID, ''product'' \<mapsto> get_str ce_Product claim,
          ''event_type'' \<mapsto> get_str ce_EventType claim, ''policy_number'' \<mapsto> get_str ce_PolicyNumber claim,
          ''claimant_id_hash'' \<mapsto> h, ''normalized_address'' \<mapsto> nr_NormalizedAddress address,
          ''policy_status'' \<mapsto> lr_Status policy, ''policy_coverage_type'' \<mapsto> lr_CoverageType policy,
          ''address_valid'' \<mapsto> FormatBool (nr_Valid address)])"

definition acme_outcome ::
  "services \<Rightarrow> string \<Rightarrow> string \<Rightarrow> ClaimEvent option \<Rightarrow> dag_result option \<times> gerror option"
where
  "acme_outcome svc tenantID correlationID claim =
     (let address = a_Normalize svc (get_str ce_RawAddress claim);
          policy = a_Lookup svc (get_str ce_PolicyNumber claim);
          enriched = (if failed address \<or> failed policy then ''degraded'' else ''scored'')
      in case a_Hash svc (get_str ce_ClaimantName claim) of
           Inl err \<Rightarrow> (None, Some err)
         | Inr h \<Rightarrow>
             (case a_Score svc (acme_features svc tenantID claim (hr_ClaimantIdHash h)) of
                Inl err \<Rightarrow> (None, Some err)
              | Inr score \<Rightarrow>
                  (Some \<lparr>r_Status = (if failed (a_Publish svc (event_for tenantID correlationID claim score enriched))
                                   then ''degraded'' else enriched),
                         r_NormalizedAddress = nr_NormalizedAddress (good_or (raw_address claim) address),
                         r_FraudScore = sr_Score score, r_ModelVersion = sr_ModelVersion score\<rparr>, None)))"

lemma acme_reference:
  "(case reference_run svc acme_config tenantID correlationID claim of
      Inl err \<Rightarrow> (None, Some err) | Inr res \<Rightarrow> (Some res, None)) =
   acme_outcome svc tenantID correlationID claim"
proof -
  let ?h = "a_Hash svc (get_str ce_ClaimantName claim)"
  let ?a = "a_Normalize svc (get_str ce_RawAddress claim)"
  let ?p = "a_Lookup svc (get_str ce_PolicyNumber claim)"
  note defs = reference_run_def acme_config_def acme_nodes_def reference_enrich_def reference_score_def
    reference_publish_def apply_policy_def initial_enrichment_def acme_outcome_def good_or_def failed_def
    EnabledForTenant_iff handled_def EffectiveOnFailure_def OnFailureSkip_def OnFailureDegrade_def OnFailureFailFast_def
    raw_address_def no_policy_def Let_def
  show ?thesis
    by (cases ?h; cases ?a; cases ?p) (simp_all add: defs acme_features_def features_of_def split: sum.split)
qed

text \<open>
  (C5) A run of the shipped DAG in closed form. When the five services answer by functions of
  their requests within 40 ms and the caller's context outlives 480 ms, the run fails exactly
  when the hashing service or the Model Service does, with its error; otherwise it returns the score of the
  Model Service for the features the answers determine, with the status \<open>degraded\<close> exactly when
  the address, policy or publish call failed, and the raw address in place of a missing one.
\<close>

theorem shipped_run_outcome:
  assumes "loaded e ctx tenantID correlationID claim w = ((Some acme_config, None), w0)"
    and "answers_as 40000000 e correlationID svc" and "outlives ctx (clock w0 + 480000000)"
  shows "fst (Run e ctx tenantID correlationID claim w) = acme_outcome svc tenantID correlationID claim"
  using run_reference [OF assms(1,2) acme_patient] assms(3) by (simp add: acme_budget acme_reference)

text \<open>
  Services that take their time: the hash needs 30 ms, the address 40 ms, the policy lookup fails
  after 10 ms on every attempt, and the caller is the gateway with its five seconds.
\<close>

definition delayed :: "int \<Rightarrow> 'a \<times> gerror option \<Rightarrow> ('a, 'e) go_call" where
  "delayed ns r w = (r, w\<lparr>clock := clock w + ns\<rparr>)"

definition slow_executor :: "'e executor" where
  "slow_executor = (prompt_executor acme_config)
     \<lparr>x_Hash := (\<lambda>c k n. delayed 30000000 (Some \<lparr>hr_ClaimantIdHash = ''deadbeef''\<rparr>, None)),
      x_Normalize := (\<lambda>c k a. delayed 40000000 (Some smoke_address, None)),
      x_Lookup := (\<lambda>c k p. delayed 10000000 (None, Some unavailable))\<rparr>"

definition slow_services :: services where
  "slow_services =
     \<lparr>a_Hash = (\<lambda>n. Inr \<lparr>hr_ClaimantIdHash = ''deadbeef''\<rparr>),
      a_Normalize = (\<lambda>a. Inr smoke_address), a_Lookup = (\<lambda>p. Inl unavailable),
      a_Score = (\<lambda>fs. Inr \<lparr>sr_Score = hundredths (risk_cents fs), sr_ModelVersion = ModelVersion\<rparr>),
      a_Publish = (\<lambda>ev. Inr ())\<rparr>"

definition gateway_context :: gcontext where
  "gateway_context = WithTimeout Background 0 (5 * Second)"

lemma slow_answers: "answers_as 40000000 slow_executor k slow_services"
  by (auto simp: answers_as_def enriches_as_def answers_within_def slow_executor_def slow_services_def prompt_executor_def delayed_def
      publish_call_def ModelServer_Score_eq)

lemma gateway_context_outlives: "outlives gateway_context 480000000"
proof -
  have "done_at Background = None" by (simp add: done_at_def Background_def)
  then show ?thesis
    by (simp add: outlives_def gateway_context_def done_at_WithTimeout Second_def Millisecond_def)
qed

lemma slow_loaded:
  "loaded slow_executor ctx t k claim w = ((Some acme_config, None), w)"
  by (simp add: slow_executor_def prompt_executor_def)

lemma slow_outcome:
  "acme_outcome slow_services ''acme_insurance'' ''corr-1'' (Some smoke_claim) =
    (Some \<lparr>r_Status = ''degraded'', r_NormalizedAddress = ''123 MAIN ST, SPRINGFIELD, IL, 62704, US'',
      r_FraudScore = hundredths 40, r_ModelVersion = ''rules-v1''\<rparr>, None)"
  by (simp add: acme_outcome_def acme_features_def slow_services_def smoke_address_def good_or_def failed_def
      no_policy_def go_run)

theorem shipped_run_outcome_witness:
  "fst (Run slow_executor gateway_context ''acme_insurance'' ''corr-1'' (Some smoke_claim) quiet_world) =
    (Some \<lparr>r_Status = ''degraded'', r_NormalizedAddress = ''123 MAIN ST, SPRINGFIELD, IL, 62704, US'',
      r_FraudScore = hundredths 40, r_ModelVersion = ''rules-v1''\<rparr>, None)"
  using shipped_run_outcome [OF slow_loaded slow_answers, of gateway_context quiet_world] gateway_context_outlives
  by (simp add: slow_outcome quiet_world_def)

theorem Run_refines_reference_witness:
  "fst (Run slow_executor gateway_context ''acme_insurance'' ''corr-1'' (Some smoke_claim) quiet_world) =
   (case reference_run slow_services acme_config ''acme_insurance'' ''corr-1'' (Some smoke_claim) of
      Inl err \<Rightarrow> (None, Some err) | Inr res \<Rightarrow> (Some res, None)) \<and>
   (\<exists>res. reference_run slow_services acme_config ''acme_insurance'' ''corr-1'' (Some smoke_claim) = Inr res \<and>
      r_Status res = ''degraded'')"
proof -
  have live: "outlives gateway_context (clock quiet_world +
      dag_budget (run_view slow_executor gateway_context ''acme_insurance'' ''corr-1'' (Some smoke_claim) acme_config))"
    using gateway_context_outlives by (simp add: acme_budget quiet_world_def)
  have "reference_run slow_services acme_config ''acme_insurance'' ''corr-1'' (Some smoke_claim) =
    Inr \<lparr>r_Status = ''degraded'', r_NormalizedAddress = ''123 MAIN ST, SPRINGFIELD, IL, 62704, US'',
      r_FraudScore = hundredths 40, r_ModelVersion = ''rules-v1''\<rparr>"
    using acme_reference [of slow_services "''acme_insurance''" "''corr-1''" "Some smoke_claim"]
    by (simp add: slow_outcome split: sum.splits)
  with Run_refines_reference [OF slow_loaded slow_answers acme_patient live] show ?thesis by simp
qed

end
