(* ===== verification/Network.thy ===== *)
theory Network
  imports Platform ExecutorEffects ExecutorSpec
begin

text \<open>
  The gRPC runtime below the interceptors, as a parameter: a transport takes the handler of a server to the
  calls of its clients. Two contracts say what is relied on. \<open>at_most_once\<close> is for safety: a call reaches the
  server once or never, and nothing is known of the answer. \<open>delivers_within\<close> is for liveness: the answer
  of the server arrives if it can do so before the deadline of the caller; past the deadline, anything may happen.
\<close>

section \<open>Transports\<close>

type_synonym ('req, 'resp, 'e) transport =
  "(gcontext \<Rightarrow> 'req \<Rightarrow> ('resp option, 'e) go_call) \<Rightarrow> gcontext \<Rightarrow> 'req \<Rightarrow> ('resp option, 'e) go_call"

text \<open>The invoker below a client's interceptor; \<open>serve\<close> is the server, which sees the method it is called by.\<close>

definition over ::
  "('req, 'resp, 'e) transport \<Rightarrow> (string \<Rightarrow> gcontext \<Rightarrow> 'req \<Rightarrow> ('resp option, 'e) go_call) \<Rightarrow>
     gcontext \<Rightarrow> string \<Rightarrow> 'req \<Rightarrow> ('resp option, 'e) go_call"
where
  "over T serve ctx m req = T (serve m) ctx req"

text \<open>The server's context: the caller's outgoing metadata, none of its values, some deadline and cancellation.\<close>

definition arrives_as :: "gcontext \<Rightarrow> gcontext \<Rightarrow> bool" where
  "arrives_as ctx c \<longleftrightarrow> (\<exists>d x. c = (received ctx)\<lparr>deadline := d, cancelled_at := x\<rparr>)"

text \<open>
  The first contract. Other requests, of which \<open>G\<close> is known, may add messages to the topic while the call is under way.
\<close>

definition at_most_once ::
  "('e \<Rightarrow> kafka_message list) \<Rightarrow> (kafka_message \<Rightarrow> bool) \<Rightarrow> ('req, 'resp, 'e) transport \<Rightarrow> bool"
where
  "at_most_once topic G T \<longleftrightarrow>
     (\<forall>serve ctx req w. sends topic G w (snd (T serve ctx req w)) \<or>
        (\<exists>c w1. arrives_as ctx c \<and> sends topic G w w1 \<and> sends topic G (snd (serve c req w1)) (snd (T serve ctx req w))))"

text \<open>
  The second contract. The call reaches the server in a world \<open>w1\<close>, in a context that is not done before the caller's
  is, and its answer the client in a world \<open>w2\<close>; what is not spent by the server is at most \<open>latency\<close>.
\<close>

definition delivers_within :: "int \<Rightarrow> ('req, 'resp, 'e) transport \<Rightarrow> bool" where
  "delivers_within latency T \<longleftrightarrow>
     (\<forall>serve ctx req w. \<exists>c w1 w2. arrives_as ctx c \<and> (\<forall>t. outlives ctx t \<longrightarrow> outlives c t) \<and>
        (case serve c req w1 of
           (r, w') \<Rightarrow> clock w \<le> clock w1 \<and> clock w' \<le> clock w2 \<and> (clock w1 - clock w) + (clock w2 - clock w') \<le> latency \<and>
             (outlives ctx (clock w2) \<longrightarrow> T serve ctx req w = (r, w2))))"

section \<open>Contexts across a call\<close>

lemma done_at_cong:
  "deadline c = deadline c' \<Longrightarrow> cancelled_at c = cancelled_at c' \<Longrightarrow> done_at c = done_at c'"
  by (simp add: done_at_def)

lemma done_at_simps [simp]:
  "done_at (client_context ctx) = done_at ctx" "done_at (received ctx) = done_at ctx"
  "done_at (server_context ctx) = done_at ctx" "done_at (WithCorrelationID ctx k) = done_at ctx"
  "done_at (WithTenantID ctx t) = done_at ctx" "done_at (run_context ctx t k) = done_at ctx"
  by (rule done_at_cong; simp add: client_context_def received_def server_context_def WithTenantID_def WithCorrelationID_def
      run_context_def WithValue_def Let_def split: option.split)+

text \<open>The server recovers the identity of the caller, whatever the deadline it works in.\<close>

lemma server_context_update:
  "server_context (c\<lparr>deadline := d, cancelled_at := x\<rparr>) = (server_context c)\<lparr>deadline := d, cancelled_at := x\<rparr>"
  by (simp add: server_context_def WithTenantID_def WithCorrelationID_def WithValue_def Let_def split: option.split)

lemma arrives_identity:
  assumes "arrives_as (client_context ctx) c" and "outgoing_md ctx = []"
  shows "TenantIDFrom (server_context c) = TenantIDFrom ctx" "CorrelationIDFrom (server_context c) = CorrelationIDFrom ctx"
proof -
  obtain d x where c: "c = (received (client_context ctx))\<lparr>deadline := d, cancelled_at := x\<rparr>"
    using assms(1) by (auto simp: arrives_as_def)
  have "TenantIDFrom (a\<lparr>deadline := d, cancelled_at := x\<rparr>) = TenantIDFrom a"
    "CorrelationIDFrom (a\<lparr>deadline := d, cancelled_at := x\<rparr>) = CorrelationIDFrom a" for a
    by (simp_all add: TenantIDFrom_def CorrelationIDFrom_def ctx_Value_def)
  then show "TenantIDFrom (server_context c) = TenantIDFrom ctx" "CorrelationIDFrom (server_context c) = CorrelationIDFrom ctx"
    using orchestration_link.handler_identity [OF assms(2)] by (simp_all add: c server_context_update)
qed

lemma arrives_received: "arrives_as ctx (received ctx)"
  unfolding arrives_as_def by (intro exI [of _ "deadline ctx"] exI [of _ "cancelled_at ctx"]) (simp add: received_def)

lemma outlives_simps [simp]:
  "outlives (client_context ctx) t = outlives ctx t" "outlives (received ctx) t = outlives ctx t"
  "outlives (server_context ctx) t = outlives ctx t" "outlives (WithCorrelationID ctx k) t = outlives ctx t"
  "outlives (run_context ctx tenant k) t = outlives ctx t"
  by (simp_all add: outlives_def)

section \<open>Calls over a transport\<close>

lemma stub_env: "env (snd (stub l invoker m ctx req w)) = env (snd (invoker (client_context ctx) m req w))"
  and stub_clock: "clock (snd (stub l invoker m ctx req w)) = clock (snd (invoker (client_context ctx) m req w))"
  and stub_fst_invoker: "fst (stub l invoker m ctx req w) = fst (invoker (client_context ctx) m req w)"
  by (simp_all add: stub_def UnaryClientInterceptor_def Let_def split: prod.split option.split)

text \<open>Safety: what a call sends is what its server sends.\<close>

lemma call_sends:
  assumes "at_most_once topic G T" and "\<And>m'. G m' \<Longrightarrow> P m'"
    and "\<And>c w1. arrives_as (client_context ctx) c \<Longrightarrow> sends topic P w1 (snd (serve m c req w1))"
  shows "sends topic P w (snd (stub l (over T serve) m ctx req w))"
proof -
  let ?c = "client_context ctx"
  have G: "sends topic P w1 w2" if "sends topic G w1 w2" for w1 w2
    using that assms(2) by (rule sends_mono)
  have "sends topic P w (snd (T (serve m) ?c req w))"
    using assms(1) [unfolded at_most_once_def, rule_format, where serve = "serve m" and ctx = ?c and req = req and w = w]
  proof
    assume "\<exists>c w1. arrives_as ?c c \<and> sends topic G w w1 \<and> sends topic G (snd (serve m c req w1)) (snd (T (serve m) ?c req w))"
    then obtain c w1 where c: "arrives_as ?c c" "sends topic G w w1"
      "sends topic G (snd (serve m c req w1)) (snd (T (serve m) ?c req w))" by blast
    show ?thesis by (rule topic_growth.rel_trans [OF G [OF c(2)] topic_growth.rel_trans [OF assms(3) [OF c(1)] G [OF c(3)]]])
  qed (rule G)
  then show ?thesis by (simp add: sends_def stub_env over_def)
qed

text \<open>Liveness: a call whose server takes at most \<open>busy\<close>, in a context that outlives it, is answered by the server.\<close>

lemma call_delivers:
  assumes "delivers_within latency T"
    and "\<And>c w1. arrives_as (client_context ctx) c \<Longrightarrow> (\<And>t. outlives ctx t \<Longrightarrow> outlives c t) \<Longrightarrow>
      clock w \<le> clock w1 \<Longrightarrow> clock w1 \<le> clock w + latency \<Longrightarrow> clock (snd (serve m c req w1)) \<le> clock w1 + busy"
    and "outlives ctx (clock w + latency + busy)"
  obtains c w1 where "arrives_as (client_context ctx) c" "\<And>t. outlives ctx t \<Longrightarrow> outlives c t"
    "clock w \<le> clock w1" "clock w1 \<le> clock w + latency"
    "fst (stub l (over T serve) m ctx req w) = fst (serve m c req w1)"
    "clock (snd (serve m c req w1)) \<le> clock (snd (stub l (over T serve) m ctx req w))"
    "clock (snd (stub l (over T serve) m ctx req w)) \<le> clock w + latency + busy"
proof -
  let ?c = "client_context ctx"
  obtain c w1 w2 where c: "arrives_as ?c c" "\<forall>t. outlives ?c t \<longrightarrow> outlives c t" and deliver: "case serve m c req w1 of
      (r, w') \<Rightarrow> clock w \<le> clock w1 \<and> clock w' \<le> clock w2 \<and> (clock w1 - clock w) + (clock w2 - clock w') \<le> latency \<and>
        (outlives ?c (clock w2) \<longrightarrow> T (serve m) ?c req w = (r, w2))"
    using assms(1) [unfolded delivers_within_def, THEN spec [of _ "serve m"], THEN spec [of _ ?c], THEN spec [of _ req], THEN spec [of _ w]]
    by (elim exE conjE) (rule that)
  have c2: "outlives c t" if "outlives ctx t" for t using c(2) that by simp
  obtain r w' where r: "serve m c req w1 = (r, w')" by fastforce
  note s = r deliver [unfolded r prod.case, THEN conjunct1] deliver [unfolded r prod.case, THEN conjunct2, THEN conjunct1]
    deliver [unfolded r prod.case, THEN conjunct2, THEN conjunct2, THEN conjunct1]
    deliver [unfolded r prod.case, THEN conjunct2, THEN conjunct2, THEN conjunct2]
  have w1: "clock w1 \<le> clock w + latency" using s by simp
  from assms(2) [OF c(1) c2 s(2) this] s(1) have "clock w' \<le> clock w1 + busy" by simp
  then have w2: "clock w2 \<le> clock w + latency + busy" using s by simp
  have "outlives ?c (clock w2)" using outlives_mono [OF assms(3) w2] by simp
  with s(5) have "T (serve m) ?c req w = (r, w2)" by blast
  with s(1-3) w1 w2 c(1) c2 show ?thesis by (intro that [of c w1]) (simp_all add: stub_fst_invoker stub_clock over_def)
qed

text \<open>A server that answers at once, by a function of the request.\<close>

lemma instant_call:
  assumes "delivers_within latency T"
    and "\<And>c w. fst (serve m c req w) = r \<and> clock (snd (serve m c req w)) = clock w"
    and "outlives ctx (clock w + latency)"
  shows "fst (stub l (over T serve) m ctx req w) = r"
    and "clock w \<le> clock (snd (stub l (over T serve) m ctx req w))"
    and "clock (snd (stub l (over T serve) m ctx req w)) \<le> clock w + latency"
proof -
  have live: "outlives ctx (clock w + latency + 0)" using assms(3) by simp
  obtain c w1 where "fst (stub l (over T serve) m ctx req w) = fst (serve m c req w1)"
    "clock w \<le> clock w1" "clock (snd (serve m c req w1)) \<le> clock (snd (stub l (over T serve) m ctx req w))"
    "clock (snd (stub l (over T serve) m ctx req w)) \<le> clock w + latency + 0"
    by (rule call_delivers [where serve = serve and m = m and req = req and l = l, OF assms(1) _ live]) (simp_all add: assms(2))
  with assms(2) show "fst (stub l (over T serve) m ctx req w) = r"
    "clock w \<le> clock (snd (stub l (over T serve) m ctx req w))"
    "clock (snd (stub l (over T serve) m ctx req w)) \<le> clock w + latency" by simp_all
qed

lemma instant_answers:
  assumes "delivers_within latency T" and "latency < patience"
    and "\<And>c w. fst (serve m c req w) = (x, None) \<and> clock (snd (serve m c req w)) = clock w"
  shows "answers_within patience (\<lambda>c. stub l (over T serve) m c req) (Inr x)"
  unfolding answers_within_def
proof (intro allI impI)
  fix c w r w'
  assume live: "\<forall>d. done_at c = Some d \<longrightarrow> clock w + patience \<le> d" and call: "stub l (over T serve) m c req w = (r, w')"
  have "outlives c (clock w + latency)" using live assms(2) by (auto simp: outlives_def split: option.split)
  note at = instant_call [where T = T and serve = serve and m = m and ctx = c and req = req and w = w and l = l, OF assms(1) assms(3) this]
  from at(1,3) call assms(2) show "(case Inr x of Inr x \<Rightarrow> r = (x, None) | Inl err \<Rightarrow> snd r = Some err) \<and> clock w' \<le> clock w + patience"
    by simp
qed

text \<open>A Go server answers as its handler does, and at the same time.\<close>

lemma server_fst: "fst (UnaryServerInterceptor (Some l) m handler ctx req w) = fst (handler (server_context ctx) req w)"
  and server_clock: "clock (snd (UnaryServerInterceptor (Some l) m handler ctx req w)) = clock (snd (handler (server_context ctx) req w))"
  and server_env: "env (snd (UnaryServerInterceptor (Some l) m handler ctx req w)) = env (snd (handler (server_context ctx) req w))"
  by (simp_all add: UnaryServerInterceptor_def Let_def split: prod.split option.split)

section \<open>An example\<close>

text \<open>A network that takes 10 ms each way and gives up at the deadline of the caller, and meets both contracts.\<close>

definition slow_transport :: "('req, 'resp, 'e) transport" where
  "slow_transport serve ctx req w =
     (case serve (received ctx) req (w\<lparr>clock := clock w + 10000000\<rparr>) of
        (r, w') \<Rightarrow>
          (let t = clock w' + 10000000 in
           case done_at ctx of
             None \<Rightarrow> (r, w'\<lparr>clock := t\<rparr>)
           | Some d \<Rightarrow>
               if t < d then (r, w'\<lparr>clock := t\<rparr>)
               else ((None, Some (StatusError (OtherCode 4) [Lit ''context deadline exceeded''])), w'\<lparr>clock := max (clock w) d\<rparr>)))"

lemma slow_transport_within: "delivers_within 20000000 (slow_transport :: ('req, 'resp, 'e) transport)"
  unfolding delivers_within_def
proof (intro allI)
  fix serve :: "gcontext \<Rightarrow> 'req \<Rightarrow> ('resp option, 'e) go_call" and ctx req and w :: "'e world"
  let ?w1 = "w\<lparr>clock := clock w + 10000000\<rparr>"
  obtain r w' where s: "serve (received ctx) req ?w1 = (r, w')" by fastforce
  then show "\<exists>c w1 w2. arrives_as ctx c \<and> (\<forall>t. outlives ctx t \<longrightarrow> outlives c t) \<and>
        (case serve c req w1 of
           (r, w') \<Rightarrow> clock w \<le> clock w1 \<and> clock w' \<le> clock w2 \<and> (clock w1 - clock w) + (clock w2 - clock w') \<le> 20000000 \<and>
             (outlives ctx (clock w2) \<longrightarrow> slow_transport serve ctx req w = (r, w2)))"
    by (intro exI [of _ "received ctx"] exI [of _ ?w1] exI [of _ "w'\<lparr>clock := clock w' + 10000000\<rparr>"])
      (auto simp: slow_transport_def arrives_received outlives_def Let_def split: option.splits)
qed

lemma slow_transport_once: "at_most_once topic G (slow_transport :: ('req, 'resp, 'e) transport)"
proof -
  have "\<exists>c w1. arrives_as ctx c \<and> sends topic G w w1 \<and> sends topic G (snd (serve c req w1)) (snd (slow_transport serve ctx req w))"
    for serve :: "gcontext \<Rightarrow> 'req \<Rightarrow> ('resp option, 'e) go_call" and ctx req and w :: "'e world"
  proof -
    let ?w1 = "w\<lparr>clock := clock w + 10000000\<rparr>"
    obtain r w' where s: "serve (received ctx) req ?w1 = (r, w')" by fastforce
    then have "env (snd (slow_transport serve ctx req w)) = env w'"
      by (simp add: slow_transport_def Let_def split: option.split)
    with s show ?thesis
      by (intro exI [of _ "received ctx"] exI [of _ ?w1]) (simp add: arrives_received sends_nothing)
  qed
  then show ?thesis unfolding at_most_once_def by blast
qed

end
