(* ===== verification/Shipped.thy ===== *)
theory Shipped
  imports Network
begin

text \<open>
  The platform put together: the gateway, the Orchestration Service, the Model Service, the Tenant Config
  Service and the three Java services, behind the methods the entry points register. The parameters are
  what is outside the repository: the gRPC runtime between the services, the case mappings and the digest of the Java
  runtime, the Kafka writer, the file system and the YAML library.
\<close>

section \<open>Wiring\<close>

text \<open>The transports of the seven connections.\<close>

record 'e network =
  n_GetTenant :: "(GetTenantRequest, TenantContext, 'e) transport"
  n_GetDagVersion :: "(GetDagVersionRequest, GetDagVersionResponse, 'e) transport"
  n_Normalize :: "(NormalizeRequest, NormalizeResponse, 'e) transport"
  n_HashClaimantId :: "(HashClaimantIdRequest, HashClaimantIdResponse, 'e) transport"
  n_LookupPolicy :: "(LookupPolicyRequest, LookupPolicyResponse, 'e) transport"
  n_Score :: "(ScoreRequest, ScoreResponse, 'e) transport"
  n_ProcessClaim :: "(ProcessClaimRequest, ProcessClaimResponse, 'e) transport"

record 'e externals =
  xt_network :: "'e network"
  xt_toUpperCase :: "string \<Rightarrow> string"
  xt_toLowerCase :: "string \<Rightarrow> string"
  xt_sha256 :: "string \<Rightarrow> 8 word list"
  xt_WriteMessages :: "'e write_messages"
  xt_ReadFile :: "'e \<Rightarrow> string \<Rightarrow> gerror + string"
  xt_Unmarshal :: "string \<Rightarrow> gerror + config"

text \<open>A server of the Go services, behind their interceptor.\<close>

abbreviation go_server ::
  "string \<Rightarrow> (logger \<Rightarrow> gcontext \<Rightarrow> 'req \<Rightarrow> ('resp option, 'e) go_call) \<Rightarrow> string \<Rightarrow> gcontext \<Rightarrow> 'req \<Rightarrow> ('resp option, 'e) go_call"
where
  "go_server service handler \<equiv> (\<lambda>m. UnaryServerInterceptor (Some (NewLogger service)) m (handler (NewLogger service)))"

definition platform_backends :: "'e externals \<Rightarrow> store \<Rightarrow> 'e backends" where
  "platform_backends x st =
     (let lo = NewLogger ''orchestration-service''; net = xt_network x
      in \<lparr>b_GetDagVersion = stub lo (over (n_GetDagVersion net) (go_server ''tenant-config-svc'' (\<lambda>l. Server_GetDagVersion st (Some l))))
            ''/tenantconfig.v1.TenantConfigService/GetDagVersion'',
          b_Normalize = stub lo (over (n_Normalize net) (\<lambda>m. AddressNormalizationGrpcService_normalize (xt_toUpperCase x)))
            ''/addressnorm.v1.AddressNormalizationService/Normalize'',
          b_HashClaimantId = stub lo (over (n_HashClaimantId net)
              (\<lambda>m. ClaimantIdHashingGrpcService_hashClaimantId (xt_toLowerCase x) (xt_sha256 x)))
            ''/claimantidhash.v1.ClaimantIdHashingService/HashClaimantId'',
          b_LookupPolicy = stub lo (over (n_LookupPolicy net) (\<lambda>m. PolicyLookupGrpcService_lookupPolicy (xt_toUpperCase x)))
            ''/policylookup.v1.PolicyLookupService/LookupPolicy'',
          b_Score = stub lo (over (n_Score net) (go_server ''model-service'' (\<lambda>l. ModelServer_Score (Some l)))) ''/model.v1.ModelService/Score'',
          b_WriteMessages = xt_WriteMessages x, b_ReadFile = xt_ReadFile x, b_Unmarshal = xt_Unmarshal x\<rparr>)"

definition platform_executor :: "'e externals \<Rightarrow> store \<Rightarrow> string \<Rightarrow> string \<Rightarrow> 'e executor" where
  "platform_executor x st broker dir = orchestration_executor (platform_backends x st) broker dir"

definition platform_gateway :: "'e externals \<Rightarrow> store \<Rightarrow> string \<Rightarrow> string \<Rightarrow> 'e claims_handler" where
  "platform_gateway x st broker dir =
     (let lg = NewLogger ''claims-gateway''; net = xt_network x
      in \<lparr>h_GetTenant = TenantConfigClient_GetTenant
            (stub lg (over (n_GetTenant net) (go_server ''tenant-config-svc'' (\<lambda>l. Server_GetTenant st (Some l))))
               ''/tenantconfig.v1.TenantConfigService/GetTenant''),
          h_ProcessClaim = OrchestrationClient_ProcessClaim
            (stub lg (over (n_ProcessClaim net)
                (go_server ''orchestration-service'' (\<lambda>l. ProcessClaim (platform_executor x st broker dir))))
               ''/orchestration.v1.OrchestrationService/ProcessClaim''),
          h_Logger = Some lg\<rparr>)"

text \<open>The two contracts of \<open>Network\<close> for all seven connections.\<close>

definition network_safe :: "('e \<Rightarrow> kafka_message list) \<Rightarrow> (kafka_message \<Rightarrow> bool) \<Rightarrow> 'e network \<Rightarrow> bool" where
  "network_safe topic G net \<longleftrightarrow>
     at_most_once topic G (n_GetTenant net) \<and> at_most_once topic G (n_GetDagVersion net) \<and>
     at_most_once topic G (n_Normalize net) \<and> at_most_once topic G (n_HashClaimantId net) \<and>
     at_most_once topic G (n_LookupPolicy net) \<and> at_most_once topic G (n_Score net) \<and>
     at_most_once topic G (n_ProcessClaim net)"

definition network_prompt :: "int \<Rightarrow> 'e network \<Rightarrow> bool" where
  "network_prompt latency net \<longleftrightarrow>
     delivers_within latency (n_GetTenant net) \<and> delivers_within latency (n_GetDagVersion net) \<and>
     delivers_within latency (n_Normalize net) \<and> delivers_within latency (n_HashClaimantId net) \<and>
     delivers_within latency (n_LookupPolicy net) \<and> delivers_within latency (n_Score net) \<and>
     delivers_within latency (n_ProcessClaim net)"

section \<open>What the services answer\<close>

lemmas service_defs = Server_GetTenant_def Server_GetDagVersion_def ModelServer_Score_eq Let_def
  AddressNormalizationGrpcService_normalize_def ClaimantIdHashingGrpcService_hashClaimantId_def
  PolicyLookupGrpcService_lookupPolicy_def

text \<open>They answer at once and leave everything but the log as it was.\<close>

lemma service_frame:
  "clock (snd (Server_GetTenant st l c tq w)) = clock w" "env (snd (Server_GetTenant st l c tq w)) = env w"
  "clock (snd (Server_GetDagVersion st l c q w)) = clock w" "env (snd (Server_GetDagVersion st l c q w)) = env w"
  "clock (snd (ModelServer_Score l c sq w)) = clock w" "env (snd (ModelServer_Score l c sq w)) = env w"
  "clock (snd (AddressNormalizationGrpcService_normalize U c nq w)) = clock w"
  "env (snd (AddressNormalizationGrpcService_normalize U c nq w)) = env w"
  "clock (snd (ClaimantIdHashingGrpcService_hashClaimantId L sha c hq w)) = clock w"
  "env (snd (ClaimantIdHashingGrpcService_hashClaimantId L sha c hq w)) = env w"
  "clock (snd (PolicyLookupGrpcService_lookupPolicy U c lq w)) = clock w"
  "env (snd (PolicyLookupGrpcService_lookupPolicy U c lq w)) = env w"
  by (simp_all add: service_defs split: option.split)

lemmas platform_defs = platform_executor_def orchestration_executor_def platform_backends_def Let_def

definition normalized_answer :: "'e externals \<Rightarrow> string \<Rightarrow> NormalizeResponse" where
  "normalized_answer x a =
     (let n = AddressNormalizer_normalize (xt_toUpperCase x) (Some a)
      in \<lparr>nr_NormalizedAddress = nm_normalizedAddress n, nr_Line1 = nm_line1 n, nr_City = nm_city n, nr_State = nm_state n,
          nr_PostalCode = nm_postalCode n, nr_Country = nm_country n, nr_Valid = nm_valid n\<rparr>)"

definition policy_answer :: "'e externals \<Rightarrow> string \<Rightarrow> LookupPolicyResponse" where
  "policy_answer x p =
     (let r = PolicyLookup_lookup (xt_toUpperCase x) (Some p)
      in \<lparr>lr_Found = pl_found r, lr_Status = pl_status r, lr_CoverageType = pl_coverageType r\<rparr>)"

text \<open>The services as functions of their requests, the publisher left aside.\<close>

definition shipped_services :: "'e externals \<Rightarrow> services" where
  "shipped_services x =
     \<lparr>a_Hash = (\<lambda>n. Inr \<lparr>hr_ClaimantIdHash = ClaimantIdHasher_hash (xt_toLowerCase x) (xt_sha256 x) (Some n)\<rparr>),
      a_Normalize = (\<lambda>a. Inr (normalized_answer x a)), a_Lookup = (\<lambda>p. Inr (policy_answer x p)),
      a_Score = (\<lambda>fs. Inr \<lparr>sr_Score = hundredths (risk_cents fs), sr_ModelVersion = ModelVersion\<rparr>),
      a_Publish = (\<lambda>ev. Inr ())\<rparr>"

lemma platform_enriches:
  assumes "network_prompt latency (xt_network x)" and "latency < 40000000"
  shows "enriches_as 40000000 (platform_executor x st broker dir) k (shipped_services x)"
  using assms unfolding enriches_as_def network_prompt_def
  by (auto simp: platform_defs shipped_services_def AddressNormClient_Normalize_def ClaimantIDHashClient_Hash_def
      PolicyLookupClient_Lookup_def ModelClient_Score_def server_fst server_clock service_frame
      intro!: instant_answers)
    (simp_all add: service_defs normalized_answer_def policy_answer_def)

section \<open>A claim on the shipped DAG\<close>

lemma platform_Load:
  assumes "network_prompt latency (xt_network x)" and "Store_DagVersion st t p = Some v"
    and "\<And>u. xt_ReadFile x u (dag_path dir t p e) = Inr data" and "xt_Unmarshal x data = Inr cfg"
    and "outlives c (clock w + latency)"
  shows "fst (x_Load (platform_executor x st broker dir) c t p e w) = (Some cfg, None)"
    and "clock (snd (x_Load (platform_executor x st broker dir) c t p e w)) \<le> clock w + latency"
    and "clock w \<le> clock (snd (x_Load (platform_executor x st broker dir) c t p e w))"
proof -
  let ?q = "\<lparr>gdv_TenantId = t, gdv_Product = p\<rparr>"
  have link: "delivers_within latency (n_GetDagVersion (xt_network x))" using assms(1) by (simp add: network_prompt_def)
  let ?m = "''/tenantconfig.v1.TenantConfigService/GetDagVersion''"
  let ?serve = "go_server ''tenant-config-svc'' (\<lambda>l. Server_GetDagVersion st (Some l))"
  let ?s = "stub (NewLogger ''orchestration-service'') (over (n_GetDagVersion (xt_network x)) ?serve) ?m c ?q w"
  have served: "fst (?serve ?m c ?q w) = (Some \<lparr>gdr_Version = v\<rparr>, None) \<and> clock (snd (?serve ?m c ?q w)) = clock w" for c w
    by (simp add: server_fst server_clock service_frame Server_GetDagVersion_fst assms(2))
  have call: "fst ?s = (Some \<lparr>gdr_Version = v\<rparr>, None)" "clock w \<le> clock (snd ?s)" "clock (snd ?s) \<le> clock w + latency"
    by (rule instant_call [where serve = ?serve and m = ?m and req = ?q, OF link served assms(5)])+
  have "b_GetDagVersion (platform_backends x st) c ?q w = ?s" by (simp add: platform_backends_def Let_def)
  with call obtain w1 where w1: "b_GetDagVersion (platform_backends x st) c ?q w = ((Some \<lparr>gdr_Version = v\<rparr>, None), w1)"
    "clock w \<le> clock w1" "clock w1 \<le> clock w + latency"
    by (metis prod.collapse)
  have "b_ReadFile (platform_backends x st) = xt_ReadFile x" "b_Unmarshal (platform_backends x st) = xt_Unmarshal x"
    by (simp_all add: platform_backends_def Let_def)
  with w1 assms(3,4) show "fst (x_Load (platform_executor x st broker dir) c t p e w) = (Some cfg, None)"
    "clock (snd (x_Load (platform_executor x st broker dir) c t p e w)) \<le> clock w + latency"
    "clock w \<le> clock (snd (x_Load (platform_executor x st broker dir) c t p e w))"
    by (simp_all add: platform_executor_def orchestration_executor_def Loader_Load_def TenantConfigClient_GetDagVersion_def Let_def)
qed

text \<open>The weight of a claim in cents, by the status of its policy and the validity of its address.\<close>

definition claim_cents :: "string \<Rightarrow> bool \<Rightarrow> nat" where
  "claim_cents status valid =
     (if status = ''active'' then 5 else if status = ''lapsed'' then 20 else if status = ''cancelled'' then 30 else 40) +
     (if valid then 0 else 10)"

lemma policy_weight:
  "5 + status_cents (lr_Status (policy_answer x p)) + (if lr_CoverageType (policy_answer x p) = '''' then 5 else 0) +
     (if valid then 0 else 10) = claim_cents (lr_Status (policy_answer x p)) valid"
  by (auto simp: policy_answer_def PolicyLookup_lookup_def policy_notFound_def KNOWN_POLICIES_def status_cents_def
      claim_cents_def Let_def split: option.splits if_splits)

lemma claim_score_finite: "is_finite (hundredths (claim_cents status valid))"
proof -
  have "0 < claim_cents status valid" "claim_cents status valid < 100" by (simp_all add: claim_cents_def)
  from near_hundredths [OF this] show ?thesis by (auto simp: near_def)
qed

text \<open>The first two stages of the shipped DAG, when the four services that enrich and score a claim answer it.\<close>

definition acme_view :: "'e run_env \<Rightarrow> bool" where
  "acme_view v \<longleftrightarrow> v_cfg v = acme_config \<and> v_tenantID v = ''acme_insurance''"

lemma acme_stage_budgets:
  assumes "acme_view v"
  shows "stage_budget v (enrich_select v) + stage_budget v (score_select v) + stage_budget v (publish_select v) = 480000000"
    and "0 \<le> stage_budget v P"
    and "stage_budget v (publish_select v) = node_budget acme_config (acme_nodes ! 4)"
proof -
  show "0 \<le> stage_budget v P" by (rule sum_list_nonneg) (auto simp: node_budget_nonneg)
  show "stage_budget v (enrich_select v) + stage_budget v (score_select v) + stage_budget v (publish_select v) = 480000000"
    using assms by (simp add: acme_view_def enrich_select_def score_select_def publish_select_def acme_config_def acme_nodes_def
        node_budget_def sint_nodeTimeout sint_retryBackoff go_run)
  show "stage_budget v (publish_select v) = node_budget acme_config (acme_nodes ! 4)"
    using assms by (simp add: acme_view_def publish_select_def acme_config_def acme_nodes_def go_run)
qed

lemma acme_enrich:
  assumes "acme_view v" and "served_env 40000000 v svc" and "outlives (v_ctx v) (clock w + stage_budget v (enrich_select v))"
    and "a_Hash svc (get_str ce_ClaimantName (v_claim v)) = Inr h" and "a_Normalize svc (get_str ce_RawAddress (v_claim v)) = Inr a"
    and "a_Lookup svc (get_str ce_PolicyNumber (v_claim v)) = Inr p"
  obtains s w' where "range_loop (enrich_node v) (c_Nodes (v_cfg v)) (initial_enrichment (v_claim v)) w = (Inr s, w')"
    "s_status s = ''scored''" "s_normalizedAddress s = nr_NormalizedAddress a" "s_addressValid s = nr_Valid a"
    "s_policyStatus s = lr_Status p" "s_policyCoverageType s = lr_CoverageType p"
    "clock w' \<le> clock w + stage_budget v (enrich_select v)"
proof -
  obtain r w' where r: "range_loop (enrich_node v) (c_Nodes (v_cfg v)) (initial_enrichment (v_claim v)) w = (r, w')" by fastforce
  note refined = enrich_stage_refines [OF assms(2,3) r]
  have "\<exists>s. r = Inr s \<and> s_status s = ''scored'' \<and> s_normalizedAddress s = nr_NormalizedAddress a \<and> s_addressValid s = nr_Valid a \<and>
      s_policyStatus s = lr_Status p \<and> s_policyCoverageType s = lr_CoverageType p"
    unfolding refined(1) [symmetric] using assms(1,4-6)
    by (simp add: acme_view_def acme_config_def acme_nodes_def enrich_select_def reference_enrich_def apply_policy_def
        EnabledForTenant_iff initial_enrichment_def Let_def)
  with that r refined(2) show thesis by blast
qed

lemma acme_score:
  assumes "acme_view v" and "served_env 40000000 v svc" and "outlives (v_ctx v) (clock w + stage_budget v (score_select v))"
    and "a_Score svc (features_of (v_tenantID v) (v_claim v) s) = Inr score"
  obtains w' where "range_loop (score_node v s) (c_Nodes (v_cfg v)) None w = (Inr (Some score), w')"
    "clock w' \<le> clock w + stage_budget v (score_select v)"
proof -
  obtain r w' where r: "range_loop (score_node v s) (c_Nodes (v_cfg v)) None w = (r, w')" by fastforce
  note refined = score_stage_refines [OF assms(2,3) r]
  have "r = Inr (Some score)"
    unfolding refined(1) [symmetric] using assms(1,4)
    by (simp add: acme_view_def acme_config_def acme_nodes_def score_select_def reference_score_def apply_policy_def
        EnabledForTenant_iff dependsOn_iff groupEnrichment_def Let_def)
  with that r refined(2) show thesis by blast
qed

text \<open>Publishing: the documented contract of the writer is that it returns by the deadline of its context.\<close>

definition writes_by_deadline :: "'e write_messages \<Rightarrow> bool" where
  "writes_by_deadline W \<longleftrightarrow> (\<forall>p m. punctual (\<lambda>c w. case W p c m w of (err, w') \<Rightarrow> (((), err), w')))"

lemma Publish_punctual:
  assumes "writes_by_deadline (xt_WriteMessages x)"
  shows "punctual (publish_call (platform_executor x st broker dir) ev)"
proof (cases "marshal_event ev")
  case (Inl err)
  then show ?thesis by unfold_locales (auto simp: publish_call_def platform_defs Publish_def)
next
  case (Inr j)
  let ?m = "\<lparr>m_Key = ev_TenantID ev, m_Value = j\<rparr>"
  have W: "punctual (\<lambda>c w. case xt_WriteMessages x p c ?m w of (err, w') \<Rightarrow> (((), err), w'))" for p
    using assms by (simp add: writes_by_deadline_def)
  show ?thesis
  proof
    show "clock w \<le> clock w'" if "publish_call (platform_executor x st broker dir) ev c w = (r, w')" for c w r w'
      using that punctual.forward [OF W, of "NewPublisher broker" c w] Inr
      by (auto simp: publish_call_def platform_defs Publish_def split: prod.splits option.splits)
    show "clock w' \<le> max (clock w) d"
      if "publish_call (platform_executor x st broker dir) ev c w = (r, w')" "deadline c = Some d" for c w r w' d
      using that punctual.by_deadline [OF W, of "NewPublisher broker" c w] Inr
      by (auto simp: publish_call_def platform_defs Publish_def split: prod.splits option.splits)
  qed
qed

lemma call_once:
  assumes "sint (n_MaxRetries node) = 0"
  shows "callWithResilience zero ctx cfg node fn w =
    (case fn (WithTimeout ctx (clock w) (nodeTimeout cfg node)) w of
       ((resp, None), w') \<Rightarrow> ((resp, None), w')
     | ((resp, Some err), w') \<Rightarrow> ((zero, Some err), w'))"
  using assms by (simp add: callWithResilience_def retry_from.simps split: prod.split option.split)

lemma acme_publish:
  assumes "acme_view v" and "\<And>ev. punctual (publish_call (v_exec v) ev)"
  obtains c w' where "range_loop (publish_node v r) (c_Nodes (v_cfg v)) status w =
      (Inr (if fst (x_Publish (v_exec v) c (event_of v r status) w) = None then status else ''degraded''), w')"
    "clock w' \<le> clock w + stage_budget v (publish_select v)"
proof -
  let ?n = "acme_nodes ! 4"
  let ?c = "WithTimeout (v_ctx v) (clock w) (nodeTimeout (v_cfg v) ?n)"
  let ?call = "callWithResilience () (v_ctx v) (v_cfg v) ?n (publish_call (v_exec v) (event_of v r status)) w"
  have once: "sint (n_MaxRetries ?n) = 0" by (simp add: acme_nodes_def)
  obtain err w1 where p: "x_Publish (v_exec v) ?c (event_of v r status) w = (err, w1)" by fastforce
  then have call: "?call = (((), err), w1)"
    by (simp add: call_once [OF once] publish_call_def split: option.split)
  from call_budget [OF assms(2) this] acme_stage_budgets(3) [OF assms(1)] assms(1)
  have w1: "clock w1 \<le> clock w + stage_budget v (publish_select v)" by (simp add: acme_view_def)
  have "range_loop (publish_node v r) acme_nodes status w = publish_node v r ?n status w"
    by (simp add: acme_nodes_def publish_node_def dependsOn_iff nodeModelScore_def split: prod.split sum.split)
  moreover have "dependsOn ?n nodeModelScore" "EnabledForTenant ?n (v_tenantID v)" "n_Service ?n = ''kafka-publisher''" "handled ?n"
    by (simp_all add: acme_nodes_def dependsOn_iff EnabledForTenant_iff nodeModelScore_def handled_def EffectiveOnFailure_def
        OnFailureSkip_def OnFailureDegrade_def OnFailureFailFast_def)
  ultimately obtain w' where "range_loop (publish_node v r) acme_nodes status w = (Inr (if err = None then status else ''degraded''), w')"
    "clock w' = clock w1"
    using call by (cases err) (simp_all add: publish_node_def fail_node_eq failure_aborts_def log_failure_def)
  with assms(1) p w1 show thesis by (intro that [of ?c w']) (simp_all add: acme_view_def acme_config_def)
qed

text \<open>The event published for a claim all of whose enrichment succeeded.\<close>

definition scored_event :: "string \<Rightarrow> string \<Rightarrow> float64 \<Rightarrow> ScoredClaimEvent" where
  "scored_event claimID correlationID score =
     \<lparr>ev_ClaimID = claimID, ev_CorrelationID = correlationID, ev_TenantID = ''acme_insurance'', ev_Status = ''scored'',
      ev_FraudScore = score, ev_ModelVersion = ''rules-v1''\<rparr>"

text \<open>A publish call of a finite event fails exactly when the writer does.\<close>

lemma Publish_writes:
  assumes "is_finite (ev_FraudScore ev)"
  shows "\<exists>m. carries m ev \<and> (fst (Publish W p c ev w) = None \<longleftrightarrow> fst (W p c m w) = None)"
proof -
  obtain j where j: "marshal_event ev = Inr j" using marshal_event_total [OF assms] by blast
  then have "carries \<lparr>m_Key = ev_TenantID ev, m_Value = j\<rparr> ev"
    by (simp add: carries_def marshal_event_read assms)
  with j show ?thesis
    by (auto simp: Publish_def split: prod.split option.split intro!: exI [of _ "\<lparr>m_Key = ev_TenantID ev, m_Value = j\<rparr>"])
qed

lemma acme_run_stages:
  assumes v: "acme_view v" and served: "served_env 40000000 v (shipped_services x)"
    and pub: "\<And>ev. punctual (publish_call (v_exec v) ev)" and live: "outlives (v_ctx v) (clock w + 480000000)"
  defines "address \<equiv> normalized_answer x (get_str ce_RawAddress (v_claim v))"
    and "policy \<equiv> policy_answer x (get_str ce_PolicyNumber (v_claim v))"
  defines "score \<equiv> hundredths (claim_cents (lr_Status policy) (nr_Valid address))"
  obtains res w' c w3 where "run_stages v w = ((Some res, None), w')" "clock w' \<le> clock w + 480000000"
    "r_NormalizedAddress res = nr_NormalizedAddress address" "r_FraudScore res = score" "r_ModelVersion res = ''rules-v1''"
    "r_Status res = (if fst (x_Publish (v_exec v) c (scored_event (get_str ce_ClaimId (v_claim v)) (v_correlationID v) score) w3) = None
      then ''scored'' else ''degraded'')"
proof -
  note budget = acme_stage_budgets(1) [OF v] acme_stage_budgets(2) [OF v, of "score_select v"]
    acme_stage_budgets(2) [OF v, of "publish_select v"] acme_stage_budgets(2) [OF v, of "enrich_select v"]
  have "outlives (v_ctx v) (clock w + stage_budget v (enrich_select v))" using budget by (intro outlives_mono [OF live]) simp
  then obtain s w1 where s: "range_loop (enrich_node v) (c_Nodes (v_cfg v)) (initial_enrichment (v_claim v)) w = (Inr s, w1)"
    "s_status s = ''scored''" "s_normalizedAddress s = nr_NormalizedAddress address" "s_addressValid s = nr_Valid address"
    "s_policyStatus s = lr_Status policy" "s_policyCoverageType s = lr_CoverageType policy"
    "clock w1 \<le> clock w + stage_budget v (enrich_select v)"
    by (rule acme_enrich [OF v served]) (simp_all add: shipped_services_def address_def policy_def)
  let ?r = "\<lparr>sr_Score = hundredths (risk_cents (features_of (v_tenantID v) (v_claim v) s)), sr_ModelVersion = ModelVersion\<rparr>"
  have "risk_cents (features_of (v_tenantID v) (v_claim v) s) = claim_cents (lr_Status policy) (nr_Valid address)"
    unfolding policy_def policy_weight [symmetric] by (simp add: risk_cents_def features_of_def s FormatBool_def ParseBool_def policy_def)
  then have r: "?r = \<lparr>sr_Score = score, sr_ModelVersion = ''rules-v1''\<rparr>" by (simp add: score_def ModelVersion_def)
  have "outlives (v_ctx v) (clock w1 + stage_budget v (score_select v))" using budget s(7) by (intro outlives_mono [OF live]) simp
  then obtain w2 where w2: "range_loop (score_node v s) (c_Nodes (v_cfg v)) None w1 = (Inr (Some ?r), w2)"
    "clock w2 \<le> clock w1 + stage_budget v (score_select v)"
    by (rule acme_score [OF v served]) (simp add: shipped_services_def)
  obtain c w3 where p: "range_loop (publish_node v (Some ?r)) (c_Nodes (v_cfg v)) ''scored'' w2 =
      (Inr (if fst (x_Publish (v_exec v) c (event_of v (Some ?r) ''scored'') w2) = None then ''scored'' else ''degraded''), w3)"
    "clock w3 \<le> clock w2 + stage_budget v (publish_select v)"
    by (rule acme_publish [OF v pub])
  have event: "event_of v (Some \<lparr>sr_Score = score, sr_ModelVersion = ''rules-v1''\<rparr>) ''scored'' =
      scored_event (get_str ce_ClaimId (v_claim v)) (v_correlationID v) score"
    using v by (simp add: event_of_def GetScore_def scored_event_def acme_view_def)
  let ?st = "if fst (x_Publish (v_exec v) c (scored_event (get_str ce_ClaimId (v_claim v)) (v_correlationID v) score) w2) = None
      then ''scored'' else ''degraded''"
  have "run_stages v w = ((Some (result_of s (Some \<lparr>sr_Score = score, sr_ModelVersion = ''rules-v1''\<rparr>) ?st), None), w3)"
    using s(1,2) w2(1) [unfolded r] p(1) [unfolded r event] by (simp add: run_stages_def)
  moreover have "clock w3 \<le> clock w + 480000000" using s(7) w2(2) p(2) budget by simp
  ultimately show thesis by (rule that [of _ w3 c w2]) (simp_all add: result_of_def GetScore_def s(3))
qed

text \<open>A run of the platform's executor, which takes less than the latency of a link and 480 ms.\<close>

lemma platform_run:
  assumes prompt: "network_prompt latency (xt_network x)" "latency < 40000000" and writer: "writes_by_deadline (xt_WriteMessages x)"
    and version: "Store_DagVersion st ''acme_insurance'' ''auto'' = Some v"
    and files: "\<And>u. xt_ReadFile x u (dag_path dir ''acme_insurance'' ''auto'' ''claim.fnol'') = Inr data" "xt_Unmarshal x data = Inr acme_config"
    and claim: "ce_Product claim = ''auto''" "ce_EventType claim = ''claim.fnol''"
    and live: "outlives ctx (clock w + latency + 480000000)"
  obtains res w' c m w3 where
    "Run (platform_executor x st broker dir) ctx ''acme_insurance'' k (Some claim) w = ((Some res, None), w')"
    "clock w' \<le> clock w + latency + 480000000"
    "r_NormalizedAddress res = nr_NormalizedAddress (normalized_answer x (ce_RawAddress claim))"
    "r_FraudScore res = hundredths (claim_cents (lr_Status (policy_answer x (ce_PolicyNumber claim)))
      (nr_Valid (normalized_answer x (ce_RawAddress claim))))"
    "r_ModelVersion res = ''rules-v1''"
    "carries m (scored_event (ce_ClaimId claim) k (r_FraudScore res))"
    "r_Status res = (if fst (xt_WriteMessages x (NewPublisher broker) c m w3) = None then ''scored'' else ''degraded'')"
proof -
  let ?e = "platform_executor x st broker dir"
  let ?c = "run_context ctx ''acme_insurance'' k"
  define v where "v = run_env_of ?e ?c ''acme_insurance'' k (Some claim) acme_config"
  have v: "acme_view v" "v_exec v = ?e" "v_claim v = Some claim" "v_tenantID v = ''acme_insurance''" "v_correlationID v = k" "v_ctx v = ?c"
    by (simp_all add: v_def run_env_of_def acme_view_def)
  have ctx: "outlives ?c t" if "t \<le> clock w + latency + 480000000" for t
    using outlives_mono [OF live that] by (simp add: outlives_def)
  have "outlives ?c (clock w + latency)" by (rule ctx) simp
  note load = platform_Load [OF prompt(1) version files this, of broker]
  then obtain w0 where w0: "x_Load ?e ?c ''acme_insurance'' ''auto'' ''claim.fnol'' w = ((Some acme_config, None), w0)"
    "clock w0 \<le> clock w + latency"
    by (metis prod.collapse)
  have served: "served_env 40000000 v (shipped_services x)"
    using platform_enriches [OF prompt, of st broker dir k] acme_patient v(1) by (simp add: served_env_def v(2,5) acme_view_def)
  have pub: "punctual (publish_call (v_exec v) ev)" for ev unfolding v(2) by (rule Publish_punctual [OF writer])
  have "outlives (v_ctx v) (clock w0 + 480000000)" unfolding v(6) using w0(2) by (intro ctx) simp
  then obtain res w' c w3 where run: "run_stages v w0 = ((Some res, None), w')" "clock w' \<le> clock w0 + 480000000"
    "r_NormalizedAddress res = nr_NormalizedAddress (normalized_answer x (ce_RawAddress claim))"
    "r_FraudScore res = hundredths (claim_cents (lr_Status (policy_answer x (ce_PolicyNumber claim)))
      (nr_Valid (normalized_answer x (ce_RawAddress claim))))"
    "r_ModelVersion res = ''rules-v1''"
    "r_Status res = (if fst (x_Publish ?e c (scored_event (ce_ClaimId claim) k (r_FraudScore res)) w3) = None then ''scored'' else ''degraded'')"
    by (rule acme_run_stages [OF v(1) served pub]) (simp add: v)
  let ?ev = "scored_event (ce_ClaimId claim) k (r_FraudScore res)"
  have "is_finite (ev_FraudScore ?ev)" by (simp add: scored_event_def run(4) claim_score_finite)
  from Publish_writes [OF this, of "xt_WriteMessages x" "NewPublisher broker" c w3] obtain m where m: "carries m ?ev"
    "fst (x_Publish ?e c ?ev w3) = None \<longleftrightarrow> fst (xt_WriteMessages x (NewPublisher broker) c m w3) = None"
    by (auto simp: platform_defs)
  have "Run ?e ctx ''acme_insurance'' k (Some claim) w = ((Some res, None), w')"
    using w0 run(1) claim by (simp add: Run_def v_def Let_def)
  with run w0(2) m show thesis by (intro that [of res w' m c w3]) simp_all
qed

section \<open>From the gateway to the executor\<close>

lemma done_at_forward:
  assumes "done_at ctx = None"
  shows "done_at (forward_context ctx k t) = Some (t + 5000000000)"
  using assms by (simp add: forward_context_def done_at_WithTimeout orchestrationTimeout_def Second_def Millisecond_def)

lemma platform_resolveTenant:
  assumes "network_prompt latency (xt_network x)" and "latency < 40000000" and "done_at ctx = None"
    and "Store_Get st ''acme_insurance'' = Some t"
  shows "\<exists>tc w'. resolveTenant (platform_gateway x st broker dir) ctx k w = ((Some tc, None), w') \<and> tc_Status tc = t_Status t"
proof -
  let ?m = "''/tenantconfig.v1.TenantConfigService/GetTenant''"
  let ?q = "\<lparr>gt_TenantId = ''acme_insurance''\<rparr>"
  let ?serve = "go_server ''tenant-config-svc'' (\<lambda>l. Server_GetTenant st (Some l))"
  let ?s = "stub (NewLogger ''claims-gateway'') (over (n_GetTenant (xt_network x)) ?serve) ?m
      (WithTimeout ctx (clock w) tenantConfigTimeout) ?q w"
  let ?tc = "\<lparr>tc_TenantId = t_TenantID t, tc_DisplayName = t_DisplayName t, tc_Status = t_Status t\<rparr>"
  have link: "delivers_within latency (n_GetTenant (xt_network x))" using assms(1) by (simp add: network_prompt_def)
  have served: "fst (?serve ?m c ?q w) = (Some ?tc, None) \<and> clock (snd (?serve ?m c ?q w)) = clock w" for c w
    by (simp add: server_fst server_clock service_frame Server_GetTenant_fst assms(4))
  have "outlives (WithTimeout ctx (clock w) tenantConfigTimeout) (clock w + latency)"
    using assms(2,3) by (simp add: outlives_def done_at_WithTimeout tenantConfigTimeout_def Second_def Millisecond_def)
  then have "fst ?s = (Some ?tc, None)"
    by (rule instant_call [where serve = ?serve and m = ?m and req = ?q, OF link served])
  moreover have "resolveTenant (platform_gateway x st broker dir) ctx k w = ?s"
    by (simp add: resolveTenant_def platform_gateway_def TenantConfigClient_GetTenant_def hardcodedTenantID_def Let_def)
  ultimately show ?thesis by (metis TenantContext.select_convs(3) prod.collapse)
qed

text \<open>
  The call of the Orchestration Service: within 560 ms it has answered, long before the gateway's deadline.
\<close>

lemma platform_ProcessClaim:
  assumes prompt: "network_prompt latency (xt_network x)" "latency < 40000000" and writer: "writes_by_deadline (xt_WriteMessages x)"
    and version: "Store_DagVersion st ''acme_insurance'' ''auto'' = Some v"
    and files: "\<And>u. xt_ReadFile x u (dag_path dir ''acme_insurance'' ''auto'' ''claim.fnol'') = Inr data" "xt_Unmarshal x data = Inr acme_config"
    and claim: "cr_Product req = ''auto''" "cr_EventType req = ''claim.fnol''"
    and ctx: "done_at ctx = None" "outgoing_md ctx = []"
  obtains res :: dag_result and w' c m w3 where
    "h_ProcessClaim (platform_gateway x st broker dir) (forward_context ctx k (clock w)) \<lparr>pq_Claim = Some (claim_of req k)\<rparr> w =
      ((Some \<lparr>ps_ClaimId = cr_ClaimID req, ps_CorrelationId = k, ps_Status = r_Status res,
         ps_NormalizedAddress = r_NormalizedAddress res, ps_FraudScore = r_FraudScore res, ps_ModelVersion = r_ModelVersion res\<rparr>, None), w')"
    "r_NormalizedAddress res = nr_NormalizedAddress (normalized_answer x (cr_RawAddress req))"
    "r_FraudScore res = hundredths (claim_cents (lr_Status (policy_answer x (cr_PolicyNumber req)))
      (nr_Valid (normalized_answer x (cr_RawAddress req))))"
    "r_ModelVersion res = ''rules-v1''"
    "carries m (scored_event (cr_ClaimID req) k (r_FraudScore res))"
    "r_Status res = (if fst (xt_WriteMessages x (NewPublisher broker) c m w3) = None then ''scored'' else ''degraded'')"
proof -
  let ?e = "platform_executor x st broker dir" and ?fc = "forward_context ctx k (clock w)"
  let ?m = "''/orchestration.v1.OrchestrationService/ProcessClaim''" and ?q = "\<lparr>pq_Claim = Some (claim_of req k)\<rparr>"
  let ?serve = "go_server ''orchestration-service'' (\<lambda>l. ProcessClaim ?e)"
  have ids: "TenantIDFrom (server_context rc) = ''acme_insurance''" "claim_correlation (server_context rc) (Some (claim_of req k)) = k"
    if "arrives_as (client_context ?fc) rc" for rc
    using arrives_identity [OF that] forward_context_facts(1) [of k ctx "clock w"] forward_context_facts(2) [of ctx k "clock w"] ctx(2)
    by (auto simp: node_context_def claim_correlation_def claim_of_def)
  have live: "outlives ?fc t" if "t < clock w + 5000000000" for t
    using that by (simp add: outlives_def done_at_forward [OF ctx(1)])
  have sent: "ce_Product (claim_of req k) = ''auto''" "ce_EventType (claim_of req k) = ''claim.fnol''"
    "ce_ClaimId (claim_of req k) = cr_ClaimID req" "ce_RawAddress (claim_of req k) = cr_RawAddress req"
    "ce_PolicyNumber (claim_of req k) = cr_PolicyNumber req"
    by (simp_all add: claim_of_def claim)
  have run: "\<exists>(res :: dag_result) w' c m w3. ?serve ?m rc ?q w1 = ((Some \<lparr>ps_ClaimId = cr_ClaimID req, ps_CorrelationId = k, ps_Status = r_Status res,
         ps_NormalizedAddress = r_NormalizedAddress res, ps_FraudScore = r_FraudScore res, ps_ModelVersion = r_ModelVersion res\<rparr>, None), w') \<and>
      clock w' \<le> clock w1 + (latency + 480000000) \<and>
      r_NormalizedAddress res = nr_NormalizedAddress (normalized_answer x (cr_RawAddress req)) \<and>
      r_FraudScore res = hundredths (claim_cents (lr_Status (policy_answer x (cr_PolicyNumber req)))
        (nr_Valid (normalized_answer x (cr_RawAddress req)))) \<and>
      r_ModelVersion res = ''rules-v1'' \<and> carries m (scored_event (cr_ClaimID req) k (r_FraudScore res)) \<and>
      r_Status res = (if fst (xt_WriteMessages x (NewPublisher broker) c m w3) = None then ''scored'' else ''degraded'')"
    if rc: "arrives_as (client_context ?fc) rc" "\<And>t. outlives ?fc t \<Longrightarrow> outlives rc t" and w1: "clock w1 \<le> clock w + latency" for rc w1
  proof -
    have "outlives rc (clock w1 + latency + 480000000)" using w1 prompt(2) by (intro rc(2) live) simp
    then have "outlives (server_context rc) (clock w1 + latency + 480000000)" by simp
    then obtain res w' c m w3 where r: "Run ?e (server_context rc) ''acme_insurance'' k (Some (claim_of req k)) w1 = ((Some res, None), w')"
      "clock w' \<le> clock w1 + latency + 480000000"
      "r_NormalizedAddress res = nr_NormalizedAddress (normalized_answer x (cr_RawAddress req))"
      "r_FraudScore res = hundredths (claim_cents (lr_Status (policy_answer x (cr_PolicyNumber req)))
        (nr_Valid (normalized_answer x (cr_RawAddress req))))"
      "r_ModelVersion res = ''rules-v1''" "carries m (scored_event (cr_ClaimID req) k (r_FraudScore res))"
      "r_Status res = (if fst (xt_WriteMessages x (NewPublisher broker) c m w3) = None then ''scored'' else ''degraded'')"
      by (rule platform_run [OF prompt writer version files sent(1,2), unfolded sent(3-)])
    let ?pr = "\<lparr>ps_ClaimId = cr_ClaimID req, ps_CorrelationId = k, ps_Status = r_Status res,
       ps_NormalizedAddress = r_NormalizedAddress res, ps_FraudScore = r_FraudScore res, ps_ModelVersion = r_ModelVersion res\<rparr>"
    have "ProcessClaim ?e (server_context rc) ?q w1 = ((Some ?pr, None), w')"
      using r(1) ids [OF rc(1)] by (simp add: ProcessClaim_def Let_def claim_of_def)
    then have "fst (?serve ?m rc ?q w1) = (Some ?pr, None)" "clock (snd (?serve ?m rc ?q w1)) = clock w'"
      by (simp_all add: server_fst server_clock)
    then obtain w'' where "?serve ?m rc ?q w1 = ((Some ?pr, None), w'')" "clock w'' \<le> clock w1 + (latency + 480000000)"
      using r(2) by (cases "?serve ?m rc ?q w1") simp
    with r(3-) show ?thesis by blast
  qed
  have link: "delivers_within latency (n_ProcessClaim (xt_network x))" using prompt(1) by (simp add: network_prompt_def)
  let ?s = "stub (NewLogger ''claims-gateway'') (over (n_ProcessClaim (xt_network x)) ?serve) ?m ?fc ?q w"
  have busy: "clock (snd (?serve ?m rc ?q w1)) \<le> clock w1 + (latency + 480000000)"
    if "arrives_as (client_context ?fc) rc" "\<And>t. outlives ?fc t \<Longrightarrow> outlives rc t" "clock w1 \<le> clock w + latency" for rc w1
    using run [OF that] by (metis snd_conv)
  have long: "outlives ?fc (clock w + latency + (latency + 480000000))" using prompt(2) by (intro live) simp
  obtain rc w1 where rc: "arrives_as (client_context ?fc) rc" "\<And>t. outlives ?fc t \<Longrightarrow> outlives rc t"
    "clock w1 \<le> clock w + latency" "fst ?s = fst (?serve ?m rc ?q w1)"
    by (rule call_delivers [where serve = ?serve and m = ?m and req = ?q and l = "NewLogger ''claims-gateway''", OF link _ long])
      (rule busy that; assumption)+
  have "h_ProcessClaim (platform_gateway x st broker dir) ?fc ?q w = ?s"
    by (simp add: platform_gateway_def OrchestrationClient_ProcessClaim_def Let_def)
  with run [OF rc(1-3)] rc(4) that show thesis by (metis fst_conv prod.collapse)
qed

section \<open>The topic of a running platform\<close>

text \<open>A message as the consumers of the topic expect it from this gateway.\<close>

definition acme_message :: "kafka_message \<Rightarrow> bool" where
  "acme_message m \<longleftrightarrow> m_Key m = ''acme_insurance'' \<and>
     (case read_event (m_Value m) of
        None \<Rightarrow> False
      | Some ev \<Rightarrow> ev_TenantID ev = ''acme_insurance'' \<and> ev_Status ev \<in> {''scored'', ''degraded''} \<and> is_finite (ev_FraudScore ev))"

text \<open>
  What the platform does between two instants: time passes, and requests, which \<open>net/http\<close> hands over in
  contexts without outgoing metadata, are answered.
\<close>

inductive serves :: "'e rand_source \<Rightarrow> 'e claims_handler \<Rightarrow> 'e world \<Rightarrow> 'e world \<Rightarrow> bool" for rand_Read h where
  start: "serves rand_Read h w w"
| wait: "serves rand_Read h w w1 \<Longrightarrow> clock w1 \<le> t \<Longrightarrow> serves rand_Read h w (w1\<lparr>clock := t\<rparr>)"
| request: "serves rand_Read h w w1 \<Longrightarrow> outgoing_md (rq_Context r) = [] \<Longrightarrow>
    SubmitClaim rand_Read h r w1 = (res, w2) \<Longrightarrow> serves rand_Read h w w2"

text \<open>The services other than the publisher write nothing, and the network delivers no call twice.\<close>

lemma quiet_call_sends:
  assumes "at_most_once topic G T" and "\<And>c w1. env (snd (serve m c req w1)) = env w1"
  shows "sends topic G w (snd (stub l (over T serve) m ctx req w))"
  using assms(1) by (rule call_sends) (simp_all add: sends_nothing assms(2))

lemma platform_topic_untouched:
  assumes "network_safe topic G (xt_network x)"
  shows "topic_untouched topic G (platform_executor x st broker dir)"
proof -
  let ?b = "platform_backends x st"
  note quiet = quiet_call_sends server_env service_frame
  have "sends topic G w (snd (b_GetDagVersion ?b c q w))" for c q w
    using assms by (auto simp: network_safe_def platform_backends_def Let_def quiet intro!: quiet_call_sends)
  then have "sends topic G w (snd (x_Load (platform_executor x st broker dir) c t p k w))" for c t p k w
    by (auto simp: platform_executor_def orchestration_executor_def Loader_Load_def TenantConfigClient_GetDagVersion_def Let_def
        sends_def split: prod.split option.split sum.split) (metis snd_conv)+
  moreover have "sends topic G w (snd (b_HashClaimantId ?b c hq w))" "sends topic G w (snd (b_Normalize ?b c nq w))"
    "sends topic G w (snd (b_LookupPolicy ?b c lq w))" "sends topic G w (snd (b_Score ?b c sq w))" for c hq nq lq sq w
    using assms by (auto simp: network_safe_def platform_backends_def Let_def quiet intro!: quiet_call_sends)
  ultimately show ?thesis
    unfolding topic_untouched_def
    by (simp add: platform_executor_def orchestration_executor_def AddressNormClient_Normalize_def ClaimantIDHashClient_Hash_def
        PolicyLookupClient_Lookup_def ModelClient_Score_def Let_def)
qed

lemma ProcessClaim_world: "snd (ProcessClaim e c q w) = snd (Run e c (TenantIDFrom c) (claim_correlation c (pq_Claim q)) (pq_Claim q) w)"
  by (simp add: ProcessClaim_def Let_def split: prod.split option.split)

lemma platform_ProcessClaim_sends:
  assumes net: "network_safe topic acme_message (xt_network x)"
    and W: "appends_copies topic acme_message (xt_WriteMessages x)" and fresh: "outgoing_md ctx = []"
  shows "sends topic acme_message w (snd (h_ProcessClaim (platform_gateway x st broker dir) (forward_context ctx k t) q w))"
proof -
  let ?e = "platform_executor x st broker dir" and ?fc = "forward_context ctx k t"
  let ?serve = "go_server ''orchestration-service'' (\<lambda>l. ProcessClaim ?e)"
  have link: "at_most_once topic acme_message (n_ProcessClaim (xt_network x))" using net by (simp add: network_safe_def)
  have "sends topic acme_message w1 (snd (?serve m c q w1))" if "arrives_as (client_context ?fc) c" for m c w1
  proof -
    let ?c = "server_context c"
    have tenant: "TenantIDFrom ?c = ''acme_insurance''"
      using arrives_identity(1) [OF that] forward_context_facts(1) [of k ctx t] forward_context_facts(2) [of ctx k t] fresh
      by (simp add: node_context_def)
    obtain res w2 where run: "Run ?e ?c ''acme_insurance'' (claim_correlation ?c (pq_Claim q)) (pq_Claim q) w1 = (res, w2)" by fastforce
    have "sends topic acme_message w1 w2"
      by (rule sends_mono [OF Run_sends [OF platform_topic_untouched [OF net] _ W run]])
        (auto simp: platform_defs acme_message_def carries_def)
    then show ?thesis using run tenant by (simp add: sends_def server_env ProcessClaim_world)
  qed
  from call_sends [where serve = ?serve, OF link _ this] show ?thesis
    by (simp add: platform_gateway_def OrchestrationClient_ProcessClaim_def Let_def)
qed

lemma resolveTenant_sends:
  assumes "network_safe topic G (xt_network x)"
  shows "sends topic G w (snd (resolveTenant (platform_gateway x st broker dir) ctx k w))"
  using assms by (auto simp: network_safe_def resolveTenant_def platform_gateway_def TenantConfigClient_GetTenant_def
      server_env service_frame Let_def intro!: quiet_call_sends)

lemma SubmitClaim_sends:
  assumes net: "network_safe topic acme_message (xt_network x)"
    and W: "appends_copies topic acme_message (xt_WriteMessages x)" and rand: "\<And>w. sends topic acme_message w (snd (rand_Read w))"
    and fresh: "outgoing_md (rq_Context r) = []"
    and step: "SubmitClaim rand_Read (platform_gateway x st broker dir) r w = (res, w')"
  shows "sends topic acme_message w w'"
proof -
  let ?h = "platform_gateway x st broker dir"
  obtain k w1 where k: "correlation_New rand_Read w = (k, w1)" by fastforce
  with rand [of w] have w1: "sends topic acme_message w w1" by (auto simp: correlation_New_def split: prod.splits option.splits)
  obtain tc err w2 where t: "resolveTenant ?h (WithCorrelationID (rq_Context r) k) k w1 = ((tc, err), w2)" by (metis prod.exhaust)
  then have w2: "sends topic acme_message w w2"
    using topic_growth.rel_trans [OF w1 resolveTenant_sends [OF net, of w1 st broker dir "WithCorrelationID (rq_Context r) k" k]] by simp
  have "sends topic acme_message w2 (snd (forward_claim ?h (WithCorrelationID (rq_Context r) k) k req w1))" for req
    using t platform_ProcessClaim_sends [OF net W fresh, of w2 st broker dir k "clock w2" "\<lparr>pq_Claim = Some (claim_of req k)\<rparr>"]
    by (auto simp: forward_claim_def forward_context_def Let_def sends_nothing sends_def split: option.split prod.split)
  then have "sends topic acme_message w (snd (forward_claim ?h (WithCorrelationID (rq_Context r) k) k req w1))" for req
    by (rule topic_growth.rel_trans [OF w2])
  then show ?thesis using step
    by (auto simp: SubmitClaim_def k intro: topic_growth.rel_refl split: if_splits sum.splits) (metis snd_conv)+
qed

section \<open>Properties\<close>

text \<open>
  (C9) The topic invariant: on the platform, over any tenants file, any DAG configuration and any network that delivers a
  call at most once -- late, or with a lost answer, or not at all -- whatever requests arrive in whatever order,
  messages are only ever added to the topic, and each is keyed by the gateway's tenant and
  reads back as an event of this tenant with status \<open>scored\<close> or \<open>degraded\<close> and a finite score. Requests handled
  concurrently are covered: while one of them draws its random bytes, calls a service or writes to the topic, others, which
  keep to the same rule, may add messages.
\<close>

theorem platform_topic_invariant:
  assumes "network_safe topic acme_message (xt_network x)"
    and "appends_copies topic acme_message (xt_WriteMessages x)" and "\<And>w. sends topic acme_message w (snd (rand_Read w))"
    and "serves rand_Read (platform_gateway x st broker dir) w w'" and "list_all acme_message (topic (env w))"
  shows "list_all acme_message (topic (env w')) \<and> take (length (topic (env w))) (topic (env w')) = topic (env w)"
proof -
  from assms(4) have "sends topic acme_message w w'"
  proof (induction rule: serves.induct)
    case (request w w1 r res w2)
    then show ?case by (blast intro: topic_growth.rel_trans SubmitClaim_sends [OF assms(1-3)])
  qed (blast intro: topic_growth.rel_refl topic_growth.rel_tick topic_growth.rel_trans)+
  with assms(5) show ?thesis by (auto simp: sends_def)
qed

text \<open>
  The platform answers. With the shipped DAG and an active tenant, every well-formed claim for its product
  and event type from a client that keeps waiting is answered with 200 and a complete body, whatever the policy number,
  name and address: the links deliver in less than 40 ms and the Kafka writer, whose outcome is left open, returns by the
  deadline of its context, so the Orchestration Service answers within the gateway's 5 seconds. The score
  is 0.05 for an active policy, 0.20 for a lapsed, 0.30 for a cancelled and 0.40 for
  an unknown one, plus 0.10 unless the address is valid, the address is the normalised one, and the status is \<open>scored\<close>
  if the writer accepted the event of this claim and \<open>degraded\<close> otherwise.
\<close>

lemma platform_answers_claim:
  assumes prompt: "network_prompt latency (xt_network x)" "latency < 40000000" and writer: "writes_by_deadline (xt_WriteMessages x)"
    and tenant: "Store_Get st ''acme_insurance'' = Some t" "t_Status t = ''active''" "t_DagVersions t ''auto'' = Some v"
    and files: "\<And>u. xt_ReadFile x u (dag_path dir ''acme_insurance'' ''auto'' ''claim.fnol'') = Inr data" "xt_Unmarshal x data = Inr acme_config"
    and request: "rq_Method r = ''POST''" "Decode (rq_Body r) = Inr req" "cr_ClaimID req \<noteq> ''''" "cr_Product req = ''auto''"
      "cr_EventType req = ''claim.fnol''" "done_at (rq_Context r) = None" "outgoing_md (rq_Context r) = []"
  shows "let k = fst (correlation_New rand_Read w);
      address = AddressNormalizer_normalize (xt_toUpperCase x) (Some (cr_RawAddress req));
      policy = PolicyLookup_lookup (xt_toUpperCase x) (Some (cr_PolicyNumber req))
    in \<exists>resp w' c m w3. SubmitClaim rand_Read (platform_gateway x st broker dir) r w = (Responded resp, w') \<and>
    hs_Status resp = 200 \<and>
    carries m (scored_event (cr_ClaimID req) k (hundredths (claim_cents (pl_status policy) (nm_valid address)))) \<and>
    hs_Body resp = Some (JObj
      [(''claim_id'', JStr (cr_ClaimID req)), (''correlation_id'', JStr k),
       (''status'', JStr (if fst (xt_WriteMessages x (NewPublisher broker) c m w3) = None then ''scored'' else ''degraded'')),
       (''normalized_address'', JStr (nm_normalizedAddress address)),
       (''fraud_score'', JNum (hundredths (claim_cents (pl_status policy) (nm_valid address)))), (''model_version'', JStr ''rules-v1'')])"
proof -
  define k address policy where defs: "k = fst (correlation_New rand_Read w)"
    "address = AddressNormalizer_normalize (xt_toUpperCase x) (Some (cr_RawAddress req))"
    "policy = PolicyLookup_lookup (xt_toUpperCase x) (Some (cr_PolicyNumber req))"
  let ?h = "platform_gateway x st broker dir"
  have version: "Store_DagVersion st ''acme_insurance'' ''auto'' = Some v"
    using tenant by (simp add: Store_DagVersion_def Store_Get_def)
  obtain w1 where k: "correlation_New rand_Read w = (k, w1)" unfolding defs by (metis prod.collapse)
  have "done_at (WithCorrelationID (rq_Context r) k) = None" using request(6) by simp
  from platform_resolveTenant [OF prompt this tenant(1)] tenant(2) obtain tc w2 where
    tc: "resolveTenant ?h (WithCorrelationID (rq_Context r) k) k w1 = ((Some tc, None), w2)" "tc_Status tc = ''active''" by metis
  have answer: "nr_NormalizedAddress (normalized_answer x (cr_RawAddress req)) = nm_normalizedAddress address"
    "nr_Valid (normalized_answer x (cr_RawAddress req)) = nm_valid address"
    "lr_Status (policy_answer x (cr_PolicyNumber req)) = pl_status policy"
    by (simp_all add: normalized_answer_def policy_answer_def defs Let_def)
  obtain res :: dag_result and w' c m w3 where
    rpc: "h_ProcessClaim ?h (forward_context (rq_Context r) k (clock w2)) \<lparr>pq_Claim = Some (claim_of req k)\<rparr> w2 =
      ((Some \<lparr>ps_ClaimId = cr_ClaimID req, ps_CorrelationId = k, ps_Status = r_Status res,
         ps_NormalizedAddress = r_NormalizedAddress res, ps_FraudScore = r_FraudScore res, ps_ModelVersion = r_ModelVersion res\<rparr>, None), w')"
    and res: "r_NormalizedAddress res = nm_normalizedAddress address"
      "r_FraudScore res = hundredths (claim_cents (pl_status policy) (nm_valid address))" "r_ModelVersion res = ''rules-v1''"
      "carries m (scored_event (cr_ClaimID req) k (r_FraudScore res))"
      "r_Status res = (if fst (xt_WriteMessages x (NewPublisher broker) c m w3) = None then ''scored'' else ''degraded'')"
    by (rule platform_ProcessClaim [OF prompt writer version files request(4-7), of broker k w2, unfolded answer])
  let ?pr = "\<lparr>ps_ClaimId = cr_ClaimID req, ps_CorrelationId = k, ps_Status = r_Status res,
    ps_NormalizedAddress = r_NormalizedAddress res, ps_FraudScore = r_FraudScore res, ps_ModelVersion = r_ModelVersion res\<rparr>"
  have "SubmitClaim rand_Read ?h r w = (Responded (writeJSON [] 200 (claimResponse_json ?pr)), w')"
    using request k tc rpc by (simp add: SubmitClaim_def forward_claim_def forward_context_def Let_def)
  with res show ?thesis unfolding Let_def defs [symmetric]
    by (intro exI [of _ "writeJSON [] 200 (claimResponse_json ?pr)"] exI [of _ w'] exI [of _ c] exI [of _ m] exI [of _ w3])
      (simp add: writeJSON_def claimResponse_json_def claim_score_finite)
qed

text \<open>
  A platform with ASCII case mappings, a broker that accepts every message, and the slow links of \<open>Network\<close>, of 10 ms each
  way; \<open>env\<close> is the topic.
\<close>

definition demo_network :: "'e network" where
  "demo_network =
     \<lparr>n_GetTenant = slow_transport, n_GetDagVersion = slow_transport, n_Normalize = slow_transport,
      n_HashClaimantId = slow_transport, n_LookupPolicy = slow_transport, n_Score = slow_transport, n_ProcessClaim = slow_transport\<rparr>"

lemma demo_network_safe: "network_safe topic G demo_network"
  by (simp add: network_safe_def demo_network_def slow_transport_once)

lemma demo_network_prompt: "network_prompt 20000000 demo_network"
  by (simp add: network_prompt_def demo_network_def slow_transport_within)

definition demo_externals :: "kafka_message list externals" where
  "demo_externals =
     \<lparr>xt_network = demo_network, xt_toUpperCase = map upper_ascii, xt_toLowerCase = map lower_ascii, xt_sha256 = toy_digest,
      xt_WriteMessages = append_writer, xt_ReadFile = (\<lambda>u p. Inr ''dag''), xt_Unmarshal = (\<lambda>d. Inr acme_config)\<rparr>"

lemma demo_contracts:
  "network_safe topic G (xt_network demo_externals)" "network_prompt 20000000 (xt_network demo_externals)"
  "writes_by_deadline (xt_WriteMessages demo_externals)"
proof -
  show "writes_by_deadline (xt_WriteMessages demo_externals)"
    unfolding writes_by_deadline_def demo_externals_def by (intro allI punctual.intro) (auto simp: append_writer_def)
qed (simp_all add: demo_externals_def demo_network_safe demo_network_prompt)

definition demo_platform :: "kafka_message list claims_handler" where
  "demo_platform = platform_gateway demo_externals \<lparr>byID = [''acme_insurance'' \<mapsto> acme_tenant]\<rparr> ''localhost:19092'' ''../../config/dag''"

definition smoke_request :: claimRequest where
  "smoke_request = \<lparr>cr_ClaimID = ''clm-1'', cr_Product = ''auto'', cr_EventType = ''claim.fnol'',
     cr_PolicyNumber = ''POL-123456'', cr_ClaimantName = ''Jane Doe'', cr_RawAddress = ''123 Main St, Springfield, IL 62704''\<rparr>"

lemma smoke_enrichment:
  "AddressNormalizer_normalize (map upper_ascii) (Some ''123 Main St, Springfield, IL 62704'') =
     \<lparr>nm_normalizedAddress = ''123 MAIN ST, SPRINGFIELD, IL, 62704, US'', nm_line1 = ''123 MAIN ST'',
      nm_city = ''SPRINGFIELD'', nm_state = ''IL'', nm_postalCode = ''62704'', nm_country = ''US'', nm_valid = True\<rparr>"
  "PolicyLookup_lookup (map upper_ascii) (Some ''POL-123456'') = \<lparr>pl_found = True, pl_status = ''active'', pl_coverageType = ''full''\<rparr>"
  by code_simp+

theorem platform_topic_invariant_witness:
  "list_all acme_message (env (snd (SubmitClaim demo_rand demo_platform (demo_request (Inr (request_json smoke_request))) empty_topic)))"
proof -
  let ?r = "demo_request (Inr (request_json smoke_request))"
  obtain res w' where s: "SubmitClaim demo_rand demo_platform ?r empty_topic = (res, w')" by fastforce
  have steps: "serves demo_rand demo_platform empty_topic w'"
    by (rule serves.request [OF serves.start _ s]) (simp add: demo_request_def Background_def)
  have W: "appends_copies id acme_message (xt_WriteMessages demo_externals)"
    by (simp add: demo_externals_def broker_executor_topic(3))
  have rand: "sends id acme_message w (snd (demo_rand w))" for w :: "kafka_message list world"
    by (simp add: demo_rand_def sends_def)
  have start: "list_all acme_message (id (env empty_topic))" by (simp add: empty_topic_def)
  have "list_all acme_message (id (env w'))"
    using platform_topic_invariant [OF demo_contracts(1) W rand steps [unfolded demo_platform_def] start] by (rule conjunct1)
  with s show ?thesis by simp
qed

end
