(* ===== verification/Wire.thy ===== *)
theory Wire
  imports ServeMux Shipped
begin

text \<open>
  The program at its edges, in bytes: the gateway as an HTTP handler that reads a request body and writes a response
  body, and the publisher's messages as the bytes on the topic. The documents of the other theories are related to the
  bytes by the JSON writer and reader.
\<close>

section \<open>The gateway\<close>

record wire_request =
  wq_Method :: string
  wq_RequestURI :: string
  wq_EscapedPath :: string
  wq_ProtoAtLeast11 :: bool
  wq_Body :: string
  wq_ReadError :: "string option"
  wq_Context :: gcontext

record wire_response =
  wr_Header :: "(string \<times> string) list"
  wr_Status :: nat
  wr_Body :: string

datatype wire_result = Answer wire_response | Redirect string | Aborted

definition route_of :: "(string \<Rightarrow> float64) \<Rightarrow> wire_request \<Rightarrow> route_request" where
  "route_of num q =
     \<lparr>rr_RequestURI = wq_RequestURI q, rr_EscapedPath = wq_EscapedPath q,
      rr_Request = \<lparr>rq_Method = wq_Method q, rq_Body = read_value num (wq_Body q) (wq_ReadError q), rq_Context = wq_Context q\<rparr>\<rparr>"

text \<open>\<open>Encoder.Encode\<close> ends the document with a newline.\<close>

definition encode_response :: "(float64 \<Rightarrow> string) \<Rightarrow> http_response \<Rightarrow> wire_response" where
  "encode_response fmt resp =
     \<lparr>wr_Header = hs_Header resp, wr_Status = hs_Status resp,
      wr_Body = (case hs_Body resp of None \<Rightarrow> [] | Some j \<Rightarrow> marshal_text fmt j @ [CHR 0x0A])\<rparr>"

definition gateway_http ::
  "(float64 \<Rightarrow> string) \<Rightarrow> (string \<Rightarrow> float64) \<Rightarrow> 'e rand_source \<Rightarrow> 'e claims_handler \<Rightarrow> wire_request \<Rightarrow> 'e world \<Rightarrow>
     wire_result \<times> 'e world"
where
  "gateway_http fmt num rand_Read h q w =
     (case ServeHTTP (gateway_mux rand_Read h) (route_of num q) w of
        (Handled (Responded resp), w') \<Rightarrow> (Answer (encode_response fmt resp), w')
      | (Handled Panicked, w') \<Rightarrow> (Aborted, w')
      | (MovedPermanently path, w') \<Rightarrow> (Redirect path, w')
      | (PageNotFound, w') \<Rightarrow>
          (Answer \<lparr>wr_Header = [(''Content-Type'', ''text/plain; charset=utf-8''), (''X-Content-Type-Options'', ''nosniff'')],
             wr_Status = 404, wr_Body = ''404 page not found'' @ [CHR 0x0A]\<rparr>, w')
      | (TargetRefused, w') \<Rightarrow>
          (Answer \<lparr>wr_Header = (if wq_ProtoAtLeast11 q then [(''Connection'', ''close'')] else []), wr_Status = 400, wr_Body = []\<rparr>, w'))"

section \<open>The topic\<close>

record kafka_record =
  kr_Key :: string
  kr_Value :: string

type_synonym 'e write_records =
  "kafka_writer \<Rightarrow> gcontext \<Rightarrow> kafka_record \<Rightarrow> 'e world \<Rightarrow> gerror option \<times> 'e world"

definition record_of :: "(float64 \<Rightarrow> string) \<Rightarrow> kafka_message \<Rightarrow> kafka_record" where
  "record_of fmt m = \<lparr>kr_Key = m_Key m, kr_Value = marshal_text fmt (m_Value m)\<rparr>"

definition Publish_bytes ::
  "(float64 \<Rightarrow> string) \<Rightarrow> 'e write_records \<Rightarrow> kafka_writer \<Rightarrow> gcontext \<Rightarrow> ScoredClaimEvent \<Rightarrow> 'e world \<Rightarrow> gerror option \<times> 'e world"
where
  "Publish_bytes fmt write = Publish (\<lambda>p ctx m. write p ctx (record_of fmt m))"

section \<open>Facts\<close>

lemma ascii_valid: "list_all (\<lambda>c. byte_in c 0x00 0x7F) s \<Longrightarrow> valid_utf8 s"
  by (induction s) (simp_all add: valid_utf8_Nil valid_ascii)

lemma valid_literal: "valid_utf8 s \<Longrightarrow> coerce s = s"
  by (simp add: valid_utf8_def)

lemma coerce_tags [simp]: "coerce (field_tag f) = field_tag f"
proof -
  have "list_all (\<lambda>f. list_all (\<lambda>c. byte_in c 0x00 0x7F) (field_tag f)) claim_fields" by code_simp
  then show ?thesis by (cases f) (simp_all add: claim_fields_def ascii_valid valid_literal)
qed

text \<open>A request and an event with the stray bytes of their texts replaced.\<close>

definition coerce_request :: "claimRequest \<Rightarrow> claimRequest" where
  "coerce_request r =
     \<lparr>cr_ClaimID = coerce (cr_ClaimID r), cr_Product = coerce (cr_Product r), cr_EventType = coerce (cr_EventType r),
      cr_PolicyNumber = coerce (cr_PolicyNumber r), cr_ClaimantName = coerce (cr_ClaimantName r), cr_RawAddress = coerce (cr_RawAddress r)\<rparr>"

definition coerce_event :: "ScoredClaimEvent \<Rightarrow> ScoredClaimEvent" where
  "coerce_event e =
     \<lparr>ev_ClaimID = coerce (ev_ClaimID e), ev_CorrelationID = coerce (ev_CorrelationID e), ev_TenantID = coerce (ev_TenantID e),
      ev_Status = coerce (ev_Status e), ev_FraudScore = ev_FraudScore e, ev_ModelVersion = coerce (ev_ModelVersion e)\<rparr>"

lemma get_field_coerce: "get_field f (coerce_request r) = coerce (get_field f r)"
  by (cases f) (simp_all add: coerce_request_def)

lemma coerce_request_json: "coerce_json (request_json r) = request_json (coerce_request r)"
  by (simp add: request_json_def get_field_coerce)

lemma request_json_read: "read_value num (marshal_text fmt (request_json r) @ trailing) ioerr = Inr (request_json (coerce_request r))"
proof -
  have "json_nums fmt num (request_json r)" "json_depth (request_json r) \<le> maxNestingDepth"
    by (simp_all add: request_json_def claim_fields_def maxNestingDepth_def)
  then show ?thesis unfolding coerce_request_json [symmetric] unfolding request_json_def by (rule read_object)
qed

lemma event_json:
  assumes "is_float64 (ev_FraudScore event)"
  obtains kvs where "marshal_event event = Inr (JObj kvs)" "json_floats (JObj kvs)" "json_depth (JObj kvs) \<le> maxNestingDepth"
    "read_event (coerce_json (JObj kvs)) = Some (coerce_event event)"
proof -
  have "is_finite (ev_FraudScore event)" using assms by (cases "ev_FraudScore event") simp_all
  then have unsup: "unsupported_value (ev_FraudScore event) = None" by simp
  have names: "coerce n = n" if "n \<in> {''claim_id'', ''correlation_id'', ''tenant_id'', ''status'', ''fraud_score'', ''model_version''}" for n
    using that by (auto intro!: valid_literal ascii_valid simp: byte_in_def)
  let ?kvs = "[(''claim_id'', JStr (ev_ClaimID event)), (''correlation_id'', JStr (ev_CorrelationID event)),
    (''tenant_id'', JStr (ev_TenantID event)), (''status'', JStr (ev_Status event)),
    (''fraud_score'', JNum (ev_FraudScore event)), (''model_version'', JStr (ev_ModelVersion event))]"
  show ?thesis
  proof (rule that [of ?kvs])
    show "marshal_event event = Inr (JObj ?kvs)" by (simp add: marshal_event_def unsup)
    show "json_floats (JObj ?kvs)" "json_depth (JObj ?kvs) \<le> maxNestingDepth" using assms by (simp_all add: maxNestingDepth_def)
    show "read_event (coerce_json (JObj ?kvs)) = Some (coerce_event event)"
      by (simp add: names read_event_def json_str_def json_num_def coerce_event_def)
  qed
qed

lemma coerce_event_id:
  "list_all valid_utf8 [ev_ClaimID e, ev_CorrelationID e, ev_TenantID e, ev_Status e, ev_ModelVersion e] \<Longrightarrow> coerce_event e = e"
  by (simp add: coerce_event_def valid_utf8_def)

text \<open>A request to the claims endpoint.\<close>

definition to_claims :: "wire_request \<Rightarrow> bool" where
  "to_claims q \<longleftrightarrow> wq_RequestURI q \<noteq> ''*'' \<and> take 1 (wq_EscapedPath q) = ''/'' \<and> path_segments (wq_EscapedPath q) = [''v1'', ''claims'']"

lemma gateway_http_claims:
  assumes "to_claims q"
  shows "gateway_http fmt num rand_Read h q w =
    (case SubmitClaim rand_Read h (rr_Request (route_of num q)) w of
       (Responded resp, w') \<Rightarrow> (Answer (encode_response fmt resp), w')
     | (Panicked, w') \<Rightarrow> (Aborted, w'))"
proof -
  have "hd (wq_EscapedPath q) = slash" using assms by (cases "wq_EscapedPath q") (simp_all add: to_claims_def slash_def)
  then have "cleanPath (wq_EscapedPath q) = wq_EscapedPath q"
    using assms by (intro cleanPath_plain) (simp_all add: to_claims_def plain_segment_def)
  then show ?thesis using assms
    by (simp add: gateway_http_def ServeHTTP_def route_of_def to_claims_def match_gateway Let_def split: prod.split)
qed

section \<open>Properties\<close>

text \<open>
  (C23) The published bytes. \<open>Publish\<close> hands the writer one record, keyed by the tenant, whose value is a single line of
  JSON that a consumer reads back as the event, field by field, with the very same score; texts that are well-formed
  UTF-8 come back unchanged. An event whose score is not finite is refused before anything is written.
\<close>

theorem Publish_bytes_roundtrip:
  assumes "float_texts fmt num" "is_finite (ev_FraudScore event) \<longleftrightarrow> is_float64 (ev_FraudScore event)"
  shows "if is_finite (ev_FraudScore event)
    then \<exists>line. list_all inert line \<and>
      (\<exists>j. read_value num line None = Inr j \<and> read_event j = Some (coerce_event event)) \<and>
      (list_all valid_utf8 [ev_ClaimID event, ev_CorrelationID event, ev_TenantID event, ev_Status event, ev_ModelVersion event] \<longrightarrow>
         coerce_event event = event) \<and>
      Publish_bytes fmt write p ctx event w =
        (case write p ctx \<lparr>kr_Key = ev_TenantID event, kr_Value = line\<rparr> w of
           (err, w') \<Rightarrow> (map_option (WrapError [Lit ''write to claims.realtime'']) err, w'))
    else \<exists>err. Publish_bytes fmt write p ctx event w = (Some err, w)"
proof (cases "is_finite (ev_FraudScore event)")
  case False
  then obtain err where "marshal_event event = Inl err" using marshal_event_finite [of event] by (cases "marshal_event event") auto
  with False show ?thesis by (simp add: Publish_bytes_def Publish_def)
next
  case True
  from event_json [OF assms(2) [THEN iffD1, OF True]] obtain kvs where kvs: "marshal_event event = Inr (JObj kvs)" "json_floats (JObj kvs)"
    "json_depth (JObj kvs) \<le> maxNestingDepth" "read_event (coerce_json (JObj kvs)) = Some (coerce_event event)" .
  let ?line = "marshal_text fmt (JObj kvs)"
  note nums = float_texts_nums [OF assms(1) kvs(2)]
  have "read_value num ?line None = Inr (coerce_json (JObj kvs))" using read_object [OF nums kvs(3), of "[]"] by simp
  moreover have "Publish_bytes fmt write p ctx event w =
      (case write p ctx \<lparr>kr_Key = ev_TenantID event, kr_Value = ?line\<rparr> w of
         (err, w') \<Rightarrow> (map_option (WrapError [Lit ''write to claims.realtime'']) err, w'))"
    by (auto simp: Publish_bytes_def Publish_def record_of_def kvs(1) TopicClaimsRealtime_def split: prod.split option.split)
  ultimately have "\<exists>line. list_all inert line \<and>
      (\<exists>j. read_value num line None = Inr j \<and> read_event j = Some (coerce_event event)) \<and>
      (list_all valid_utf8 [ev_ClaimID event, ev_CorrelationID event, ev_TenantID event, ev_Status event, ev_ModelVersion event] \<longrightarrow>
         coerce_event event = event) \<and>
      Publish_bytes fmt write p ctx event w =
        (case write p ctx \<lparr>kr_Key = ev_TenantID event, kr_Value = line\<rparr> w of
           (err, w') \<Rightarrow> (map_option (WrapError [Lit ''write to claims.realtime'']) err, w'))"
    using kvs(4) inert_text [OF nums] coerce_event_id [of event] by (intro exI [of _ ?line]) blast
  with True show ?thesis by simp
qed

text \<open>
  (C18) The bytes of a request. A POST to the claims endpoint whose body starts with the JSON text of a claim is handled
  as that claim, texts that are not UTF-8 having their stray bytes replaced: whatever follows the document in the body,
  and any error met while reading on, has no influence.
\<close>

theorem SubmitClaim_bytes:
  assumes "to_claims q" "wq_Body q = marshal_text fmt (request_json req) @ trailing"
  shows "gateway_http fmt num rand_Read h q w =
    (case SubmitClaim rand_Read h \<lparr>rq_Method = wq_Method q, rq_Body = Inr (request_json (coerce_request req)), rq_Context = wq_Context q\<rparr> w of
       (Responded resp, w') \<Rightarrow> (Answer (encode_response fmt resp), w')
     | (Panicked, w') \<Rightarrow> (Aborted, w')) \<and>
    Decode (Inr (request_json (coerce_request req))) = Inr (coerce_request req)"
  using assms by (simp add: gateway_http_claims route_of_def request_json_read decode_request_json)

lemma string_kind: "json_kind v = ''string'' \<longleftrightarrow> (\<exists>s. v = JStr s)"
  by (cases v) simp_all

text \<open>The scores of the orchestration client are values of the type \<open>float64\<close>.\<close>

definition float_scores :: "'e claims_handler \<Rightarrow> bool" where
  "float_scores h \<longleftrightarrow>
     (\<forall>c rq w pr w'. h_ProcessClaim h c rq w = ((Some pr, None), w') \<longrightarrow> is_finite (ps_FraudScore pr) \<longrightarrow> is_float64 (ps_FraudScore pr))"

text \<open>
  The request is forwarded: it is valid and its tenant active, and \<open>answer\<close> is what the orchestration client returns
  for its claim, under the new correlation id, in the context that carries the gateway's tenant and deadline.
\<close>

definition forwards ::
  "'e rand_source \<Rightarrow> 'e claims_handler \<Rightarrow> http_request \<Rightarrow> 'e world \<Rightarrow> ProcessClaimResponse option \<times> gerror option \<Rightarrow> 'e world \<Rightarrow> bool"
where
  "forwards rand_Read h r w answer w' \<longleftrightarrow>
     (\<exists>req k w1 tc w2. rq_Method r = ''POST'' \<and> Decode (rq_Body r) = Inr req \<and>
        cr_ClaimID req \<noteq> '''' \<and> cr_Product req \<noteq> '''' \<and> cr_EventType req \<noteq> '''' \<and>
        correlation_New rand_Read w = (k, w1) \<and>
        resolveTenant h (WithCorrelationID (rq_Context r) k) k w1 = ((tc, None), w2) \<and> get_str tc_Status tc = ''active'' \<and>
        h_ProcessClaim h (forward_context (rq_Context r) k (clock w2)) \<lparr>pq_Claim = Some (claim_of req k)\<rparr> w2 = (answer, w'))"

lemma accepted_forwards:
  assumes "SubmitClaim rand_Read h r w = (Responded resp, w')" and "hs_Status resp = 200"
  obtains pr where "forwards rand_Read h r w (Some pr, None) w'" "resp = writeJSON [] 200 (claimResponse_json pr)"
  by (rule accepted_cases [OF assms]) (auto intro!: that simp: forwards_def)

lemma panicked_forwards:
  assumes "SubmitClaim rand_Read h r w = (Panicked, w')"
  shows "forwards rand_Read h r w (None, None) w'"
proof -
  from assms obtain req where req: "rq_Method r = ''POST''" "Decode (rq_Body r) = Inr req"
    "cr_ClaimID req \<noteq> ''''" "cr_Product req \<noteq> ''''" "cr_EventType req \<noteq> ''''"
    by (auto simp: SubmitClaim_def split: if_splits sum.splits)
  obtain k w1 where k: "correlation_New rand_Read w = (k, w1)" by fastforce
  let ?ctx = "WithCorrelationID (rq_Context r) k"
  obtain tc err w2 where t: "resolveTenant h ?ctx k w1 = ((tc, err), w2)" by (metis prod.exhaust)
  have "forward_claim h ?ctx k req w1 = (Panicked, w')" using assms req k by (simp add: SubmitClaim_def)
  then have "err = None" "get_str tc_Status tc = ''active''"
    "h_ProcessClaim h (forward_context (rq_Context r) k (clock w2)) \<lparr>pq_Claim = Some (claim_of req k)\<rparr> w2 = ((None, None), w')"
    using t by (auto simp: forward_claim_def forward_context_def Let_def split: option.splits prod.splits if_splits)
  with req k t show ?thesis by (auto simp: forwards_def)
qed

text \<open>What a client reads in the answer to an accepted claim.\<close>

definition claim_document :: "ProcessClaimResponse \<Rightarrow> json" where
  "claim_document pr =
     JObj [(''claim_id'', JStr (coerce (ps_ClaimId pr))), (''correlation_id'', JStr (coerce (ps_CorrelationId pr))),
           (''status'', JStr (coerce (ps_Status pr))), (''normalized_address'', JStr (coerce (ps_NormalizedAddress pr))),
           (''fraud_score'', JNum (ps_FraudScore pr)), (''model_version'', JStr (coerce (ps_ModelVersion pr)))]"

text \<open>A body of one line, without a byte that could open a tag or an entity, which reads as \<open>j\<close>.\<close>

definition line_of :: "(string \<Rightarrow> float64) \<Rightarrow> string \<Rightarrow> json \<Rightarrow> bool" where
  "line_of num body j \<longleftrightarrow> (\<exists>line. body = line @ [CHR 0x0A] \<and> list_all inert line \<and> read_value num body None = Inr j)"

lemma object_line:
  assumes "json_nums fmt num (JObj kvs)" and "json_depth (JObj kvs) \<le> maxNestingDepth"
  shows "line_of num (marshal_text fmt (JObj kvs) @ [CHR 0x0A]) (coerce_json (JObj kvs))"
  unfolding line_of_def
  by (intro exI [of _ "marshal_text fmt (JObj kvs)"] conjI refl inert_text [OF assms(1)] read_object [OF assms])

lemma claim_line:
  assumes "float_texts fmt num" and "float_scores h" and "forwards rand_Read h r w (Some pr, None) w'"
    and "is_finite (ps_FraudScore pr)"
  shows "line_of num (marshal_text fmt (claimResponse_json pr) @ [CHR 0x0A]) (claim_document pr)"
proof -
  have names: "coerce n = n"
    if "n \<in> {''claim_id'', ''correlation_id'', ''normalized_address'', ''status'', ''fraud_score'', ''model_version''}" for n
    using that by (auto intro!: valid_literal ascii_valid simp: byte_in_def)
  obtain c rq w2 where "h_ProcessClaim h c rq w2 = ((Some pr, None), w')" using assms(3) by (auto simp: forwards_def)
  then have "is_float64 (ps_FraudScore pr)" using assms(2,4) unfolding float_scores_def by blast
  then have "json_floats (claimResponse_json pr)" by (simp add: claimResponse_json_def)
  from object_line [OF float_texts_nums [OF assms(1) this, unfolded claimResponse_json_def]] show ?thesis
    by (simp add: claimResponse_json_def claim_document_def names maxNestingDepth_def)
qed

lemma error_line:
  assumes "error_body j"
  shows "\<exists>msg. line_of num (marshal_text fmt j @ [CHR 0x0A]) (JObj [(''error'', JStr msg)])"
proof -
  obtain msg where j: "j = JObj [(''error'', JStr msg)]"
    using assms by (auto simp: error_body_def json_shape_def string_kind split: json.splits)
  have "coerce ''error'' = ''error''" by (auto intro!: valid_literal ascii_valid simp: byte_in_def)
  then show ?thesis
    unfolding j using object_line [of fmt num "[(''error'', JStr msg)]"] by (auto simp: maxNestingDepth_def)
qed

text \<open>
  (C17) The bytes of an answer. Whatever the bytes of a request to the claims endpoint and whatever the services do, the
  answer has status 200, 400, 403, 405 or 502 and the JSON content type. It is 200 only if the request was forwarded and the
  orchestration client returned a response; then, when the score of that response is finite, the body is one line of JSON, ended by a
  newline, that reads as the claim object with the six values of the response, and when the score is not finite, which JSON cannot
  express, the body is empty. With every other status the body is one line that reads as the error object. No byte of a line can
  open a tag or an entity, although error messages quote the request. The handler panics, and the connection is aborted,
  only if the client returned neither a response nor an error for the forwarded claim.
\<close>

theorem SubmitClaim_response_bytes:
  assumes "to_claims q" "float_texts fmt num"
    and "float_scores h"
  shows "case gateway_http fmt num rand_Read h q w of
      (Redirect p, w') \<Rightarrow> False
    | (Aborted, w') \<Rightarrow> forwards rand_Read h (rr_Request (route_of num q)) w (None, None) w'
    | (Answer resp, w') \<Rightarrow>
        wr_Status resp \<in> {200, 400, 403, 405, 502} \<and> (''Content-Type'', ''application/json'') \<in> set (wr_Header resp) \<and>
        (if wr_Status resp = 200
         then \<exists>pr. forwards rand_Read h (rr_Request (route_of num q)) w (Some pr, None) w' \<and>
           (if is_finite (ps_FraudScore pr) then line_of num (wr_Body resp) (claim_document pr) else wr_Body resp = [])
         else \<exists>msg. line_of num (wr_Body resp) (JObj [(''error'', JStr msg)]))"
proof -
  let ?r = "rr_Request (route_of num q)"
  obtain res w' where s: "SubmitClaim rand_Read h ?r w = (res, w')" by fastforce
  show ?thesis
  proof (cases res)
    case Panicked
    with panicked_forwards s show ?thesis by (simp add: gateway_http_claims [OF assms(1)])
  next
    case (Responded resp)
    have typed: "typed_response resp"
      using SubmitClaim_typed [where rand_Read = rand_Read and h = h and r = ?r and w = w] s Responded by simp
    have http: "gateway_http fmt num rand_Read h q w = (Answer (encode_response fmt resp), w')"
      using s Responded by (simp add: gateway_http_claims [OF assms(1)])
    have head: "wr_Status (encode_response fmt resp) \<in> {200, 400, 403, 405, 502}"
      "(''Content-Type'', ''application/json'') \<in> set (wr_Header (encode_response fmt resp))"
      using typed by (simp_all add: encode_response_def typed_response_def)
    have "if wr_Status (encode_response fmt resp) = 200
        then \<exists>pr. forwards rand_Read h ?r w (Some pr, None) w' \<and>
          (if is_finite (ps_FraudScore pr) then line_of num (wr_Body (encode_response fmt resp)) (claim_document pr)
           else wr_Body (encode_response fmt resp) = [])
        else \<exists>msg. line_of num (wr_Body (encode_response fmt resp)) (JObj [(''error'', JStr msg)])"
    proof (cases "hs_Status resp = 200")
      case True
      from accepted_forwards [OF s [unfolded Responded] True] obtain pr where
        pr: "forwards rand_Read h ?r w (Some pr, None) w'" "resp = writeJSON [] 200 (claimResponse_json pr)" .
      have "hs_Body resp = (if is_finite (ps_FraudScore pr) then Some (claimResponse_json pr) else None)"
        by (simp add: pr(2) writeJSON_def claimResponse_json_def)
      with True pr(1) claim_line [OF assms(2,3) pr(1)] show ?thesis
        by (simp add: encode_response_def) blast
    next
      case False
      with typed obtain j where "hs_Body resp = Some j" "error_body j"
        by (auto simp: typed_response_def split: option.splits)
      with False error_line [of j num fmt] show ?thesis by (simp add: encode_response_def)
    qed
    with head show ?thesis unfolding http prod.case wire_result.case by (intro conjI)
  qed
qed

section \<open>A decimal form of numbers\<close>

text \<open>
  A pair of conversions with the property relied on. It writes a fraction as an integer with an exponent, both in unary.
\<close>

definition unary_fmt :: "float64 \<Rightarrow> string" where
  "unary_fmt x =
     (case x of
        Fin r \<Rightarrow>
          (case quotient_of r of
             (a, b) \<Rightarrow> (if a < 0 then ''-'' else '''') @ replicate (Suc (nat \<bar>a\<bar>)) (CHR ''1'') @ ''e'' @ replicate (nat b) (CHR ''1''))
      | _ \<Rightarrow> ''0'')"

definition unary_num :: "string \<Rightarrow> float64" where
  "unary_num s =
     (let digits = dropWhile (\<lambda>c. c = CHR ''-'') s;
          a = of_nat (length (takeWhile (\<lambda>c. c \<noteq> CHR ''e'') digits) - 1);
          b = of_nat (length (dropWhile (\<lambda>c. c \<noteq> CHR ''e'') digits) - 1)
      in Fin ((if take 1 s = ''-'' then - a else a) / b))"

lemma unary_digits:
  "num_run Int1 (replicate n (CHR ''1'') @ s) = num_run Int1 s" "num_run Exp0 (replicate n (CHR ''1'')) = Some Exp0"
  by (induction n) (simp_all add: isDigit_def byte_in_def)

lemma unary_literal:
  "0 < b \<Longrightarrow> number_text (replicate (Suc a) (CHR ''1'') @ CHR ''e'' # replicate b (CHR ''1''))"
  "0 < b \<Longrightarrow> number_text (CHR ''-'' # replicate (Suc a) (CHR ''1'') @ CHR ''e'' # replicate b (CHR ''1''))"
  by (cases b; simp add: number_text_def num_start_def isDigit_def byte_in_def unary_digits exponent_char_def num_complete_def)+

lemma unary_texts: "float_texts unary_fmt unary_num"
  unfolding float_texts_def
proof (intro allI impI)
  fix x assume "is_float64 x"
  then obtain r where x: "x = Fin r" by (cases x) simp_all
  obtain a b where q: "quotient_of r = (a, b)" by fastforce
  have b: "0 < b" "r = of_int a / of_int b" using quotient_of_denom_pos [OF q] quotient_of_div [OF q] by simp_all
  have "takeWhile (\<lambda>c. c \<noteq> CHR ''e'') (replicate n (CHR ''1'') @ CHR ''e'' # s) = replicate n (CHR ''1'')"
    "dropWhile (\<lambda>c. c \<noteq> CHR ''e'') (replicate n (CHR ''1'') @ CHR ''e'' # s) = CHR ''e'' # s" for n s
    by (induction n) simp_all
  moreover have "unary_fmt x = (if a < 0 then ''-'' else '''') @ replicate (Suc (nat \<bar>a\<bar>)) (CHR ''1'') @ ''e'' @ replicate (nat b) (CHR ''1'')"
    by (simp add: unary_fmt_def x q)
  moreover have "x = Fin (of_int a / of_int b)" by (simp add: x b(2))
  ultimately show "number_text (unary_fmt x) \<and> unary_num (unary_fmt x) = x"
    using unary_literal [of "nat b" "nat \<bar>a\<bar>"] b(1) by (cases "a < 0") (simp_all add: unary_num_def Let_def)
qed

section \<open>The platform\<close>

lemma claim_score_float64: "is_float64 (hundredths (claim_cents status valid))"
  using claim_score_finite [of status valid] by (simp add: hundredths_def rounded_is_float64)

lemma correlation_valid: "valid_utf8 (fst (correlation_New rand_Read w))"
proof (rule ascii_valid)
  have "list_all (\<lambda>c. byte_in c 0x00 0x7F) ''correlation-id-unavailable''" "list_all (\<lambda>c. byte_in c 0x00 0x7F) hextable"
    by code_simp+
  then show "list_all (\<lambda>c. byte_in c 0x00 0x7F) (fst (correlation_New rand_Read w))"
    using hex_chars by (auto simp: correlation_New_def list_all_iff split: prod.split option.split)
qed

definition request_utf8 :: "claimRequest \<Rightarrow> bool" where
  "request_utf8 r \<longleftrightarrow> list_all (\<lambda>f. valid_utf8 (get_field f r)) claim_fields"

lemma coerce_request_id: "request_utf8 r \<Longrightarrow> coerce_request r = r"
  by (simp add: request_utf8_def claim_fields_def coerce_request_def valid_utf8_def)

text \<open>
  (C7) The platform answers, in bytes, while its network does. With the shipped DAG and an active tenant, every POST to the
  claims endpoint whose body starts with the JSON text of a claim for its product and event type, from a client that keeps
  waiting, is answered with 200 and a line of JSON, whatever the policy number, name and address. The conditions are
  that each of the seven gRPC links delivers a call and its answer in less than 40 ms of transit when the deadline of the
  caller allows it, and that the Kafka writer, whose outcome is left open, returns by the deadline of its context; the
  gateway's deadline of 5 seconds is then kept. The score is 0.05 for an active
  policy, 0.20 for a lapsed, 0.30 for a cancelled and 0.40 for an unknown one, plus 0.10 unless the address is valid, the
  address is the normalised one, and the status is \<open>scored\<close> if the writer accepted the event of this claim and
  \<open>degraded\<close> otherwise.
\<close>

theorem shipped_platform_answers:
  assumes conditions: "network_prompt latency (xt_network x)" "latency < 40000000" "writes_by_deadline (xt_WriteMessages x)"
    and tenant: "Store_Get st ''acme_insurance'' = Some t" "t_Status t = ''active''" "t_DagVersions t ''auto'' = Some v"
    and files: "\<And>u. xt_ReadFile x u (dag_path dir ''acme_insurance'' ''auto'' ''claim.fnol'') = Inr data" "xt_Unmarshal x data = Inr acme_config"
    and numbers: "float_texts fmt num"
    and request: "to_claims q" "wq_Method q = ''POST''" "wq_Body q = marshal_text fmt (request_json req) @ trailing" "request_utf8 req"
      "cr_ClaimID req \<noteq> ''''" "cr_Product req = ''auto''" "cr_EventType req = ''claim.fnol''"
      "done_at (wq_Context q) = None" "outgoing_md (wq_Context q) = []"
  shows "let k = fst (correlation_New rand_Read w);
      address = AddressNormalizer_normalize (xt_toUpperCase x) (Some (cr_RawAddress req));
      policy = PolicyLookup_lookup (xt_toUpperCase x) (Some (cr_PolicyNumber req));
      score = hundredths (claim_cents (pl_status policy) (nm_valid address))
    in \<exists>resp w' c m w3. gateway_http fmt num rand_Read (platform_gateway x st broker dir) q w = (Answer resp, w') \<and>
    wr_Status resp = 200 \<and> carries m (scored_event (cr_ClaimID req) k score) \<and>
    read_value num (wr_Body resp) None = Inr (JObj
      [(''claim_id'', JStr (cr_ClaimID req)), (''correlation_id'', JStr k),
       (''status'', JStr (if fst (xt_WriteMessages x (NewPublisher broker) c m w3) = None then ''scored'' else ''degraded'')),
       (''normalized_address'', JStr (coerce (nm_normalizedAddress address))),
       (''fraud_score'', JNum score), (''model_version'', JStr ''rules-v1'')])"
proof -
  define k address policy where defs: "k = fst (correlation_New rand_Read w)"
    "address = AddressNormalizer_normalize (xt_toUpperCase x) (Some (cr_RawAddress req))"
    "policy = PolicyLookup_lookup (xt_toUpperCase x) (Some (cr_PolicyNumber req))"
  define score where "score = hundredths (claim_cents (pl_status policy) (nm_valid address))"
  let ?r = "\<lparr>rq_Method = ''POST'', rq_Body = Inr (request_json req), rq_Context = wq_Context q\<rparr>"
  let ?doc = "\<lambda>c m w3. [(''claim_id'', JStr (cr_ClaimID req)), (''correlation_id'', JStr k),
    (''status'', JStr (if fst (xt_WriteMessages x (NewPublisher broker) c m w3) = None then ''scored'' else ''degraded'')),
    (''normalized_address'', JStr (nm_normalizedAddress address)), (''fraud_score'', JNum score), (''model_version'', JStr ''rules-v1'')]"
  have handled: "gateway_http fmt num rand_Read (platform_gateway x st broker dir) q w =
      (case SubmitClaim rand_Read (platform_gateway x st broker dir) ?r w of
         (Responded resp, w') \<Rightarrow> (Answer (encode_response fmt resp), w') | (Panicked, w') \<Rightarrow> (Aborted, w'))"
    using request by (simp add: gateway_http_claims route_of_def request_json_read coerce_request_id)
  obtain resp w' c m w3 where s: "SubmitClaim rand_Read (platform_gateway x st broker dir) ?r w = (Responded resp, w')"
    "hs_Status resp = 200" "carries m (scored_event (cr_ClaimID req) k score)" "hs_Body resp = Some (JObj (?doc c m w3))"
    using platform_answers_claim [OF conditions tenant files, of ?r req rand_Read w broker] request(5-9)
    unfolding Let_def defs [symmetric] score_def by (auto simp: decode_request_json)
  have "json_nums fmt num (JObj (?doc c m w3))"
    by (rule float_texts_nums [OF numbers]) (simp add: score_def claim_score_float64)
  from read_object [OF this, of "[CHR 0x0A]" None]
  have "read_value num (wr_Body (encode_response fmt resp)) None = Inr (coerce_json (JObj (?doc c m w3)))"
    by (simp add: encode_response_def s(4) maxNestingDepth_def)
  moreover have "coerce n = n"
    if "n \<in> {''claim_id'', ''correlation_id'', ''normalized_address'', ''status'', ''fraud_score'', ''model_version'', ''scored'', ''degraded'', ''rules-v1''}" for n
    using that by (auto intro!: valid_literal ascii_valid simp: byte_in_def)
  moreover have "coerce k = k" unfolding defs by (intro valid_literal correlation_valid)
  moreover have "coerce (cr_ClaimID req) = cr_ClaimID req" using request(4) by (simp add: request_utf8_def claim_fields_def valid_literal)
  ultimately show ?thesis
    unfolding Let_def defs [symmetric] score_def [symmetric] handled
    using s(1-3) by (intro exI [of _ "encode_response fmt resp"] exI [of _ w'] exI [of _ c] exI [of _ m] exI [of _ w3])
      (simp add: encode_response_def)
qed

section \<open>Examples\<close>

text \<open>A claim posted with bytes after the document, to a path with an escaped letter.\<close>

definition demo_post :: "string \<Rightarrow> wire_request" where
  "demo_post body =
     \<lparr>wq_Method = ''POST'', wq_RequestURI = ''/v1/cl%61ims'', wq_EscapedPath = ''/v1/cl%61ims'', wq_ProtoAtLeast11 = True,
      wq_Body = body, wq_ReadError = Some ''unexpected EOF'', wq_Context = Background\<rparr>"

lemma demo_post_claims: "to_claims (demo_post body)"
proof -
  have "path_segments ''/v1/cl%61ims'' = [''v1'', ''claims'']" by code_simp
  then show ?thesis by (simp add: to_claims_def demo_post_def)
qed

lemma smoke_utf8: "request_utf8 smoke_request"
proof -
  have "list_all (\<lambda>f. list_all (\<lambda>c. byte_in c 0x00 0x7F) (get_field f smoke_request)) claim_fields" by code_simp
  then show ?thesis by (auto simp: request_utf8_def list_all_iff intro!: ascii_valid)
qed

definition demo_event :: ScoredClaimEvent where
  "demo_event = \<lparr>ev_ClaimID = ''clm-1'', ev_CorrelationID = ''k'', ev_TenantID = ''acme_insurance'', ev_Status = ''scored'',
     ev_FraudScore = hundredths 5, ev_ModelVersion = ''<rules>''\<rparr>"

definition no_records :: "kafka_record list world" where
  "no_records = \<lparr>clock = 0, logs = [], sched = (\<lambda>t. False), env = []\<rparr>"

definition append_record :: "kafka_record list write_records" where
  "append_record p ctx m w = (None, w\<lparr>env := env w @ [m]\<rparr>)"

lemma five_hundredths: "is_float64 (hundredths 5)"
  using claim_score_float64 [of "''active''" True] by (simp add: claim_cents_def)

theorem Publish_bytes_roundtrip_witness:
  "\<exists>line j. list_all inert line \<and> read_value unary_num line None = Inr j \<and> read_event j = Some demo_event \<and>
     Publish_bytes unary_fmt append_record (NewPublisher ''localhost:19092'') Background demo_event no_records =
       (None, no_records\<lparr>env := [\<lparr>kr_Key = ''acme_insurance'', kr_Value = line\<rparr>]\<rparr>)"
proof -
  have "list_all (\<lambda>s. list_all (\<lambda>c. byte_in c 0x00 0x7F) s)
      [ev_ClaimID demo_event, ev_CorrelationID demo_event, ev_TenantID demo_event, ev_Status demo_event, ev_ModelVersion demo_event]"
    by code_simp
  then have "list_all valid_utf8
      [ev_ClaimID demo_event, ev_CorrelationID demo_event, ev_TenantID demo_event, ev_Status demo_event, ev_ModelVersion demo_event]"
    by (simp add: ascii_valid)
  then have utf8: "coerce_event demo_event = demo_event" by (rule coerce_event_id)
  have "is_float64 (ev_FraudScore demo_event)" "is_finite (ev_FraudScore demo_event)"
    using five_hundredths by (cases "hundredths 5"; simp add: demo_event_def)+
  then have "is_finite (ev_FraudScore demo_event) \<longleftrightarrow> is_float64 (ev_FraudScore demo_event)" by simp
  note this \<open>is_finite (ev_FraudScore demo_event)\<close>
  with Publish_bytes_roundtrip [of unary_fmt unary_num demo_event append_record "NewPublisher ''localhost:19092''" Background no_records,
      OF unary_texts]
  show ?thesis by (auto simp: append_record_def no_records_def utf8) (auto simp: demo_event_def)
qed

theorem SubmitClaim_bytes_witness:
  "\<exists>resp w'. gateway_http unary_fmt unary_num demo_rand (demo_handler ''active'')
     (demo_post (marshal_text unary_fmt (request_json smoke_request) @ ''garbage'')) quiet_world = (Answer resp, w') \<and> wr_Status resp = 200"
proof -
  have "coerce_request smoke_request = smoke_request" by (rule coerce_request_id [OF smoke_utf8])
  moreover have "\<exists>resp w'. SubmitClaim demo_rand (demo_handler ''active'')
      \<lparr>rq_Method = ''POST'', rq_Body = Inr (request_json smoke_request), rq_Context = Background\<rparr> quiet_world = (Responded resp, w') \<and>
      hs_Status resp = 200"
    by (simp add: SubmitClaim_def decode_request_json smoke_request_def demo_rand_def correlation_New_def forward_claim_def
        resolveTenant_def demo_handler_def writeJSON_def Let_def)
  ultimately show ?thesis
    using SubmitClaim_bytes [OF demo_post_claims, of "marshal_text unary_fmt (request_json smoke_request) @ ''garbage''"
        unary_fmt smoke_request "''garbage''" unary_num demo_rand "demo_handler ''active''" quiet_world]
    by (auto simp: demo_post_def encode_response_def)
qed

theorem SubmitClaim_response_bytes_witness:
  "(\<exists>resp w' msg. gateway_http unary_fmt unary_num demo_rand (demo_handler ''active'') (demo_post ''<script>'') quiet_world = (Answer resp, w') \<and>
     wr_Status resp = 400 \<and> line_of unary_num (wr_Body resp) (JObj [(''error'', JStr msg)])) \<and>
   (\<exists>resp w' k. gateway_http unary_fmt unary_num demo_rand (demo_handler ''active'')
       (demo_post (marshal_text unary_fmt (request_json smoke_request))) quiet_world = (Answer resp, w') \<and>
     wr_Status resp = 200 \<and> line_of unary_num (wr_Body resp) (JObj
       [(''claim_id'', JStr ''clm-1''), (''correlation_id'', JStr k), (''status'', JStr ''scored''), (''normalized_address'', JStr ''''),
        (''fraud_score'', JNum (hundredths 5)), (''model_version'', JStr ''rules-v1'')]))"
proof
  let ?h = "demo_handler ''active'' :: unit claims_handler"
  have floats: "float_scores ?h" by (auto simp: float_scores_def demo_handler_def five_hundredths)
  note response = SubmitClaim_response_bytes [where h = ?h and rand_Read = demo_rand and w = quiet_world, OF demo_post_claims unary_texts floats]
  have "read_value unary_num ''<script>'' (Some ''unexpected EOF'') = Inl (''invalid character '' @ [CHR 0x27, CHR ''<'', CHR 0x27] @ '' looking for beginning of value'')"
    by code_simp
  then have "\<exists>resp w'. gateway_http unary_fmt unary_num demo_rand ?h (demo_post ''<script>'') quiet_world = (Answer resp, w') \<and>
      wr_Status resp = 400"
    unfolding gateway_http_claims [OF demo_post_claims]
    by (simp add: route_of_def demo_post_def SubmitClaim_def Decode_def writeError_def errorResponse_json_def writeJSON_def encode_response_def)
  with response [of "''<script>''"] show "\<exists>resp w' msg. gateway_http unary_fmt unary_num demo_rand ?h (demo_post ''<script>'') quiet_world = (Answer resp, w') \<and>
     wr_Status resp = 400 \<and> line_of unary_num (wr_Body resp) (JObj [(''error'', JStr msg)])" by auto
  let ?b = "marshal_text unary_fmt (request_json smoke_request)"
  have body: "read_value unary_num ?b (Some ''unexpected EOF'') = Inr (request_json smoke_request)"
    using request_json_read [of unary_num unary_fmt smoke_request "[]"] coerce_request_id [OF smoke_utf8] by simp
  then obtain resp w' where ok: "gateway_http unary_fmt unary_num demo_rand ?h (demo_post ?b) quiet_world = (Answer resp, w')" "wr_Status resp = 200"
    unfolding gateway_http_claims [OF demo_post_claims]
    by (simp add: route_of_def demo_post_def SubmitClaim_def decode_request_json smoke_request_def demo_rand_def correlation_New_def
        forward_claim_def resolveTenant_def demo_handler_def writeJSON_def encode_response_def Let_def)
  then obtain pr where pr: "forwards demo_rand ?h (rr_Request (route_of unary_num (demo_post ?b))) quiet_world (Some pr, None) w'"
    "if is_finite (ps_FraudScore pr) then line_of unary_num (wr_Body resp) (claim_document pr) else wr_Body resp = []"
    using response [of ?b] by auto
  have "rq_Body (rr_Request (route_of unary_num (demo_post ?b))) = Inr (request_json smoke_request)"
    by (simp add: route_of_def demo_post_def body)
  moreover have "cr_ClaimID smoke_request = ''clm-1''" by (simp add: smoke_request_def)
  ultimately have fields: "ps_ClaimId pr = ''clm-1''" "ps_Status pr = ''scored''" "ps_NormalizedAddress pr = ''''" "ps_FraudScore pr = hundredths 5"
    "ps_ModelVersion pr = ''rules-v1''"
    using pr(1) by (auto simp: forwards_def decode_request_json demo_handler_def claim_of_def)
  have "coerce n = n" if "n \<in> {''clm-1'', ''scored'', '''', ''rules-v1''}" for n
    using that by (auto intro!: valid_literal ascii_valid simp: byte_in_def)
  then have "claim_document pr = JObj [(''claim_id'', JStr ''clm-1''), (''correlation_id'', JStr (coerce (ps_CorrelationId pr))),
      (''status'', JStr ''scored''), (''normalized_address'', JStr ''''), (''fraud_score'', JNum (hundredths 5)), (''model_version'', JStr ''rules-v1'')]"
    by (simp add: claim_document_def fields)
  moreover have "is_finite (ps_FraudScore pr)" using five_hundredths fields(4) by (cases "hundredths 5") simp_all
  ultimately show "\<exists>resp w' k. gateway_http unary_fmt unary_num demo_rand ?h (demo_post ?b) quiet_world = (Answer resp, w') \<and>
     wr_Status resp = 200 \<and> line_of unary_num (wr_Body resp) (JObj
       [(''claim_id'', JStr ''clm-1''), (''correlation_id'', JStr k), (''status'', JStr ''scored''), (''normalized_address'', JStr ''''),
        (''fraud_score'', JNum (hundredths 5)), (''model_version'', JStr ''rules-v1'')])"
    using ok pr(2) by auto
qed

theorem shipped_platform_answers_witness:
  "\<exists>resp w' status. gateway_http unary_fmt unary_num demo_rand demo_platform
     (demo_post (marshal_text unary_fmt (request_json smoke_request) @ ''garbage'')) empty_topic = (Answer resp, w') \<and>
     wr_Status resp = 200 \<and> read_value unary_num (wr_Body resp) None = Inr (JObj
       [(''claim_id'', JStr ''clm-1''), (''correlation_id'', JStr (fst (correlation_New demo_rand empty_topic))),
        (''status'', JStr status), (''normalized_address'', JStr ''123 MAIN ST, SPRINGFIELD, IL, 62704, US''),
        (''fraud_score'', JNum (hundredths 5)), (''model_version'', JStr ''rules-v1'')])"
proof -
  let ?st = "\<lparr>byID = [''acme_insurance'' \<mapsto> acme_tenant]\<rparr>"
  have "Store_Get ?st ''acme_insurance'' = Some acme_tenant" "t_Status acme_tenant = ''active''" "t_DagVersions acme_tenant ''auto'' = Some 4"
    by (simp_all add: Store_Get_def acme_tenant_def)
  moreover have "xt_ReadFile demo_externals u p = Inr ''dag''" "xt_Unmarshal demo_externals d = Inr acme_config" for u p d
    by (simp_all add: demo_externals_def)
  moreover have "wq_Method (demo_post b) = ''POST''" "wq_Body (demo_post b) = b" "outgoing_md (wq_Context (demo_post b)) = []"
    "done_at (wq_Context (demo_post b)) = None" for b
    by (simp_all add: demo_post_def Background_def done_at_def)
  moreover have "xt_toUpperCase demo_externals = map upper_ascii" by (simp add: demo_externals_def)
  moreover have "list_all (\<lambda>c. byte_in c 0x00 0x7F) ''123 MAIN ST, SPRINGFIELD, IL, 62704, US''" by code_simp
  then have "coerce ''123 MAIN ST, SPRINGFIELD, IL, 62704, US'' = ''123 MAIN ST, SPRINGFIELD, IL, 62704, US''" by (intro valid_literal ascii_valid)
  ultimately show ?thesis
    using shipped_platform_answers [OF demo_contracts(2) _ demo_contracts(3), of ?st acme_tenant 4 "''../../config/dag''" "''dag''" unary_fmt unary_num
        "demo_post (marshal_text unary_fmt (request_json smoke_request) @ ''garbage'')" smoke_request "''garbage''" demo_rand empty_topic "''localhost:19092''"]
      unary_texts demo_post_claims smoke_utf8
    by (fastforce simp: smoke_request_def smoke_enrichment claim_cents_def demo_platform_def Let_def)
qed

end
