(* ===== verification/Lifecycle.thy ===== *)
theory Lifecycle
  imports Prelude
begin

text \<open>
  \<open>GrpcServerLifecycle\<close> of the three Java services: the gRPC server of a process started and stopped with the Spring
  context, and the thread that keeps the process alive. The three classes differ in the service they register, in
  their default port and in the name they log. gRPC servers and threads are modelled as far as the class relies on
  them: a server serves from its start until its shutdown and terminates some time later, a thread waits for a server to
  terminate. Whether a port can be bound is a parameter.
\<close>

section \<open>State\<close>

datatype server_state = Serving | ShutDown | Terminated

record 'h grpc_server =
  gs_service :: 'h
  gs_port :: int
  gs_state :: server_state

text \<open>The thread reads the field \<open>server\<close> when it runs, not when it is created.\<close>

datatype thread_state = Spawned | Awaiting nat | Ended

record await_thread =
  at_daemon :: bool
  at_state :: thread_state

record 'h jvm =
  jv_servers :: "'h grpc_server list"
  jv_threads :: "await_thread list"
  jv_log :: "(string \<times> int) list"

text \<open>The fields of the class; references are positions in the lists above, \<open>None\<close> is \<open>null\<close>.\<close>

record 'h lifecycle =
  lc_name :: string
  lc_service :: 'h
  lc_port :: int
  lc_server :: "nat option"
  lc_awaitThread :: "nat option"
  lc_running :: bool

section \<open>Operations\<close>

definition new_lifecycle :: "string \<Rightarrow> int \<Rightarrow> 'h \<Rightarrow> int option \<Rightarrow> 'h lifecycle" where
  "new_lifecycle name default_port service app_grpc_port =
     \<lparr>lc_name = name, lc_service = service, lc_port = (case app_grpc_port of Some p \<Rightarrow> p | None \<Rightarrow> default_port),
      lc_server = None, lc_awaitThread = None, lc_running = False\<rparr>"

definition address_lifecycle :: "'h \<Rightarrow> int option \<Rightarrow> 'h lifecycle" where
  "address_lifecycle = new_lifecycle ''address-normalization-svc'' 9092"

definition hashing_lifecycle :: "'h \<Rightarrow> int option \<Rightarrow> 'h lifecycle" where
  "hashing_lifecycle = new_lifecycle ''claimant-id-hashing-svc'' 9095"

definition policy_lifecycle :: "'h \<Rightarrow> int option \<Rightarrow> 'h lifecycle" where
  "policy_lifecycle = new_lifecycle ''policy-lookup-svc'' 9096"

datatype java_exception = IllegalStateException string int string

text \<open>
  \<open>start()\<close>; \<open>bind\<close> gives the message of the \<open>IOException\<close> if the port cannot be bound, and then nothing has been
  assigned.
\<close>

definition lifecycle_start ::
  "(int \<Rightarrow> 'h jvm \<Rightarrow> string option) \<Rightarrow> 'h lifecycle \<Rightarrow> 'h jvm \<Rightarrow> (java_exception + 'h lifecycle) \<times> 'h jvm"
where
  "lifecycle_start bind l j =
     (case bind (lc_port l) j of
        Some e \<Rightarrow> (Inl (IllegalStateException ''failed to start gRPC server on port '' (lc_port l) e), j)
      | None \<Rightarrow>
          let server = \<lparr>gs_service = lc_service l, gs_port = lc_port l, gs_state = Serving\<rparr>;
              thread = \<lparr>at_daemon = False, at_state = Spawned\<rparr>
          in (Inr (l\<lparr>lc_server := Some (length (jv_servers j)), lc_running := True, lc_awaitThread := Some (length (jv_threads j))\<rparr>),
              j\<lparr>jv_servers := jv_servers j @ [server], jv_threads := jv_threads j @ [thread],
                jv_log := jv_log j @ [(lc_name l @ '' gRPC server listening on :'', lc_port l)]\<rparr>))"

text \<open>\<open>Server.shutdown\<close>: no effect on a server that has been shut down already.\<close>

definition server_shutdown :: "nat \<Rightarrow> 'h jvm \<Rightarrow> 'h jvm" where
  "server_shutdown s j =
     (if s < length (jv_servers j) \<and> gs_state (jv_servers j ! s) = Serving
      then j\<lparr>jv_servers := (jv_servers j)[s := (jv_servers j ! s)\<lparr>gs_state := ShutDown\<rparr>]\<rparr> else j)"

definition lifecycle_stop :: "'h lifecycle \<Rightarrow> 'h jvm \<Rightarrow> 'h lifecycle \<times> 'h jvm" where
  "lifecycle_stop l j =
     (let j' = (case lc_server l of Some s \<Rightarrow> server_shutdown s j | None \<Rightarrow> j)
      in (l\<lparr>lc_running := False\<rparr>, j'))"

definition isRunning :: "'h lifecycle \<Rightarrow> bool" where
  "isRunning l = lc_running l"

definition getPhase :: int where
  "getPhase = 2147483647"

text \<open>What goes on in the background: servers terminate after their shutdown, and threads run.\<close>

inductive jvm_step :: "'h lifecycle \<Rightarrow> 'h jvm \<Rightarrow> 'h jvm \<Rightarrow> bool" for l :: "'h lifecycle" where
  terminated: "s < length (jv_servers j) \<Longrightarrow> gs_state (jv_servers j ! s) = ShutDown \<Longrightarrow>
    jvm_step l j (j\<lparr>jv_servers := (jv_servers j)[s := (jv_servers j ! s)\<lparr>gs_state := Terminated\<rparr>]\<rparr>)"
| awaits: "i < length (jv_threads j) \<Longrightarrow> at_state (jv_threads j ! i) = Spawned \<Longrightarrow> lc_server l = Some s \<Longrightarrow>
    jvm_step l j (j\<lparr>jv_threads := (jv_threads j)[i := (jv_threads j ! i)\<lparr>at_state := Awaiting s\<rparr>]\<rparr>)"
| ends: "i < length (jv_threads j) \<Longrightarrow> at_state (jv_threads j ! i) = Awaiting s \<Longrightarrow> s < length (jv_servers j) \<Longrightarrow>
    gs_state (jv_servers j ! s) = Terminated \<Longrightarrow>
    jvm_step l j (j\<lparr>jv_threads := (jv_threads j)[i := (jv_threads j ! i)\<lparr>at_state := Ended\<rparr>]\<rparr>)"

text \<open>Spring starts a component that is not running and stops one that is.\<close>

inductive lifecycle_step ::
  "(int \<Rightarrow> 'h jvm \<Rightarrow> string option) \<Rightarrow> 'h lifecycle \<times> 'h jvm \<Rightarrow> 'h lifecycle \<times> 'h jvm \<Rightarrow> bool"
  for bind :: "int \<Rightarrow> 'h jvm \<Rightarrow> string option" where
  started: "\<not> isRunning l \<Longrightarrow> lifecycle_start bind l j = (Inr l', j') \<Longrightarrow> lifecycle_step bind (l, j) (l', j')"
| stopped: "isRunning l \<Longrightarrow> lifecycle_stop l j = (l', j') \<Longrightarrow> lifecycle_step bind (l, j) (l', j')"
| background: "jvm_step l j j' \<Longrightarrow> lifecycle_step bind (l, j) (l, j')"

definition new_jvm :: "'h jvm" where
  "new_jvm = \<lparr>jv_servers = [], jv_threads = [], jv_log = []\<rparr>"

text \<open>A process ends when no thread is left that is not a daemon.\<close>

definition process_alive :: "'h jvm \<Rightarrow> bool" where
  "process_alive j \<longleftrightarrow> (\<exists>t\<in>set (jv_threads j). \<not> at_daemon t \<and> at_state t \<noteq> Ended)"

section \<open>The invariant\<close>

definition serving_at :: "'h jvm \<Rightarrow> nat \<Rightarrow> bool" where
  "serving_at j s \<longleftrightarrow> s < length (jv_servers j) \<and> gs_state (jv_servers j ! s) = Serving"

definition lifecycle_inv :: "'h lifecycle \<times> 'h jvm \<Rightarrow> bool" where
  "lifecycle_inv = (\<lambda>(l, j).
     (\<forall>s. serving_at j s \<longleftrightarrow> lc_running l \<and> lc_server l = Some s) \<and>
     (lc_running l \<longrightarrow> lc_server l \<noteq> None) \<and>
     (\<forall>s. lc_server l = Some s \<longrightarrow> s < length (jv_servers j) \<and> gs_service (jv_servers j ! s) = lc_service l \<and> gs_port (jv_servers j ! s) = lc_port l) \<and>
     (\<forall>t\<in>set (jv_threads j). lc_server l \<noteq> None \<and> (\<forall>s. at_state t = Awaiting s \<longrightarrow> s < length (jv_servers j))) \<and>
     (lc_running l \<longrightarrow> (\<exists>i t. lc_awaitThread l = Some i \<and> i < length (jv_threads j) \<and> jv_threads j ! i = t \<and> \<not> at_daemon t \<and>
        (at_state t = Spawned \<or> at_state t = Awaiting (the (lc_server l))))))"

lemma serving_bound: "serving_at j s \<Longrightarrow> s < length (jv_servers j)"
  by (simp add: serving_at_def)

text \<open>The invariant in the two modes.\<close>

lemma inv_running:
  "lc_running l \<Longrightarrow> lifecycle_inv (l, j) \<longleftrightarrow>
     (\<exists>s i. lc_server l = Some s \<and> (\<forall>s'. serving_at j s' \<longleftrightarrow> s' = s) \<and>
       gs_service (jv_servers j ! s) = lc_service l \<and> gs_port (jv_servers j ! s) = lc_port l \<and>
       (\<forall>t\<in>set (jv_threads j). \<forall>s'. at_state t = Awaiting s' \<longrightarrow> s' < length (jv_servers j)) \<and>
       lc_awaitThread l = Some i \<and> i < length (jv_threads j) \<and> \<not> at_daemon (jv_threads j ! i) \<and>
       (at_state (jv_threads j ! i) = Spawned \<or> at_state (jv_threads j ! i) = Awaiting s))"
  by (auto simp: lifecycle_inv_def intro: serving_bound)

lemma inv_stopped:
  "\<not> lc_running l \<Longrightarrow> lifecycle_inv (l, j) \<longleftrightarrow>
     (\<forall>s. \<not> serving_at j s) \<and>
     (\<forall>s. lc_server l = Some s \<longrightarrow> s < length (jv_servers j) \<and> gs_service (jv_servers j ! s) = lc_service l \<and> gs_port (jv_servers j ! s) = lc_port l) \<and>
     (\<forall>t\<in>set (jv_threads j). lc_server l \<noteq> None \<and> (\<forall>s. at_state t = Awaiting s \<longrightarrow> s < length (jv_servers j)))"
  by (auto simp: lifecycle_inv_def)

lemma start_inv:
  assumes "lifecycle_inv (l, j)" "\<not> isRunning l" "lifecycle_start bind l j = (Inr l', j')"
  shows "lifecycle_inv (l', j')"
proof -
  have eqs: "l' = l\<lparr>lc_server := Some (length (jv_servers j)), lc_running := True, lc_awaitThread := Some (length (jv_threads j))\<rparr>"
    "j' = j\<lparr>jv_servers := jv_servers j @ [\<lparr>gs_service = lc_service l, gs_port = lc_port l, gs_state = Serving\<rparr>],
       jv_threads := jv_threads j @ [\<lparr>at_daemon = False, at_state = Spawned\<rparr>],
       jv_log := jv_log j @ [(lc_name l @ '' gRPC server listening on :'', lc_port l)]\<rparr>"
    using assms(3) by (auto simp: lifecycle_start_def Let_def split: option.splits)
  have "lc_running l'" by (simp add: eqs)
  moreover have "\<forall>s. \<not> serving_at j s" "\<forall>t\<in>set (jv_threads j). \<forall>s. at_state t = Awaiting s \<longrightarrow> s < length (jv_servers j)"
    using assms(1,2) by (simp_all add: inv_stopped isRunning_def)
  then have "\<forall>s. serving_at j' s \<longleftrightarrow> s = length (jv_servers j)"
    "\<forall>t\<in>set (jv_threads j'). \<forall>s. at_state t = Awaiting s \<longrightarrow> s < length (jv_servers j')"
    by (auto simp: eqs serving_at_def nth_append less_Suc_eq split: if_splits)
  ultimately show ?thesis by (simp add: inv_running eqs)
qed

lemma shutdown_serving: "serving_at (server_shutdown s j) s' \<longleftrightarrow> serving_at j s' \<and> s' \<noteq> s"
  by (auto simp: serving_at_def server_shutdown_def nth_list_update)

lemma shutdown_kept [simp]:
  "length (jv_servers (server_shutdown s j)) = length (jv_servers j)" "jv_threads (server_shutdown s j) = jv_threads j"
  "gs_service (jv_servers (server_shutdown s j) ! s') = gs_service (jv_servers j ! s')"
  "gs_port (jv_servers (server_shutdown s j) ! s') = gs_port (jv_servers j ! s')"
  by (auto simp: server_shutdown_def nth_list_update)

lemma stop_inv:
  assumes "lifecycle_inv (l, j)" "isRunning l" "lifecycle_stop l j = (l', j')"
  shows "lifecycle_inv (l', j')"
proof -
  obtain s where s: "lc_server l = Some s" using assms(1,2) by (auto simp: inv_running isRunning_def)
  then have eqs: "l' = l\<lparr>lc_running := False\<rparr>" "j' = server_shutdown s j" using assms(3) by (simp_all add: lifecycle_stop_def)
  then have "\<not> lc_running l'" by simp
  then show ?thesis using assms(1,2) s unfolding eqs
    by (auto simp: inv_running inv_stopped isRunning_def shutdown_serving intro: serving_bound)
qed

lemma stop_inv_any:
  assumes "lifecycle_inv (l, j)" "lifecycle_stop l j = (l', j')"
  shows "lifecycle_inv (l', j')"
proof (cases "isRunning l")
  case False
  then have "l\<lparr>lc_running := False\<rparr> = l" by (simp add: isRunning_def)
  moreover have "server_shutdown s j = j" for s
    using assms(1) False by (auto simp: server_shutdown_def inv_stopped isRunning_def serving_at_def)
  ultimately show ?thesis using assms by (auto simp: lifecycle_stop_def split: option.splits)
qed (use assms stop_inv in blast)

lemma terminated_serving:
  assumes "gs_state (jv_servers j ! s) = ShutDown"
  shows "serving_at (j\<lparr>jv_servers := (jv_servers j)[s := (jv_servers j ! s)\<lparr>gs_state := Terminated\<rparr>]\<rparr>) s' \<longleftrightarrow> serving_at j s'"
  using assms by (cases "s = s'"; cases "s < length (jv_servers j)") (auto simp: serving_at_def)

lemma threads_serving [simp]: "serving_at (j\<lparr>jv_threads := ts\<rparr>) s \<longleftrightarrow> serving_at j s"
  by (simp add: serving_at_def)

lemma background_inv:
  assumes "jvm_step l j j'" "lifecycle_inv (l, j)"
  shows "lifecycle_inv (l, j')"
  using assms
proof (cases rule: jvm_step.cases)
  case (terminated s)
  then have same: "gs_service (jv_servers j' ! s') = gs_service (jv_servers j ! s')" "gs_port (jv_servers j' ! s') = gs_port (jv_servers j ! s')"
    "length (jv_servers j') = length (jv_servers j)" "jv_threads j' = jv_threads j" "serving_at j' s' \<longleftrightarrow> serving_at j s'" for s'
    using terminated_serving by (auto simp: nth_list_update)
  show ?thesis using assms(2) unfolding lifecycle_inv_def prod.case same by assumption
next
  case (awaits i s)
  then have bound: "s < length (jv_servers j)" using assms(2) by (auto simp: lifecycle_inv_def)
  then have threads: "\<forall>t\<in>set (jv_threads j'). \<forall>s. at_state t = Awaiting s \<longrightarrow> s < length (jv_servers j)"
    using assms(2) awaits by (auto simp: lifecycle_inv_def dest!: set_update_subset_insert [THEN subsetD])
  show ?thesis
  proof (cases "lc_running l")
    case True
    then show ?thesis using assms(2) awaits threads by (auto simp: inv_running nth_list_update)
  next
    case False
    then show ?thesis using assms(2) awaits threads by (auto simp: inv_stopped)
  qed
next
  case (ends i s)
  then have threads: "\<forall>t\<in>set (jv_threads j'). \<forall>s. at_state t = Awaiting s \<longrightarrow> s < length (jv_servers j)"
    using assms(2) by (auto simp: lifecycle_inv_def dest!: set_update_subset_insert [THEN subsetD])
  show ?thesis
  proof (cases "lc_running l")
    case True
    then obtain c k where c: "lc_server l = Some c" "serving_at j c" "lc_awaitThread l = Some k"
      "at_state (jv_threads j ! k) = Spawned \<or> at_state (jv_threads j ! k) = Awaiting c"
      using assms(2) by (auto simp: inv_running)
    then have "k \<noteq> i" using ends by (auto simp: serving_at_def)
    then show ?thesis using assms(2) True ends threads c by (auto simp: inv_running)
  next
    case False
    moreover have "jv_threads j ! i \<in> set (jv_threads j)" using ends by simp
    moreover have "lc_server l \<noteq> None" using calculation assms(2) by (auto simp: inv_stopped)
    ultimately show ?thesis using assms(2) ends threads by (auto simp: inv_stopped)
  qed
qed

lemma lifecycle_step_inv: "lifecycle_step bind c c' \<Longrightarrow> lifecycle_inv c \<Longrightarrow> lifecycle_inv c'"
  by (cases rule: lifecycle_step.cases) (auto intro: start_inv stop_inv background_inv)

lemma lifecycle_step_config:
  "lifecycle_step bind c c' \<Longrightarrow> lc_service (fst c') = lc_service (fst c) \<and> lc_port (fst c') = lc_port (fst c)"
  by (cases rule: lifecycle_step.cases) (auto simp: lifecycle_start_def lifecycle_stop_def Let_def split: option.splits)

lemma lifecycle_reachable:
  assumes "(lifecycle_step bind)\<^sup>*\<^sup>* (new_lifecycle name port service app_port, new_jvm) c"
  shows "lifecycle_inv c \<and> lc_service (fst c) = service \<and> lc_port (fst c) = (case app_port of Some p \<Rightarrow> p | None \<Rightarrow> port)"
  using assms
proof (induction rule: rtranclp_induct)
  case base
  show ?case by (simp add: lifecycle_inv_def new_lifecycle_def new_jvm_def serving_at_def)
next
  case (step c c')
  then show ?case using lifecycle_step_inv [of bind c c'] lifecycle_step_config [of bind c c'] by simp
qed

section \<open>The end of a process\<close>

text \<open>The background steps that are left.\<close>

definition server_work :: "'h grpc_server \<Rightarrow> nat" where
  "server_work g = (if gs_state g = ShutDown then 1 else 0)"

definition thread_work :: "await_thread \<Rightarrow> nat" where
  "thread_work t = (case at_state t of Spawned \<Rightarrow> 2 | Awaiting s \<Rightarrow> 1 | Ended \<Rightarrow> 0)"

definition jvm_work :: "'h jvm \<Rightarrow> nat" where
  "jvm_work j = sum_list (map server_work (jv_servers j)) + sum_list (map thread_work (jv_threads j))"

lemma sum_update: "i < length xs \<Longrightarrow> sum_list (map f (xs[i := x])) + f (xs ! i) = sum_list (map f xs) + (f x :: nat)"
  by (induction xs arbitrary: i) (auto split: nat.split simp: less_Suc_eq_0_disj)

lemma jvm_step_work:
  assumes "jvm_step l j j'"
  shows "jvm_work j = Suc (jvm_work j')"
  using assms
proof (cases rule: jvm_step.cases)
  case (terminated s)
  then show ?thesis using sum_update [of s "jv_servers j" server_work "(jv_servers j ! s)\<lparr>gs_state := Terminated\<rparr>"]
    by (simp add: jvm_work_def server_work_def)
next
  case (awaits i s)
  then show ?thesis using sum_update [of i "jv_threads j" thread_work "(jv_threads j ! i)\<lparr>at_state := Awaiting s\<rparr>"]
    by (simp add: jvm_work_def thread_work_def)
next
  case (ends i s)
  then show ?thesis using sum_update [of i "jv_threads j" thread_work "(jv_threads j ! i)\<lparr>at_state := Ended\<rparr>"]
    by (simp add: jvm_work_def thread_work_def)
qed

lemma jvm_steps_work: "(jvm_step l ^^ n) j j' \<Longrightarrow> jvm_work j = n + jvm_work j'"
  by (induction n arbitrary: j') (auto dest!: jvm_step_work)

text \<open>A process that is not running and has no work left has no live thread.\<close>

lemma idle_process_ends:
  assumes "lifecycle_inv (l, j)" "\<not> lc_running l" "\<not> (\<exists>j'. jvm_step l j j')"
  shows "\<not> process_alive j"
proof -
  have states: "gs_state (jv_servers j ! s) = Terminated" if "s < length (jv_servers j)" for s
  proof (cases "gs_state (jv_servers j ! s)")
    case Serving
    then show ?thesis using assms(1,2) that by (auto simp: inv_stopped serving_at_def)
  next
    case ShutDown
    then show ?thesis using jvm_step.terminated [OF that ShutDown, of l] assms(3) by blast
  qed
  have "at_state t = Ended" if t: "t \<in> set (jv_threads j)" for t
  proof -
    obtain i where i: "i < length (jv_threads j)" "jv_threads j ! i = t" using t by (auto simp: in_set_conv_nth)
    obtain s where s: "lc_server l = Some s" using assms(1,2) t by (auto simp: inv_stopped)
    show ?thesis
    proof (cases "at_state t")
      case Spawned
      then show ?thesis using jvm_step.awaits [OF i(1) _ s] i(2) assms(3) by blast
    next
      case (Awaiting s')
      then have "s' < length (jv_servers j)" using assms(1,2) t by (auto simp: inv_stopped)
      then show ?thesis using jvm_step.ends [OF i(1), of s' l] i(2) Awaiting states assms(3) by blast
    qed
  qed
  then show ?thesis by (auto simp: process_alive_def)
qed

section \<open>Properties\<close>

text \<open>
  (C25) In every state a Java service can reach, \<open>isRunning\<close> tells the truth: it holds exactly while a server is
  accepting calls, there is never more than one such server, it is the registered service on the configured port, and
  while it runs the process is kept alive.
\<close>

theorem lifecycle_running_server:
  assumes "(lifecycle_step bind)\<^sup>*\<^sup>* (new_lifecycle name port service app_port, new_jvm) (l, j)"
  shows "(isRunning l \<longleftrightarrow> (\<exists>s. serving_at j s)) \<and> (\<forall>s s'. serving_at j s \<and> serving_at j s' \<longrightarrow> s = s') \<and>
    (\<forall>s. serving_at j s \<longrightarrow> gs_service (jv_servers j ! s) = service \<and>
       gs_port (jv_servers j ! s) = (case app_port of Some p \<Rightarrow> p | None \<Rightarrow> port)) \<and>
    (isRunning l \<longrightarrow> process_alive j)"
proof -
  note inv = lifecycle_reachable [OF assms, simplified]
  show ?thesis
  proof (cases "lc_running l")
    case True
    then obtain s i where si: "\<forall>s'. serving_at j s' \<longleftrightarrow> s' = s" "gs_service (jv_servers j ! s) = lc_service l"
      "gs_port (jv_servers j ! s) = lc_port l" "i < length (jv_threads j)" "\<not> at_daemon (jv_threads j ! i)"
      "at_state (jv_threads j ! i) = Spawned \<or> at_state (jv_threads j ! i) = Awaiting s"
      using inv inv_running [OF True, of j] by blast
    have "process_alive j" unfolding process_alive_def using si(4-6) by (intro bexI [of _ "jv_threads j ! i"]) auto
    then show ?thesis using si True inv by (auto simp: isRunning_def)
  next
    case False
    then show ?thesis using inv by (auto simp: inv_stopped isRunning_def)
  qed
qed

text \<open>
  (C26) A Java service that has been stopped exits: without further calls only finitely many background steps are
  possible, and when none is left no thread keeps the process alive.
\<close>

theorem lifecycle_stop_exits:
  assumes "(lifecycle_step bind)\<^sup>*\<^sup>* (new_lifecycle name port service app_port, new_jvm) (l, j)"
    and "lifecycle_stop l j = (l', j')"
  shows "\<exists>bound. \<forall>n j''. (jvm_step l' ^^ n) j' j'' \<longrightarrow>
    n \<le> bound \<and> ((\<exists>k. jvm_step l' j'' k) \<or> \<not> process_alive j'')"
proof -
  have "lifecycle_inv (l, j)" using lifecycle_reachable [OF assms(1)] by simp
  then have inv: "lifecycle_inv (l', j')" and "\<not> lc_running l'" using assms(2) stop_inv_any by (auto simp: lifecycle_stop_def)
  have "lifecycle_inv (l', j'')" if "(jvm_step l' ^^ n) j' j''" for n j''
    using that inv by (induction n arbitrary: j'') (auto intro: background_inv)
  then have "n \<le> jvm_work j' \<and> ((\<exists>k. jvm_step l' j'' k) \<or> \<not> process_alive j'')" if "(jvm_step l' ^^ n) j' j''" for n j''
    using that jvm_steps_work [OF that] idle_process_ends [of l' j''] \<open>\<not> lc_running l'\<close> by auto
  then show ?thesis by blast
qed

text \<open>A service that has started, in a process where its port is free.\<close>

definition demo_started :: "string lifecycle \<times> string jvm" where
  "demo_started = (case lifecycle_start (\<lambda>p j. None) (policy_lifecycle ''svc'' None) new_jvm of (Inr l, j) \<Rightarrow> (l, j))"

lemma demo_started_reachable:
  "(lifecycle_step (\<lambda>p j. None))\<^sup>*\<^sup>* (new_lifecycle ''policy-lookup-svc'' 9096 ''svc'' None, new_jvm) demo_started"
proof (rule r_into_rtranclp)
  let ?l = "new_lifecycle ''policy-lookup-svc'' 9096 ''svc'' None"
  have "\<not> isRunning ?l" by (simp add: isRunning_def new_lifecycle_def)
  moreover have "lifecycle_start (\<lambda>p j. None) ?l new_jvm = (Inr (fst demo_started), snd demo_started)"
    by (simp add: demo_started_def policy_lifecycle_def lifecycle_start_def Let_def)
  ultimately have "lifecycle_step (\<lambda>p j. None) (?l, new_jvm) (fst demo_started, snd demo_started)" by (rule lifecycle_step.started)
  then show "lifecycle_step (\<lambda>p j. None) (?l, new_jvm) demo_started" by simp
qed

theorem lifecycle_running_server_witness:
  "isRunning (fst demo_started) \<and> process_alive (snd demo_started) \<and> (\<exists>s. serving_at (snd demo_started) s \<and> gs_port (jv_servers (snd demo_started) ! s) = 9096)"
proof -
  have "isRunning (fst demo_started)" by code_simp
  with lifecycle_running_server [of "\<lambda>p j. None" "''policy-lookup-svc''" 9096 "''svc''" None "fst demo_started" "snd demo_started"] demo_started_reachable
  show ?thesis by auto
qed

theorem lifecycle_stop_exits_witness:
  "\<exists>bound j'. snd (lifecycle_stop (fst demo_started) (snd demo_started)) = j' \<and>
     \<not> (\<exists>j''. (jvm_step ((fst demo_started)\<lparr>lc_running := False\<rparr>) ^^ Suc bound) j' j'')"
proof -
  have stop: "lifecycle_stop (fst demo_started) (snd demo_started) =
      ((fst demo_started)\<lparr>lc_running := False\<rparr>, snd (lifecycle_stop (fst demo_started) (snd demo_started)))"
    by (simp add: lifecycle_stop_def Let_def)
  obtain bound where "\<forall>n j''. (jvm_step ((fst demo_started)\<lparr>lc_running := False\<rparr>) ^^ n)
      (snd (lifecycle_stop (fst demo_started) (snd demo_started))) j'' \<longrightarrow> n \<le> bound"
    using lifecycle_stop_exits [OF _ stop, of "\<lambda>p j. None" "''policy-lookup-svc''" 9096 "''svc''" None] demo_started_reachable by auto
  then show ?thesis by (metis Suc_n_not_le_n)
qed

end
