(* ===== verification/EndToEnd.thy ===== *)
theory EndToEnd
  imports Shipped
begin

text \<open>
  A request at the gateway, answered by the shipped DAG over arbitrary services. The reference run of
  \<open>ExecutorSpec\<close> is carried through the RPC to the Orchestration Service, its two interceptors and the
  gateway's five second deadline, up to the HTTP response.
\<close>

section \<open>From the run to the response\<close>

text \<open>The context in which the executor runs a claim the gateway forwards at time \<open>t\<close>.\<close>

definition executor_context :: "gcontext \<Rightarrow> string \<Rightarrow> int \<Rightarrow> gcontext" where
  "executor_context ctx k t = server_context (received (client_context (forward_context ctx k t)))"

lemma executor_context_ids:
  assumes "outgoing_md ctx = []"
  shows "TenantIDFrom (executor_context ctx k t) = ''acme_insurance''" "CorrelationIDFrom (executor_context ctx k t) = k"
  using orchestration_link.handler_identity [of "forward_context ctx k t"] forward_context_facts(1) [of k ctx t] forward_context_facts(2) [of ctx k t] assms
  by (simp_all add: executor_context_def node_context_def)

lemma executor_context_outlives:
  assumes "done_at ctx = None" and "t' < t + 5000000000"
  shows "outlives (executor_context ctx k t) t'"
  using assms by (simp add: outlives_def executor_context_def done_at_forward)

text \<open>The DAG store answers with the shipped DAG, in at most four and a half seconds.\<close>

definition loads_shipped :: "'e executor \<Rightarrow> string \<Rightarrow> string \<Rightarrow> bool" where
  "loads_shipped e product eventType \<longleftrightarrow>
     (\<forall>c w. fst (x_Load e c ''acme_insurance'' product eventType w) = (Some acme_config, None) \<and>
        clock (snd (x_Load e c ''acme_insurance'' product eventType w)) \<le> clock w + 4500000000)"

text \<open>The response to a claim whose run ends with \<open>out\<close>.\<close>

definition gateway_answer :: "claimRequest \<Rightarrow> string \<Rightarrow> dag_result option \<times> gerror option \<Rightarrow> http_response" where
  "gateway_answer req k out =
     (case out of
        (Some res, None) \<Rightarrow> writeJSON [] 200 (claimResponse_json
           \<lparr>ps_ClaimId = cr_ClaimID req, ps_CorrelationId = k, ps_Status = r_Status res,
            ps_NormalizedAddress = r_NormalizedAddress res, ps_FraudScore = r_FraudScore res,
            ps_ModelVersion = r_ModelVersion res\<rparr>)
      | _ \<Rightarrow> writeError [] 502 ''orchestration call failed'')"

lemma shipped_outcome_in_context:
  assumes "loads_shipped e (cr_Product req) (cr_EventType req)" and "answers_as 40000000 e k svc"
    and "done_at ctx = None"
  shows "fst (Run e (executor_context ctx k (clock w)) ''acme_insurance'' k (Some (claim_of req k)) w) =
    acme_outcome svc ''acme_insurance'' k (Some (claim_of req k))"
proof -
  let ?c = "executor_context ctx k (clock w)" and ?claim = "Some (claim_of req k)"
  obtain r w0 where l: "loaded e ?c ''acme_insurance'' k ?claim w = (r, w0)" by fastforce
  with assms(1) have r: "r = (Some acme_config, None)" "clock w0 \<le> clock w + 4500000000"
    unfolding loads_shipped_def by (metis claim_of_def ClaimEvent.select_convs(3,4) fst_conv snd_conv get_str_def option.case(2))+
  from r(2) have "outlives ?c (clock w0 + 480000000)"
    by (intro executor_context_outlives [OF assms(3)]) simp
  with run_reference [OF l [unfolded r(1)] assms(2) acme_patient] show ?thesis
    by (simp add: acme_budget acme_reference)
qed

lemma acme_outcome_exclusive:
  obtains res where "acme_outcome svc t k claim = (Some res, None)"
  | err where "acme_outcome svc t k claim = (None, Some err)"
proof (cases "a_Hash svc (get_str ce_ClaimantName claim)")
  case (Inl err)
  with that(2) show thesis by (simp add: acme_outcome_def)
next
  case (Inr h)
  then show thesis
    using that by (cases "a_Score svc (acme_features svc t claim (hr_ClaimantIdHash h))")
      (simp_all add: acme_outcome_def Let_def)
qed

text \<open>The RPC of a claim, answered by an executor whose run is known.\<close>

lemma claim_rpc:
  assumes "rpc_link invoker lo (ProcessClaim e)" and "outgoing_md ctx = []"
  shows "fst (Run e (executor_context ctx k t) ''acme_insurance'' k (Some (claim_of req k)) w) = (Some res, None) \<Longrightarrow>
      fst (stub lg invoker m (forward_context ctx k t) \<lparr>pq_Claim = Some (claim_of req k)\<rparr> w) =
        (Some \<lparr>ps_ClaimId = cr_ClaimID req, ps_CorrelationId = k, ps_Status = r_Status res,
           ps_NormalizedAddress = r_NormalizedAddress res, ps_FraudScore = r_FraudScore res,
           ps_ModelVersion = r_ModelVersion res\<rparr>, None)"
    and "fst (Run e (executor_context ctx k t) ''acme_insurance'' k (Some (claim_of req k)) w) = (None, Some err) \<Longrightarrow>
      fst (stub lg invoker m (forward_context ctx k t) \<lparr>pq_Claim = Some (claim_of req k)\<rparr> w) = (None, Some err)"
proof -
  have k: "claim_correlation (executor_context ctx k t) (Some (claim_of req k)) = k"
    using executor_context_ids [OF assms(2), of k t] by (auto simp: claim_correlation_def claim_of_def)
  note rpc = rpc_link.stub_fst [OF assms(1), of lg m "forward_context ctx k t", folded executor_context_def]
    ProcessClaim_def Let_def executor_context_ids(1) [OF assms(2)] claim_of_def
  show "fst (stub lg invoker m (forward_context ctx k t) \<lparr>pq_Claim = Some (claim_of req k)\<rparr> w) =
        (Some \<lparr>ps_ClaimId = cr_ClaimID req, ps_CorrelationId = k, ps_Status = r_Status res,
           ps_NormalizedAddress = r_NormalizedAddress res, ps_FraudScore = r_FraudScore res,
           ps_ModelVersion = r_ModelVersion res\<rparr>, None)"
    if "fst (Run e (executor_context ctx k t) ''acme_insurance'' k (Some (claim_of req k)) w) = (Some res, None)"
    using that k by (cases "Run e (executor_context ctx k t) ''acme_insurance'' k (Some (claim_of req k)) w")
      (simp add: rpc)
  show "fst (stub lg invoker m (forward_context ctx k t) \<lparr>pq_Claim = Some (claim_of req k)\<rparr> w) = (None, Some err)"
    if "fst (Run e (executor_context ctx k t) ''acme_insurance'' k (Some (claim_of req k)) w) = (None, Some err)"
    using that k by (cases "Run e (executor_context ctx k t) ''acme_insurance'' k (Some (claim_of req k)) w")
      (simp add: rpc)
qed

text \<open>
  (C3) What the gateway answers, for services of any behaviour. A valid claim of an active tenant, from a
  client that keeps waiting, is answered within the gateway's deadline of 5 seconds as the shipped DAG prescribes, when
  the DAG loads within 4.5 seconds and the five services answer by functions of their requests within 40 ms: with 502
  exactly when the hashing service or the Model Service fails, else with 200 and the document of the
  outcome -- whichever of the other three services fail.
\<close>

theorem gateway_answers_claim:
  assumes "rpc_link invoker lo (ProcessClaim e)"
    and "h_ProcessClaim h = OrchestrationClient_ProcessClaim (stub lg invoker m)"
    and "valid_request r" and "Decode (rq_Body r) = Inr req"
    and "done_at (rq_Context r) = None" and "outgoing_md (rq_Context r) = []"
    and "correlation_New rand_Read w = (k, w1)"
    and "resolveTenant h (WithCorrelationID (rq_Context r) k) k w1 = ((tc, None), w2)" and "get_str tc_Status tc = ''active''"
    and "loads_shipped e (cr_Product req) (cr_EventType req)" and "answers_as 40000000 e k svc"
  shows "fst (SubmitClaim rand_Read h r w) =
    Responded (gateway_answer req k (acme_outcome svc ''acme_insurance'' k (Some (claim_of req k))))"
proof -
  have valid: "rq_Method r = ''POST''" "cr_ClaimID req \<noteq> ''''" "cr_Product req \<noteq> ''''" "cr_EventType req \<noteq> ''''"
    using assms(3,4) by (auto simp: valid_request_def)
  have fc: "WithTimeout (WithTenantID (WithCorrelationID (rq_Context r) k) hardcodedTenantID) (clock w2) orchestrationTimeout
      = forward_context (rq_Context r) k (clock w2)"
    by (simp add: forward_context_def)
  note run = shipped_outcome_in_context [OF assms(10,11,5), of w2]
  note rpc = claim_rpc [OF assms(1,6), of k "clock w2" req w2, unfolded run]
  let ?out = "acme_outcome svc ''acme_insurance'' k (Some (claim_of req k))"
  let ?call = "stub lg invoker m (forward_context (rq_Context r) k (clock w2)) \<lparr>pq_Claim = Some (claim_of req k)\<rparr> w2"
  have "SubmitClaim rand_Read h r w = forward_claim h (WithCorrelationID (rq_Context r) k) k req w1"
    using valid assms(4,7) by (simp add: SubmitClaim_def)
  moreover have "fst (forward_claim h (WithCorrelationID (rq_Context r) k) k req w1) = Responded (gateway_answer req k ?out)"
  proof (cases rule: acme_outcome_exclusive [of svc "''acme_insurance''" k "Some (claim_of req k)"])
    case (1 res)
    with rpc(1) [of res lg m] assms(8,9) show ?thesis
      by (cases ?call) (simp add: forward_claim_def fc assms(2) OrchestrationClient_ProcessClaim_def gateway_answer_def)
  next
    case (2 err)
    with rpc(2) [of err lg m] assms(8,9) show ?thesis
      by (cases ?call) (simp add: forward_claim_def fc assms(2) OrchestrationClient_ProcessClaim_def gateway_answer_def)
  qed
  ultimately show ?thesis by simp
qed

text \<open>A gateway in front of the slow executor, whose policy lookup is down.\<close>

definition slow_gateway :: "unit claims_handler" where
  "slow_gateway = (demo_handler ''active'')\<lparr>h_ProcessClaim := OrchestrationClient_ProcessClaim
     (stub [] (in_process [] (ProcessClaim slow_executor)) ''/orchestration.v1.OrchestrationService/ProcessClaim'')\<rparr>"

definition demo_claim :: claimRequest where
  "demo_claim = \<lparr>cr_ClaimID = ''clm-1'', cr_Product = ''auto'', cr_EventType = ''claim.fnol'',
     cr_PolicyNumber = '''', cr_ClaimantName = '''', cr_RawAddress = ''''\<rparr>"

lemma slow_outcome_gateway:
  "acme_outcome slow_services ''acme_insurance'' k (Some (claim_of demo_claim k)) =
    (Some \<lparr>r_Status = ''degraded'', r_NormalizedAddress = ''123 MAIN ST, SPRINGFIELD, IL, 62704, US'',
      r_FraudScore = hundredths 40, r_ModelVersion = ''rules-v1''\<rparr>, None)"
  by (simp add: acme_outcome_def acme_features_def slow_services_def smoke_address_def good_or_def failed_def
      no_policy_def go_run)

theorem gateway_answers_claim_witness:
  "\<exists>resp w' k. SubmitClaim demo_rand slow_gateway (demo_request demo_body) quiet_world = (Responded resp, w') \<and>
     hs_Status resp = 200 \<and> hs_Body resp = Some (claimResponse_json
       \<lparr>ps_ClaimId = ''clm-1'', ps_CorrelationId = k, ps_Status = ''degraded'',
        ps_NormalizedAddress = ''123 MAIN ST, SPRINGFIELD, IL, 62704, US'', ps_FraudScore = hundredths 40,
        ps_ModelVersion = ''rules-v1''\<rparr>)"
proof -
  let ?r = "demo_request demo_body"
  have decode: "Decode (rq_Body ?r) = Inr demo_claim"
    unfolding demo_claim_def demo_request_def by code_simp
  obtain k w1 where k: "correlation_New demo_rand quiet_world = (k, w1)" by fastforce
  have client: "h_ProcessClaim slow_gateway = OrchestrationClient_ProcessClaim
      (stub [] (in_process [] (ProcessClaim slow_executor)) ''/orchestration.v1.OrchestrationService/ProcessClaim'')"
    by (simp add: slow_gateway_def)
  have ctx: "done_at (rq_Context ?r) = None" "outgoing_md (rq_Context ?r) = []"
    by (simp_all add: demo_request_def Background_def done_at_def)
  have tenant: "resolveTenant slow_gateway (WithCorrelationID (rq_Context ?r) k) k w1 =
      ((Some \<lparr>tc_TenantId = ''acme_insurance'', tc_DisplayName = ''Acme'', tc_Status = ''active''\<rparr>, None), w1)"
    by (simp add: resolveTenant_def slow_gateway_def demo_handler_def hardcodedTenantID_def)
  have loads: "loads_shipped slow_executor (cr_Product demo_claim) (cr_EventType demo_claim)"
    by (simp add: loads_shipped_def slow_executor_def prompt_executor_def)
  have "fst (SubmitClaim demo_rand slow_gateway ?r quiet_world) = Responded (gateway_answer demo_claim k
      (acme_outcome slow_services ''acme_insurance'' k (Some (claim_of demo_claim k))))"
    by (rule gateway_answers_claim [OF orchestration_link.rpc_link_axioms client demo_valid decode ctx k tenant _ loads
          slow_answers]) simp
  moreover have "cr_ClaimID demo_claim = ''clm-1''" by (simp add: demo_claim_def)
  moreover have "is_finite (hundredths 40)"
    using near_hundredths [of 40] by (auto simp: near_def simp del: hundredths_def)
  ultimately show ?thesis
    by (cases "SubmitClaim demo_rand slow_gateway ?r quiet_world")
      (auto simp: slow_outcome_gateway gateway_answer_def writeJSON_def claimResponse_json_def)
qed

end
