(* ===== verification/Spec2Isabelle.thy ===== *)
theory Spec2Isabelle
  imports Wire Lifecycle EndToEnd
begin

text \<open>
  A verification development for the claims fraud platform: four Go services and three Java services that take an
  insurance claim over REST, enrich it through a configurable DAG of services, score it, publish the scored event, and
  answer.

  \<^bold>\<open>The program and its model.\<close> A request enters at the claims gateway
  (\<open>services/claims-gateway/internal/handler\<close>), which validates it, checks the tenant with the Tenant Config
  Service (\<open>services/tenant-config-svc\<close>), and forwards it to the Orchestration Service
  (\<open>services/orchestration-service\<close>). That service loads the DAG of the tenant, product and event type, runs
  its nodes in three stages (enrichment by the Java services, model, publish) with a timeout, retries and a failure
  policy per node, and answers with the score of the Model Service (\<open>services/model-service\<close>). The Go services share
  \<open>pkg/telemetry\<close>: request identity in contexts and gRPC metadata, structured logs, interceptors, warm-up.

  \<^item> \<open>Prelude\<close>: error values, nil-safe reads, 32-bit configuration integers and \<open>time.Duration\<close> as words,
    and \<open>range_loop\<close>, the \<open>for range\<close> loop with early return. \<open>Hex\<close>: hexadecimal text.
  \<^item> \<open>Float64\<close>: \<open>float64\<close> addition, multiplication and division with round-to-nearest-even over the
    rationals, \<open>math.Round\<close> and \<open>math.Min\<close>, and a calculus of error bounds. \<open>FloatGrid\<close>: the values of the type are
    the fixed points of rounding.
  \<^item> \<open>Telemetry\<close>: \<open>pkg/telemetry\<close>. The record \<open>gcontext\<close> is a \<open>context.Context\<close> (values, metadata,
    deadline, cancellation), the record \<open>world\<close> the state an operation runs in (clock, log, scheduler choices,
    and \<open>env\<close>, the state of everything outside the process, of arbitrary type).
  \<^item> \<open>TenantStore\<close>: \<open>internal/store\<close> and \<open>internal/server\<close> of the Tenant Config Service.
  \<^item> \<open>GoPath\<close>, \<open>DagConfig\<close>: \<open>filepath.Join\<close> and \<open>Clean\<close>; \<open>internal/dag/config.go\<close> and \<open>loader.go\<close>.
  \<^item> \<open>Resilience\<close>: \<open>callWithResilience\<close>, \<open>nodeTimeout\<close>, \<open>dependsOn\<close>, \<open>nodeFailureHandled\<close> of \<open>executor.go\<close>.
  \<^item> \<open>ModelService\<close>: \<open>internal/scoring\<close> and \<open>internal/server\<close> of the Model Service.
  \<^item> \<open>Kafka\<close>: \<open>internal/kafka/publisher.go\<close>, with JSON documents.
  \<^item> \<open>Executor\<close>: \<open>Executor.Run\<close>, the body of each stage's loop as a definition of its own.
    \<open>ExecutorFacts\<close>, \<open>ExecutorCong\<close>, \<open>ExecutorProps\<close> and \<open>ExecutorEffects\<close> (what a run does to the outside
    world) hold its theory, \<open>Scenario\<close> the shipped DAG. \<open>ExecutorSpec\<close>: the abstract specification of a run, folds of
    pure services over the selected nodes, and the refinement; for the shipped DAG in closed form.
  \<^item> \<open>Orchestration\<close>: \<open>internal/server\<close>, \<open>internal/client\<close> and the wiring of \<open>cmd/orchestration/main.go\<close>.
  \<^item> \<open>Gateway\<close>: \<open>internal/handler\<close>, \<open>internal/correlation\<close>, \<open>internal/client\<close> of the gateway.
  \<^item> \<open>Enrichment\<close>: the Java services \<open>AddressNormalizer\<close>, \<open>ClaimantIdHasher\<close>, \<open>PolicyLookup\<close> and their
    gRPC adapters.
  \<^item> \<open>Platform\<close>: how the services are linked. \<open>Network\<close>: the gRPC runtime below the interceptors as a parameter, a
    \<open>transport\<close>, with the contracts relied on for safety (a call is delivered once or never) and for liveness (the
    answer arrives if it can before the caller's deadline). \<open>Shipped\<close>: all services put together over such a network. \<open>EndToEnd\<close>:
    what the gateway answers over services of any behaviour. \<open>Startup\<close>: the entry points \<open>cmd/*/main.go\<close>, from the environment to
    serving and shutdown. This theory: further properties that span services.
  \<^item> \<open>JsonText\<close>: JSON in bytes, as \<open>encoding/json\<close> writes and reads it: escaping, unquoting, UTF-8, and the scanner as
    the state machine it is. \<open>ServeMux\<close>: the routing of \<open>net/http\<close> for the gateway's patterns. \<open>Wire\<close>: the gateway
    from the bytes of a request to the bytes of its answer, and the publisher down to the bytes on the topic.
  \<^item> \<open>Lifecycle\<close>: the \<open>GrpcServerLifecycle\<close> classes of the Java services, with the servers and threads of the process.

  The messages of \<open>proto/\<close> are records in the theories that use them; \<open>config/tenants.yaml\<close> is \<open>shipped_tenants\<close>
  (\<open>TenantStore\<close>) and \<open>config/dag/acme_insurance/auto/claim.fnol.yaml\<close> is \<open>acme_config\<close> (\<open>Scenario\<close>).

  \<^bold>\<open>Conventions.\<close> A Go function returning \<open>(T, error)\<close> is a function from worlds to a value, an optional error
  and a world, so that a zero value with a nil error stays visible. A pointer is an option, a nil dereference the
  error \<open>GoPanic\<close>. Code outside the repository (generated stubs, the gRPC, Kafka and YAML libraries, the file system,
  the random source, the Unicode tables and SHA-256 of the Java runtime) is a parameter: a record field or an argument.
  What a property assumes of such a parameter is a hypothesis of its statement. Strings are byte sequences; those read
  from JSON text are well-formed UTF-8 (\<open>read_value_utf8\<close> in \<open>JsonText\<close>), as those of protobuf messages are, so
  re-encoding them loses nothing. Formatted texts with \<open>%q\<close> operands are kept unrendered. Requests are handled
  concurrently: what is said of the topic (C9, C14) holds although other requests add messages at the calls of one.

  \<^bold>\<open>Interfaces.\<close> \<open>dag_stage\<close> (a stage is a selection, a call, an abort test and an update; interpreted on the three
  stages of \<open>Run\<close>), \<open>world_rel\<close> (a relation between worlds that time and logging respect; interpreted on the growth
  of the Kafka topic), \<open>tenant_directory\<close> (interpreted on the YAML store), \<open>punctual\<close> (a call that honours its
  deadline; interpreted on the scoring handler), \<open>grpc_transport\<close> (an ideal gRPC connection) and \<open>rpc_link\<close> (an ideal
  connection to a server behind the Go interceptor, a sublocale of the former;
  interpreted on links to the Go servers and on the handler the orchestration entry point registers). C3, C6, C8 and C31
  speak of such links. C7 and C9 are over the transports of \<open>Network\<close>, whose contracts \<open>slow_transport\<close> meets.

  \<^bold>\<open>What is shown.\<close> Of the executor: what a successful and a failed run are (C1, C2), that a run refines an abstract
  one without clock, retries and contexts (C4) and what this makes of the shipped DAG (C5), where the score comes from
  (C8), what a run depends on and whom it talks to (C10, C11, C28), what it publishes (C14), how long it takes (C13),
  and that no policy saves a run without a model (C32). Of the retry loop: equivalence with the first successful attempt
  and its behaviour on negative retry counts (C12, C33), besides a time bound and timeouts without wrap-around. Of the
  gateway: its routes, the bytes it accepts and answers with, accepted and rejected requests, the tenant gate,
  correlation ids (C15 to C18, C24, C37 to C39), besides decoding. Of the loader: which file a key names (C34, C35),
  besides success. Of the Model Service: exactness of the float computation (C27), besides bounds and missing data. Of
  the Java services: addresses, claimant hashes, and the life of their processes (C20, C21, C25, C26). Of start-up and
  shutdown: C19, C22. Of the store, the published bytes and telemetry: C23, C29, C36, C40. Across services: C6, C30, C31,
  what the gateway answers whichever services fail (C3), and of the whole platform that it answers (C7) and what its
  topic holds (C9).

  \<^bold>\<open>Conditions.\<close> C7 is a statement about a working network: every link adds less than 40 ms of transit to a call whose
  deadline leaves room for it, the Kafka writer returns by the deadline of its context, and the client keeps waiting; then the tenant
  lookup keeps its 2 seconds and the orchestration call, at most 560 ms, the gateway's 5. C9 needs no such
  condition. C17 states two exceptions to the body of an answer: a forwarded claim whose score is not finite is answered with
  200 and no body, and one that is answered neither by a response nor by an error ends in a panic. C22 covers all seven
  fatal exits of the Orchestration Service, of which five are refused dials.

  \<^bold>\<open>Termination and bounds.\<close> Every loop is a total function (the retry loop by the measure
  \<open>max_retries + 1 - attempt\<close>, the functions on texts by the length of the text) except the warm-up loop, a
  \<open>partial_function\<close> into option that C40 shows to return. Nothing runs on fuel. Times are unbounded integers of
  nanoseconds; durations are 64-bit words. A blocking serve call that never returns is \<open>None\<close>.

  \<^bold>\<open>Not modelled.\<close> The conversion between numbers and decimal text, HTTP and protobuf framing, the YAML library and the
  Spring container, of which only the calls of the life cycle are known here. A redirect is its target path, without the
  page \<open>net/http\<close> writes for it.

  What is left is the text of the YAML files, which only the YAML library reads, and the failures of services that answer
  the same request differently at different times, of which C1, C2 and C12 speak but C3 to C5 do not.
\<close>

section \<open>Properties that span components\<close>

text \<open>The features the model sees, in terms of what the enrichment stage was answered.\<close>

lemma risk_cents_features:
  "risk_cents (features_of t claim (enrichment_after claim outs)) =
     (let (status, coverage) = last_or ('''', '''') policy_in outs;
          valid = snd (last_or (get_str ce_RawAddress claim, False) address_in outs)
      in 5 + status_cents status + (if coverage = '''' then 5 else 0) + (if valid then 0 else 10))"
  by (simp add: risk_cents_def features_of_def enrichment_after_def FormatBool_def ParseBool_def case_prod_unfold
      Let_def)

text \<open>
  (C8) With the Model Service behind the model client, the score of a successful run is determined by the
  enrichment answers alone: 0.05, plus the weight of the policy status, plus 0.05 without a coverage type, plus
  0.10 without a validated address, exact to the cent. A policy that was never looked up successfully counts as
  one of empty status and coverage, and an address never normalised successfully as not validated.
\<close>

theorem Run_score_from_enrichment:
  assumes link: "rpc_link invoker l (ModelServer_Score (Some l))"
    and model: "x_Score e = ModelClient_Score (stub lc invoker fullMethod)"
    and run: "Run e ctx tenantID correlationID claim w = ((Some res, None), w')"
  shows "\<exists>cfg w0 outs w1 status coverage valid.
    loaded e ctx tenantID correlationID claim w = ((Some cfg, None), w0) \<and>
    enrich_trace (run_view e ctx tenantID correlationID claim cfg) w0 = (outs, w1) \<and>
    last_or ('''', '''') policy_in outs = (status, coverage) \<and>
    last_or (get_str ce_RawAddress claim, False) address_in outs = (r_NormalizedAddress res, valid) \<and>
    r_FraudScore res = hundredths (5 + status_cents status + (if coverage = '''' then 5 else 0) + (if valid then 0 else 10)) \<and>
    r_ModelVersion res = ''rules-v1''"
  using run
proof (cases rule: Run_cases)
  case (stages cfg w0)
  from stages(2) show ?thesis
  proof (cases rule: run_stages_cases)
    case (finished outs1 w1 outs2 w2 r outs3)
    let ?fs = "features_of tenantID claim (enrichment_after claim outs1)"
    from scored_by_service [OF finished(3,5)] obtain n t w3 w4 where
      "stub lc invoker fullMethod (WithTimeout (run_context ctx tenantID correlationID) t (nodeTimeout cfg n))
         \<lparr>sr_CorrelationId = correlationID, sr_Features = ?fs\<rparr> w3 = ((Some r, None), w4)"
      by (auto simp: model ModelClient_Score_def)
    from arg_cong [OF this, of fst]
    have r: "r = \<lparr>sr_Score = hundredths (risk_cents ?fs), sr_ModelVersion = ModelVersion\<rparr>"
      by (simp add: rpc_link.stub_fst [OF link] ModelServer_Score_eq)
    obtain status coverage where pol: "last_or ('''', '''') policy_in outs1 = (status, coverage)" by fastforce
    obtain a valid where addr: "last_or (get_str ce_RawAddress claim, False) address_in outs1 = (a, valid)" by fastforce
    have "res = result_of (enrichment_after claim outs1) (Some r)
        (if publish_failed outs3 then ''degraded'' else s_status (enrichment_after claim outs1))"
      using finished(8) by simp
    then have "r_NormalizedAddress res = a" "r_FraudScore res = hundredths (risk_cents ?fs)" "r_ModelVersion res = ''rules-v1''"
      using addr by (simp_all add: result_of_def enrichment_after_def GetScore_def r ModelVersion_def)
    with stages(1) finished(1) pol addr risk_cents_features [of tenantID claim outs1] show ?thesis by (auto simp: Let_def)
  qed auto
qed auto

text \<open>An executor whose model client is linked to the Model Service, and whose policy store knows nothing.\<close>

definition linked_executor :: "unit executor" where
  "linked_executor = (prompt_executor acme_config)\<lparr>
     x_Lookup := (\<lambda>c k p w. ((Some \<lparr>lr_Found = False, lr_Status = '''', lr_CoverageType = ''''\<rparr>, None), w)),
     x_Score := ModelClient_Score (stub [] (in_process [] (ModelServer_Score (Some []))) ''/model.v1.ModelService/Score'')\<rparr>"

lemma linked_stub:
  "stub [] (in_process [] (ModelServer_Score (Some []))) m c req w =
     ((Some \<lparr>sr_Score = hundredths (risk_cents (sr_Features req)), sr_ModelVersion = ModelVersion\<rparr>, None),
      snd (stub [] (in_process [] (ModelServer_Score (Some []))) m c req w))"
  by (simp add: prod_eq_iff model_link.stub_fst ModelServer_Score_eq)

lemma linked_executor_scores:
  "\<exists>res w'. Run linked_executor ctx t k (Some claim) w = ((Some res, None), w') \<and> r_FraudScore res = hundredths 40"
proof -
  define g where "g = (\<lambda>m c req (w :: unit world). snd (stub [] (in_process [] (ModelServer_Score (Some []))) m c req w))"
  have "stub [] (in_process [] (ModelServer_Score (Some []))) m c req w =
     ((Some \<lparr>sr_Score = hundredths (risk_cents (sr_Features req)), sr_ModelVersion = ModelVersion\<rparr>, None), g m c req w)"
    for m c req w unfolding g_def by (rule linked_stub)
  then show ?thesis
    by (simp add: linked_executor_def acme_defs go_run ModelClient_Score_def)
qed

theorem Run_score_from_enrichment_witness:
  "\<exists>res w'. Run linked_executor Background ''acme_insurance'' ''corr-1'' (Some smoke_claim) quiet_world = ((Some res, None), w') \<and>
     r_FraudScore res = hundredths 40 \<and> r_ModelVersion res = ''rules-v1''"
proof -
  obtain res w' where run: "Run linked_executor Background ''acme_insurance'' ''corr-1'' (Some smoke_claim) quiet_world =
      ((Some res, None), w')" and sc: "r_FraudScore res = hundredths 40"
    using linked_executor_scores by blast
  have "x_Score linked_executor =
      ModelClient_Score (stub [] (in_process [] (ModelServer_Score (Some []))) ''/model.v1.ModelService/Score'')"
    by (simp add: linked_executor_def)
  from Run_score_from_enrichment [OF model_link.rpc_link_axioms this run] have "r_ModelVersion res = ''rules-v1''" by blast
  with run sc show ?thesis by blast
qed

text \<open>
  (C31) A claim of a tenant and product for which the Tenant Config Service has no DAG version is refused by the
  Orchestration Service with the status \<open>NotFound\<close> under two wrappings, before any enrichment, scoring or
  publishing: time and the outside world are as before, only the log has grown.
\<close>

theorem unknown_dag_version_refused:
  assumes link: "rpc_link invoker l (Server_GetDagVersion st (Some l))"
    and client: "b_GetDagVersion b = stub lc invoker fullMethod"
    and unknown: "Store_DagVersion st tenantID (get_str ce_Product claim) = None"
  shows "\<exists>msg ls w'. Run (orchestration_executor b broker dir) ctx tenantID correlationID claim w =
      ((None, Some (WrapError [Lit ''load dag config''] (WrapError [Lit ''resolve dag version''] (StatusError NotFound msg)))), w') \<and>
    clock w' = clock w \<and> env w' = env w \<and> logs w' = logs w @ ls"
proof -
  let ?ctx = "run_context ctx tenantID correlationID"
  let ?req = "\<lparr>gdv_TenantId = tenantID, gdv_Product = get_str ce_Product claim\<rparr>"
  let ?h = "Server_GetDagVersion st (Some l) (server_context (received (client_context ?ctx))) ?req w"
  have h: "\<exists>msg w1 ls. ?h = ((None, Some (StatusError NotFound msg)), w1) \<and> clock w1 = clock w \<and> env w1 = env w \<and>
      logs w1 = logs w @ ls"
    using unknown by (simp add: Server_GetDagVersion_def Let_def)
  with rpc_link.stub_answer [OF link, of lc fullMethod ?ctx ?req w]
  obtain msg w2 ls where "stub lc invoker fullMethod ?ctx ?req w = ((None, Some (StatusError NotFound msg)), w2)"
    "clock w2 = clock w" "env w2 = env w" "logs w2 = logs w @ ls"
    by (metis append.assoc fst_conv snd_conv)
  then show ?thesis
    by (simp add: Run_def Let_def orchestration_executor_def Loader_Load_def TenantConfigClient_GetDagVersion_def client)
qed

text \<open>Backends whose version service is linked to a store, and whose other services must not be called.\<close>

definition store_backends :: "store \<Rightarrow> unit backends" where
  "store_backends st =
     \<lparr>b_GetDagVersion = stub [] (in_process [] (Server_GetDagVersion st (Some []))) ''/tenantconfig.v1.TenantConfigService/GetDagVersion'',
      b_Normalize = (\<lambda>c r w. ((None, Some unavailable), w)), b_HashClaimantId = (\<lambda>c r w. ((None, Some unavailable), w)),
      b_LookupPolicy = (\<lambda>c r w. ((None, Some unavailable), w)), b_Score = (\<lambda>c r w. ((None, Some unavailable), w)),
      b_WriteMessages = (\<lambda>p c m w. (Some unavailable, w)),
      b_ReadFile = (\<lambda>u p. Inr ''dag''), b_Unmarshal = (\<lambda>d. Inr acme_config)\<rparr>"

theorem unknown_dag_version_refused_witness:
  "\<exists>msg w'. Run (orchestration_executor (store_backends \<lparr>byID = [''acme_insurance'' \<mapsto> acme_tenant]\<rparr>) ''localhost:19092'' ''../../config/dag'')
     Background ''beta_mutual'' ''corr-1'' (Some smoke_claim) quiet_world =
     ((None, Some (WrapError [Lit ''load dag config''] (WrapError [Lit ''resolve dag version''] (StatusError NotFound msg)))), w') \<and>
     clock w' = 0"
proof -
  let ?st = "\<lparr>byID = [''acme_insurance'' \<mapsto> acme_tenant]\<rparr>"
  have "b_GetDagVersion (store_backends ?st) = stub [] (in_process [] (Server_GetDagVersion ?st (Some [])))
      ''/tenantconfig.v1.TenantConfigService/GetDagVersion''"
    by (simp add: store_backends_def)
  moreover have "Store_DagVersion ?st ''beta_mutual'' (get_str ce_Product (Some smoke_claim)) = None"
    by (simp add: Store_DagVersion_def)
  ultimately have "\<exists>msg ls w'. Run (orchestration_executor (store_backends ?st) ''localhost:19092'' ''../../config/dag'')
      Background ''beta_mutual'' ''corr-1'' (Some smoke_claim) quiet_world =
      ((None, Some (WrapError [Lit ''load dag config''] (WrapError [Lit ''resolve dag version''] (StatusError NotFound msg)))), w') \<and>
      clock w' = clock quiet_world \<and> env w' = env quiet_world \<and> logs w' = logs quiet_world @ ls"
    by (rule unknown_dag_version_refused [OF version_link.rpc_link_axioms])
  moreover have "clock quiet_world = 0" by (simp add: quiet_world_def)
  ultimately show ?thesis by auto
qed

text \<open>
  (C6) End to end: a request the gateway answers with 200 was processed by one successful run of the executor, for
  the gateway's tenant and for the correlation id the gateway generated, on the claim as submitted; and the body
  gives the claim id, that correlation id, and the status, address, score and model version of that run. The link
  between the two services is any that delivers calls as gRPC documents.
\<close>

theorem claim_end_to_end:
  assumes link: "rpc_link invoker l (ProcessClaim e)"
    and client: "h_ProcessClaim h = OrchestrationClient_ProcessClaim (stub lc invoker fullMethod)"
    and fresh: "outgoing_md (rq_Context r) = []"
    and answer: "SubmitClaim rand_Read h r w = (Responded resp, w')" "hs_Status resp = 200"
  shows "\<exists>req c w2 w3 res. let k = fst (correlation_New rand_Read w) in
    Decode (rq_Body r) = Inr req \<and> TenantIDFrom c = ''acme_insurance'' \<and> CorrelationIDFrom c = k \<and>
    Run e c ''acme_insurance'' k (Some (claim_of req k)) w2 = ((Some res, None), w3) \<and>
    hs_Body resp =
      (if is_finite (r_FraudScore res)
       then Some (JObj [(''claim_id'', JStr (cr_ClaimID req)), (''correlation_id'', JStr k), (''status'', JStr (r_Status res)),
              (''normalized_address'', JStr (r_NormalizedAddress res)), (''fraud_score'', JNum (r_FraudScore res)),
              (''model_version'', JStr (r_ModelVersion res))])
       else None)"
proof -
  from accepted_cases [OF answer] obtain req k w1 w2 pr where
    req: "Decode (rq_Body r) = Inr req" and k: "correlation_New rand_Read w = (k, w1)"
    and call: "h_ProcessClaim h (forward_context (rq_Context r) k (clock w2)) \<lparr>pq_Claim = Some (claim_of req k)\<rparr> w2 =
      ((Some pr, None), w')"
    and body: "resp = writeJSON [] 200 (claimResponse_json pr)"
    by metis
  let ?f = "forward_context (rq_Context r) k (clock w2)"
  let ?c = "server_context (received (client_context ?f))"
  have ids: "TenantIDFrom ?c = ''acme_insurance''" "CorrelationIDFrom ?c = k"
    using rpc_link.handler_identity [OF link, of ?f] forward_context_facts fresh
    by (simp_all add: node_context_def)
  have pc: "fst (ProcessClaim e ?c \<lparr>pq_Claim = Some (claim_of req k)\<rparr> w2) = (Some pr, None)"
    using arg_cong [OF call, of fst] by (simp add: client OrchestrationClient_ProcessClaim_def rpc_link.stub_fst [OF link])
  have corr: "claim_correlation ?c (Some (claim_of req k)) = k"
    using ids(2) by (auto simp: claim_correlation_def claim_of_def)
  have claim_id: "ce_ClaimId (claim_of req k) = cr_ClaimID req" by (simp add: claim_of_def)
  obtain res w3 where run: "Run e ?c ''acme_insurance'' k (Some (claim_of req k)) w2 = ((Some res, None), w3)"
    and pr: "pr = \<lparr>ps_ClaimId = cr_ClaimID req, ps_CorrelationId = k, ps_Status = r_Status res,
       ps_NormalizedAddress = r_NormalizedAddress res, ps_FraudScore = r_FraudScore res, ps_ModelVersion = r_ModelVersion res\<rparr>"
    using pc claim_id by (auto simp: ProcessClaim_def Let_def ids corr split: prod.splits option.splits)
  from req ids run body k show ?thesis
    by (intro exI [of _ req] exI [of _ ?c] exI [of _ w2] exI [of _ w3] exI [of _ res]) (simp add: pr writeJSON_def claimResponse_json_def)
qed

text \<open>The gateway linked in process to an Orchestration Service over the shipped DAG.\<close>

definition linked_handler :: "unit claims_handler" where
  "linked_handler = (demo_handler ''active'')\<lparr>
     h_ProcessClaim := OrchestrationClient_ProcessClaim
       (stub [] (in_process [] (ProcessClaim linked_executor)) ''/orchestration.v1.OrchestrationService/ProcessClaim'')\<rparr>"

lemma linked_handler_answers:
  "\<exists>pr w'. h_ProcessClaim linked_handler c \<lparr>pq_Claim = Some claim\<rparr> w = ((Some pr, None), w')"
proof -
  let ?c = "server_context (received (client_context c))"
  obtain res w1 where "Run linked_executor ?c (TenantIDFrom ?c) (claim_correlation ?c (Some claim)) (Some claim) w =
      ((Some res, None), w1)"
    using linked_executor_scores by blast
  then have "\<exists>pr. fst (h_ProcessClaim linked_handler c \<lparr>pq_Claim = Some claim\<rparr> w) = (Some pr, None)"
    by (simp add: linked_handler_def OrchestrationClient_ProcessClaim_def orchestration_link.stub_fst ProcessClaim_def)
  then show ?thesis by (metis prod.collapse)
qed

theorem claim_end_to_end_witness:
  "\<exists>resp w'. SubmitClaim demo_rand linked_handler (demo_request (Inr (request_json smoke_request))) quiet_world =
     (Responded resp, w') \<and> hs_Status resp = 200 \<and>
     (\<exists>c w2 w3 res. Run linked_executor c ''acme_insurance'' (fst (correlation_New demo_rand quiet_world))
        (Some (claim_of smoke_request (fst (correlation_New demo_rand quiet_world)))) w2 = ((Some res, None), w3))"
proof -
  let ?r = "demo_request (Inr (request_json smoke_request))"
  have dec: "Decode (Inr (request_json smoke_request)) = Inr smoke_request" by (rule decode_request_json)
  obtain resp w' where s: "SubmitClaim demo_rand linked_handler ?r quiet_world = (Responded resp, w')" and ok: "hs_Status resp = 200"
  proof -
    define c where "c = forward_context Background (fst (correlation_New demo_rand quiet_world)) 0"
    obtain pr w' where "h_ProcessClaim linked_handler c
        \<lparr>pq_Claim = Some (claim_of smoke_request (fst (correlation_New demo_rand quiet_world)))\<rparr> quiet_world = ((Some pr, None), w')"
      using linked_handler_answers by blast
    then have "SubmitClaim demo_rand linked_handler ?r quiet_world = (Responded (writeJSON [] 200 (claimResponse_json pr)), w')"
      by (simp add: SubmitClaim_def demo_request_def decode_request_json smoke_request_def demo_rand_def correlation_New_def forward_claim_def
          resolveTenant_def linked_handler_def demo_handler_def c_def forward_context_def quiet_world_def Let_def)
    then show ?thesis using that by (simp add: writeJSON_def)
  qed
  have fresh: "outgoing_md (rq_Context ?r) = []" by (simp add: demo_request_def Background_def)
  have client: "h_ProcessClaim linked_handler = OrchestrationClient_ProcessClaim
      (stub [] (in_process [] (ProcessClaim linked_executor)) ''/orchestration.v1.OrchestrationService/ProcessClaim'')"
    by (simp add: linked_handler_def)
  have "rq_Body ?r = Inr (request_json smoke_request)" by (simp add: demo_request_def)
  with claim_end_to_end [OF orchestration_link.rpc_link_axioms client fresh s ok] s ok dec show ?thesis
    by (auto simp: Let_def)
qed

end
